(* ===== verification/Prelude.thy ===== *)
theory Prelude
  imports Main "HOL-Library.Word" "HOL-Library.State_Monad" "HOL-Library.AList"
begin

text \<open>
  Shared vocabulary of the development: Go's machine integers, Go maps, the effectful
  computations the controllers are written in, and the generic lemmas the component
  theories use.

  A Go map is \<open>(key \<times> value) list option\<close>: \<open>None\<close> is the nil map, \<open>Some kvs\<close> a
  made map. The order of \<open>kvs\<close> stands for the iteration order of one \<open>range\<close> loop,
  which Go leaves unspecified; statements are proved for every list, hence for every
  order. An effectful computation that may fail is a \<open>('w, error + 'a) state\<close>, where
  \<open>'w\<close> is the state of the world outside the process.
\<close>

named_theorems go_map_simps \<open>lookup and update of Go maps\<close>
named_theorems run_simps \<open>running the effectful computations of the model\<close>

type_synonym int32 = "32 word"
type_synonym int64 = "64 word"
type_synonym ('k, 'v) gomap = "('k \<times> 'v) list option"

section \<open>Go maps\<close>

definition gm_list :: "('k, 'v) gomap \<Rightarrow> ('k \<times> 'v) list" where
  "gm_list m = (case m of None \<Rightarrow> [] | Some kvs \<Rightarrow> kvs)"

definition gm_get :: "('k, 'v) gomap \<Rightarrow> 'k \<Rightarrow> 'v option" where
  "gm_get m k = map_of (gm_list m) k"

definition gm_make :: "('k, 'v) gomap" where
  "gm_make = Some []"

definition gm_len :: "('k, 'v) gomap \<Rightarrow> nat" where
  "gm_len m = length (gm_list m)"

text \<open>
  An assignment \<open>m[k] = v\<close>. Go panics on the nil map; every assignment of the modelled
  code follows a \<open>make\<close>, so the update is stated on the made map and leaves nil alone.
\<close>

definition gm_put :: "'k \<Rightarrow> 'v \<Rightarrow> ('k, 'v) gomap \<Rightarrow> ('k, 'v) gomap" where
  "gm_put k v m = map_option (AList.update k v) m"

definition gm_wf :: "('k, 'v) gomap \<Rightarrow> bool" where
  "gm_wf m \<longleftrightarrow> distinct (map fst (gm_list m))"

lemma gm_list_simps [simp, go_map_simps]:
  "gm_list None = []" "gm_list (Some kvs) = kvs" "gm_list gm_make = []"
  by (simp_all add: gm_list_def gm_make_def)

lemma gm_get_simps [simp, go_map_simps]:
  "gm_get None k = None" "gm_get (Some kvs) k = map_of kvs k" "gm_get gm_make k = None"
  by (simp_all add: gm_get_def gm_list_def gm_make_def)

lemma gm_get_put [go_map_simps]:
  "m \<noteq> None \<Longrightarrow> gm_get (gm_put k v m) = (gm_get m)(k \<mapsto> v)"
  by (cases m) (auto simp: gm_put_def fun_eq_iff AList.update_conv')

lemma gm_put_not_None [simp, go_map_simps]: "gm_put k v m = None \<longleftrightarrow> m = None"
  by (simp add: gm_put_def)

lemma gm_make_not_None [simp, go_map_simps]: "gm_make \<noteq> None"
  by (simp add: gm_make_def)

lemma gm_wf_put [intro]: "gm_wf m \<Longrightarrow> gm_wf (gm_put k v m)"
  by (cases m) (simp_all add: gm_wf_def gm_put_def AList.distinct_update)

lemma gm_wf_make [simp, intro]: "gm_wf gm_make" "gm_wf None"
  by (simp_all add: gm_wf_def)

lemma update_present: "map_of kvs k = Some v \<Longrightarrow> AList.update k v kvs = kvs"
  by (induction kvs) (auto split: if_splits)

lemma update_absent: "map_of kvs k = None \<Longrightarrow> AList.update k v kvs = kvs @ [(k, v)]"
  by (induction kvs) (auto split: if_splits)

lemma gm_put_present: "gm_get m k = Some v \<Longrightarrow> gm_put k v m = m"
  by (cases m) (simp_all add: gm_put_def update_present)

lemma gm_find_None: "gm_wf m \<Longrightarrow> find P (gm_list m) = None \<longleftrightarrow> (\<forall>k v. gm_get m k = Some v \<longrightarrow> \<not> P (k, v))"
  by (auto simp: find_None_iff gm_get_def gm_wf_def dest: map_of_SomeD)

lemma gm_keys_eq:
  assumes "gm_wf a" "gm_wf b" "gm_len a = gm_len b" "\<And>k. gm_get a k \<noteq> None \<Longrightarrow> gm_get b k \<noteq> None"
  shows "gm_get b k \<noteq> None \<Longrightarrow> gm_get a k \<noteq> None"
proof -
  have keys: "fst ` set (gm_list m) = {k. gm_get m k \<noteq> None}" for m :: "('x, 'y) gomap"
    by (auto simp: gm_get_def map_of_eq_None_iff simp del: not_None_eq)
  have card: "card (fst ` set (gm_list m)) = gm_len m" if "gm_wf m" for m :: "('x, 'y) gomap"
    using that distinct_card [of "map fst (gm_list m)"] by (simp add: gm_wf_def gm_len_def)
  have "fst ` set (gm_list a) \<subseteq> fst ` set (gm_list b)" unfolding keys by (rule Collect_mono) (rule impI, rule assms(4))
  then have "fst ` set (gm_list a) = fst ` set (gm_list b)"
  proof (rule card_subset_eq [rotated])
    show "card (fst ` set (gm_list a)) = card (fst ` set (gm_list b))"
      by (simp only: card [OF assms(1)] card [OF assms(2)] assms(3))
  qed simp
  then show "gm_get b k \<noteq> None \<Longrightarrow> gm_get a k \<noteq> None" by (simp only: keys set_eq_iff mem_Collect_eq not_False_eq_True)
qed

section \<open>Option fields: Go pointers\<close>

text \<open>\<open>*p\<close> with a default, as in \<open>if p != nil { x = *p }\<close> after \<open>x := d\<close>.\<close>

definition deref_or :: "'a \<Rightarrow> 'a option \<Rightarrow> 'a" where
  "deref_or d p = (case p of None \<Rightarrow> d | Some x \<Rightarrow> x)"

lemma deref_or_simps [simp]: "deref_or d None = d" "deref_or d (Some x) = x"
  by (simp_all add: deref_or_def)

section \<open>Running effectful computations\<close>

lemma run_state_return' [run_simps]: "run_state (State_Monad.return x) s = (x, s)"
  by simp

lemma run_state_bind' [run_simps]:
  "run_state (State_Monad.bind m f) s = (case run_state m s of (a, s') \<Rightarrow> run_state (f a) s')"
  by simp

lemma run_state_if [run_simps]:
  "run_state (if b then m else n) s = (if b then run_state m s else run_state n s)"
  by simp

lemma run_state_case_sum [run_simps]:
  "run_state (case x of Inl e \<Rightarrow> f e | Inr v \<Rightarrow> g v) s =
     (case x of Inl e \<Rightarrow> run_state (f e) s | Inr v \<Rightarrow> run_state (g v) s)"
  by (simp split: sum.split)

lemma run_state_case_option [run_simps]:
  "run_state (case x of None \<Rightarrow> f | Some v \<Rightarrow> g v) s =
     (case x of None \<Rightarrow> run_state f s | Some v \<Rightarrow> run_state (g v) s)"
  by (simp split: option.split)

text \<open>
  \<open>on_ok m f\<close> is the Go idiom \<open>x, err := m(); if err != nil { return err }; f(x)\<close>.
\<close>

definition on_ok :: "('w, 'e + 'a) state \<Rightarrow> ('a \<Rightarrow> ('w, 'e + 'b) state) \<Rightarrow> ('w, 'e + 'b) state" where
  "on_ok m f = State_Monad.bind m
     (\<lambda>r. case r of Inl e \<Rightarrow> State_Monad.return (Inl e) | Inr x \<Rightarrow> f x)"

lemma run_on_ok [run_simps]:
  "run_state (on_ok m f) s =
     (case run_state m s of
        (Inl e, s') \<Rightarrow> (Inl e, s')
      | (Inr x, s') \<Rightarrow> run_state (f x) s')"
  by (simp add: on_ok_def run_state_case_sum split: prod.split sum.split)

lemma run_eq_fst: "fst (run_state m w) = x \<Longrightarrow> run_state m w = (x, snd (run_state m w))"
  by (simp add: prod_eq_iff)

section \<open>Lists\<close>

lemma length_filter_partition:
  "length (filter P xs) + length (filter (\<lambda>x. \<not> P x) xs) = length xs"
  by (induction xs) auto

lemma length_filter_le_imp:
  "(\<And>x. x \<in> set xs \<Longrightarrow> P x \<Longrightarrow> Q x) \<Longrightarrow> length (filter P xs) \<le> length (filter Q xs)"
  by (induction xs) auto

section \<open>Machine integers\<close>

lemma sint_int32_of_nat: "n < 2 ^ 31 \<Longrightarrow> sint (of_nat n :: int32) = int n"
proof -
  assume "n < 2 ^ 31"
  then have "signed_take_bit 31 (int n) = int n"
    by (intro signed_take_bit_int_eq_self) auto
  then show ?thesis
    by (simp add: signed_of_nat)
qed

lemma sint_int32_range: "- (2 ^ 31) \<le> sint (x :: int32)" "sint (x :: int32) < 2 ^ 31"
  using sint_ge [of x] sint_lt [of x] by simp_all

lemma sint_int32_of_int: "- (2 ^ 31) \<le> x \<Longrightarrow> x < 2 ^ 31 \<Longrightarrow> sint (of_int x :: int32) = x"
  using signed_take_bit_int_eq_self [of 31 x] by (simp add: signed_of_int)

lemma sint_int32_diff:
  fixes a b :: int32
  assumes "0 \<le> sint a" "0 \<le> sint b"
  shows "sint (a - b) = sint a - sint b"
proof -
  have "a - b = of_int (sint a - sint b)"
    by simp
  moreover have "- (2 ^ 31) \<le> sint a - sint b" "sint a - sint b < 2 ^ 31"
    using assms sint_int32_range [of a] sint_int32_range [of b] by linarith+
  ultimately show ?thesis using sint_int32_of_int by metis
qed

lemma sint_int32_upto: "n < 2 ^ 31 \<Longrightarrow> k < n \<Longrightarrow> sint (of_nat k :: int32) = int k"
  by (rule sint_int32_of_nat) simp

lemma of_nat_inj_int32: "of_nat j = (of_nat k :: int32) \<Longrightarrow> j < 2 ^ 31 \<Longrightarrow> k < 2 ^ 31 \<Longrightarrow> j = k"
  by (metis sint_int32_of_nat of_nat_eq_iff)

lemma sint_int64_of_int: "- (2 ^ 63) \<le> x \<Longrightarrow> x < 2 ^ 63 \<Longrightarrow> sint (of_int x :: int64) = x"
  using signed_take_bit_int_eq_self [of 63 x] by (simp add: signed_of_int)

lemma sint_int64_of_nat: "int n < 2 ^ 63 \<Longrightarrow> sint (of_nat n :: int64) = int n"
  using sint_int64_of_int [of "int n"] by simp

lemma int64_of_sint: "of_int (sint x) = (x :: int64)"
  by simp

lemma round_up_bounds:
  fixes d :: int
  assumes "0 < d"
  shows "a \<le> (a + (d - 1)) div d * d" "(a + (d - 1)) div d * d \<le> a + (d - 1)"
  using div_mult_mod_eq [of "a + (d - 1)" d] pos_mod_bound [OF assms, of "a + (d - 1)"] pos_mod_sign [OF assms, of "a + (d - 1)"]
  by linarith+

end
