(* ===== verification/GoStd.thy ===== *)
theory GoStd
  imports Prelude
begin

text \<open>
  The part of Go's standard library the program uses on strings: \<open>strings.Split\<close>,
  \<open>Contains\<close>, \<open>HasPrefix\<close>, \<open>CutPrefix\<close>, \<open>TrimSpace\<close>, \<open>Fields\<close>, \<open>strconv.Atoi\<close> and the
  verbs \<open>%d\<close> and \<open>%s\<close> of \<open>fmt\<close>. A Go string is a sequence of bytes, as is a HOL
  \<open>string\<close> (each \<open>char\<close> is one byte).
\<close>

named_theorems go_string_simps \<open>evaluation of the string functions on plain input\<close>

section \<open>Errors\<close>

text \<open>
  An \<open>error\<close> value: one returned by a call to the Kubernetes API (with its status reason
  and message), one made by \<open>fmt.Errorf\<close> (plain, or wrapping another with \<open>%w\<close>; the
  string is the text before the wrapped error), or a run-time panic (a nil pointer
  dereference, an index out of range), which unwinds the whole handler.
\<close>

datatype status_reason = ReasonNotFound | ReasonAlreadyExists | ReasonConflict | OtherReason string

datatype go_error =
    ApiError status_reason string
  | Errorf string
  | Wrapped string go_error
  | Panic string

fun error_text :: "go_error \<Rightarrow> string" where
  "error_text (ApiError r msg) = msg"
| "error_text (Errorf msg) = msg"
| "error_text (Wrapped msg e) = msg @ error_text e"
| "error_text (Panic msg) = msg"

text \<open>\<open>apierrors.IsNotFound\<close> and \<open>IsAlreadyExists\<close> look through wrapped errors.\<close>

fun reason_of :: "go_error \<Rightarrow> status_reason option" where
  "reason_of (ApiError r msg) = Some r"
| "reason_of (Wrapped msg e) = reason_of e"
| "reason_of _ = None"

fun is_panic :: "go_error \<Rightarrow> bool" where
  "is_panic (Panic msg) = True"
| "is_panic _ = False"

definition nil_pointer :: go_error where
  "nil_pointer = Panic ''invalid memory address or nil pointer dereference''"

definition index_out_of_range :: go_error where
  "index_out_of_range = Panic ''index out of range''"

definition is_not_found :: "go_error \<Rightarrow> bool" where
  "is_not_found e \<longleftrightarrow> reason_of e = Some ReasonNotFound"

definition is_already_exists :: "go_error \<Rightarrow> bool" where
  "is_already_exists e \<longleftrightarrow> reason_of e = Some ReasonAlreadyExists"

section \<open>Splitting and prefixes\<close>

text \<open>\<open>strings.Split(s, sep)\<close> for a separator of one byte, the only ones the code uses.\<close>

fun go_split :: "char \<Rightarrow> string \<Rightarrow> string list" where
  "go_split c [] = [[]]"
| "go_split c (x # xs) =
     (if x = c then [] # go_split c xs
      else (case go_split c xs of [] \<Rightarrow> [[x]] | p # ps \<Rightarrow> (x # p) # ps))"

text \<open>\<open>strings.Contains(s, sep)\<close> for a one-byte \<open>sep\<close>.\<close>

definition go_contains :: "char \<Rightarrow> string \<Rightarrow> bool" where
  "go_contains c s \<longleftrightarrow> c \<in> set s"

fun go_has_prefix :: "string \<Rightarrow> string \<Rightarrow> bool" where
  "go_has_prefix s [] = True"
| "go_has_prefix [] (p # ps) = False"
| "go_has_prefix (c # s) (p # ps) = (c = p \<and> go_has_prefix s ps)"

text \<open>\<open>after, found := strings.CutPrefix(s, p)\<close>: \<open>Some after\<close> when found.\<close>

definition go_cut_prefix :: "string \<Rightarrow> string \<Rightarrow> string option" where
  "go_cut_prefix s p = (if go_has_prefix s p then Some (drop (length p) s) else None)"

fun go_join :: "string \<Rightarrow> string list \<Rightarrow> string" where
  "go_join sep [] = []"
| "go_join sep [p] = p"
| "go_join sep (p # q # ps) = p @ sep @ go_join sep (q # ps)"

lemma go_split_not_Nil [simp]: "go_split c s \<noteq> []"
  by (induction s) (auto split: list.splits)

lemma go_split_no_sep [go_string_simps]: "c \<notin> set s \<Longrightarrow> go_split c s = [s]"
  by (induction s) auto

lemma go_split_append_sep [go_string_simps]:
  "c \<notin> set s \<Longrightarrow> go_split c (s @ c # t) = s # go_split c t"
  by (induction s) auto

lemma go_split_join:
  "(\<And>p. p \<in> set ps \<Longrightarrow> c \<notin> set p) \<Longrightarrow> ps \<noteq> [] \<Longrightarrow> go_split c (go_join [c] ps) = ps"
proof (induction "[c]" ps rule: go_join.induct)
  case (2 p)
  then show ?case by (simp add: go_split_no_sep)
next
  case (3 p q ps)
  then show ?case by (simp add: go_split_append_sep)
qed simp

lemma go_join_split: "go_join [c] (go_split c s) = s"
proof (induction s)
  case (Cons x xs)
  obtain p ps where sp: "go_split c xs = p # ps"
    by (cases "go_split c xs") simp_all
  with Cons show ?case by (cases ps) auto
qed simp

lemma go_split_parts: "p \<in> set (go_split c s) \<Longrightarrow> c \<notin> set p"
  by (induction s arbitrary: p) (auto split: list.splits if_splits)

lemma go_split_chars: "p \<in> set (go_split c s) \<Longrightarrow> set p \<subseteq> set s"
  by (induction s arbitrary: p) (fastforce split: list.splits if_splits)+

lemma go_join_chars: "c \<in> set (go_join sep ps) \<Longrightarrow> c \<in> set sep \<or> (\<exists>p \<in> set ps. c \<in> set p)"
  by (induction sep ps rule: go_join.induct) auto

lemma go_has_prefix_iff: "go_has_prefix s p \<longleftrightarrow> (\<exists>t. s = p @ t)"
  by (induction s p rule: go_has_prefix.induct) auto

lemma go_cut_prefix_append [simp]: "go_cut_prefix (p @ t) p = Some t"
  by (auto simp: go_cut_prefix_def go_has_prefix_iff)

lemma go_cut_prefix_Some_iff: "go_cut_prefix s p = Some t \<longleftrightarrow> s = p @ t"
  by (auto simp: go_cut_prefix_def go_has_prefix_iff)

lemma go_cut_prefix_None_iff: "go_cut_prefix s p = None \<longleftrightarrow> \<not> go_has_prefix s p"
  by (simp add: go_cut_prefix_def)

section \<open>White space\<close>

text \<open>
  The UTF-8 encodings of the code points for which \<open>unicode.IsSpace\<close> holds. UTF-8 is
  self-synchronising (a lead byte never occurs inside another encoding), so testing for
  one of these byte sequences at each position agrees with decoding rune by rune.
\<close>

definition ws_seqs :: "string list" where
  "ws_seqs =
     [[CHR 0x09], [CHR 0x0A], [CHR 0x0B], [CHR 0x0C], [CHR 0x0D], [CHR 0x20],
      [CHR 0xC2, CHR 0x85], [CHR 0xC2, CHR 0xA0], [CHR 0xE1, CHR 0x9A, CHR 0x80]]
     @ map (\<lambda>b. [CHR 0xE2, CHR 0x80, b])
         [CHR 0x80, CHR 0x81, CHR 0x82, CHR 0x83, CHR 0x84, CHR 0x85, CHR 0x86, CHR 0x87,
          CHR 0x88, CHR 0x89, CHR 0x8A, CHR 0xA8, CHR 0xA9, CHR 0xAF]
     @ [[CHR 0xE2, CHR 0x81, CHR 0x9F], [CHR 0xE3, CHR 0x80, CHR 0x80]]"

definition ws_width :: "string list \<Rightarrow> string \<Rightarrow> nat" where
  "ws_width seqs s = (case find (go_has_prefix s) seqs of None \<Rightarrow> 0 | Some w \<Rightarrow> length w)"

function drop_ws :: "string list \<Rightarrow> string \<Rightarrow> string" where
  "drop_ws seqs s =
     (let n = ws_width seqs s
      in if n = 0 \<or> s = [] then s else drop_ws seqs (drop n s))"
  by pat_completeness auto
termination
  by (relation "measure (\<lambda>(_, s). length s)") auto

declare drop_ws.simps [simp del]

definition go_trim_space :: "string \<Rightarrow> string" where
  "go_trim_space s = rev (drop_ws (map rev ws_seqs) (rev (drop_ws ws_seqs s)))"

text \<open>\<open>strings.Fields\<close>: the maximal runs without white space.\<close>

function go_fields_from :: "string \<Rightarrow> string \<Rightarrow> string list" where
  "go_fields_from acc s =
     (case s of
        [] \<Rightarrow> (if acc = [] then [] else [rev acc])
      | c # cs \<Rightarrow>
          (let n = ws_width ws_seqs s
           in if n = 0 then go_fields_from (c # acc) cs
              else if acc = [] then go_fields_from [] (drop n s)
              else rev acc # go_fields_from [] (drop n s)))"
  by pat_completeness auto
termination
  by (relation "measure (\<lambda>(_, s). length s)") (auto simp: ws_width_def)

declare go_fields_from.simps [simp del]

definition go_fields :: "string \<Rightarrow> string list" where
  "go_fields s = go_fields_from [] s"

text \<open>Bytes that start or end no white-space encoding.\<close>

definition ws_bytes :: "char set" where
  "ws_bytes = set (map hd ws_seqs) \<union> set (map last ws_seqs)"

definition plain :: "string \<Rightarrow> bool" where
  "plain s \<longleftrightarrow> (\<forall>c \<in> set s. c \<notin> ws_bytes)"

lemma ws_seqs_nonempty: "w \<in> set ws_seqs \<Longrightarrow> w \<noteq> []"
  by (auto simp: ws_seqs_def)

lemma ws_width_plain:
  assumes "s \<noteq> [] \<Longrightarrow> hd s \<notin> ws_bytes"
  shows "ws_width ws_seqs s = 0" "ws_width (map rev ws_seqs) s = 0"
proof -
  have *: "\<not> go_has_prefix s w" if "w \<noteq> []" "hd w \<in> ws_bytes" for w
    using assms that by (cases s; cases w) auto
  have "find (go_has_prefix s) ws_seqs = None"
    unfolding find_None_iff using * ws_seqs_nonempty by (fastforce simp: ws_bytes_def)
  then show "ws_width ws_seqs s = 0" by (simp add: ws_width_def)
  have "find (go_has_prefix s) (map rev ws_seqs) = None"
    unfolding find_None_iff using * ws_seqs_nonempty
    by (fastforce simp: ws_bytes_def hd_rev)
  then show "ws_width (map rev ws_seqs) s = 0" by (simp add: ws_width_def)
qed

lemma drop_ws_plain:
  assumes "s \<noteq> [] \<Longrightarrow> hd s \<notin> ws_bytes"
  shows "drop_ws ws_seqs s = s" "drop_ws (map rev ws_seqs) s = s"
  using ws_width_plain [OF assms] by (simp_all add: drop_ws.simps Let_def)

lemma go_trim_space_plain [go_string_simps]:
  assumes "plain s" shows "go_trim_space s = s"
proof -
  have "s \<noteq> [] \<Longrightarrow> hd s \<notin> ws_bytes" "rev s \<noteq> [] \<Longrightarrow> hd (rev s) \<notin> ws_bytes"
    using assms by (auto simp: plain_def hd_rev)
  then show ?thesis
    using drop_ws_plain(1) [of s] drop_ws_plain(2) [of "rev s"] by (simp add: go_trim_space_def)
qed

lemma go_fields_from_plain:
  "plain s \<Longrightarrow> go_fields_from acc s = (if rev acc @ s = [] then [] else [rev acc @ s])"
proof (induction s arbitrary: acc)
  case Nil
  then show ?case by (simp add: go_fields_from.simps)
next
  case (Cons c s)
  then have "ws_width ws_seqs (c # s) = 0" "plain s"
    by (simp_all add: plain_def ws_width_plain)
  with Cons.IH show ?case by (subst go_fields_from.simps) simp
qed

lemma ws_width_space: "ws_width ws_seqs (CHR '' '' # s) = 1"
  by (simp add: ws_width_def ws_seqs_def)

lemma go_fields_from_plain_space:
  "plain s \<Longrightarrow> go_fields_from acc (s @ CHR '' '' # t) =
     (if rev acc @ s = [] then go_fields_from [] t else (rev acc @ s) # go_fields_from [] t)"
proof (induction s arbitrary: acc)
  case Nil
  then show ?case by (subst go_fields_from.simps) (simp add: ws_width_space)
next
  case (Cons c s)
  then have "ws_width ws_seqs (c # s @ CHR '' '' # t) = 0" "plain s"
    by (simp_all add: plain_def ws_width_plain)
  with Cons.IH show ?case by (subst go_fields_from.simps) simp
qed

text \<open>Joining non-empty plain parts with one space and splitting again is the identity.\<close>

lemma go_fields_join:
  "(\<And>p. p \<in> set ps \<Longrightarrow> plain p \<and> p \<noteq> []) \<Longrightarrow> go_fields (go_join '' '' ps) = ps"
proof (induction "'' ''" ps rule: go_join.induct)
  case 1
  then show ?case by (simp add: go_fields_def go_fields_from.simps)
next
  case (2 p)
  then show ?case by (simp add: go_fields_def go_fields_from_plain)
next
  case (3 p q ps)
  then show ?case by (simp add: go_fields_def go_fields_from_plain_space)
qed

section \<open>Decimal integers: \<open>strconv.Atoi\<close> and \<open>%d\<close>\<close>

definition is_digit :: "char \<Rightarrow> bool" where
  "is_digit c \<longleftrightarrow> 48 \<le> (of_char c :: nat) \<and> (of_char c :: nat) \<le> 57"

definition digit_val :: "char \<Rightarrow> nat" where
  "digit_val c = of_char c - 48"

definition digit_char :: "nat \<Rightarrow> char" where
  "digit_char d = char_of (d + 48)"

definition digits_val :: "string \<Rightarrow> nat" where
  "digits_val s = foldl (\<lambda>n c. 10 * n + digit_val c) 0 s"

text \<open>
  \<open>strconv.Atoi\<close>: an optional sign and one or more decimal digits; a value outside the
  64-bit \<open>int\<close> is an error. \<open>None\<close> is \<open>err != nil\<close>.
\<close>

definition atoi_unsigned :: "string \<Rightarrow> nat option" where
  "atoi_unsigned s = (if s \<noteq> [] \<and> list_all is_digit s then Some (digits_val s) else None)"

definition in_int64 :: "int \<Rightarrow> bool" where
  "in_int64 v \<longleftrightarrow> - (2 ^ 63) \<le> v \<and> v < 2 ^ 63"

definition atoi :: "string \<Rightarrow> int option" where
  "atoi s =
     (case (case s of
              [] \<Rightarrow> None
            | c # cs \<Rightarrow>
                if c = CHR ''-'' then map_option (\<lambda>n. - int n) (atoi_unsigned cs)
                else if c = CHR ''+'' then map_option int (atoi_unsigned cs)
                else map_option int (atoi_unsigned s)) of
        None \<Rightarrow> None
      | Some v \<Rightarrow> if in_int64 v then Some v else None)"

text \<open>The verb \<open>%d\<close>.\<close>

fun show_nat :: "nat \<Rightarrow> string" where
  "show_nat n = (if n < 10 then [digit_char n] else show_nat (n div 10) @ [digit_char (n mod 10)])"

declare show_nat.simps [simp del]

definition show_int :: "int \<Rightarrow> string" where
  "show_int i = (if i < 0 then CHR ''-'' # show_nat (nat (- i)) else show_nat (nat i))"

lemma digit_char_props:
  assumes "d < 10"
  shows "is_digit (digit_char d)" "digit_val (digit_char d) = d"
  using assms
  by (simp_all add: is_digit_def digit_val_def digit_char_def)

lemma is_digit_not_special [simp]:
  "is_digit c \<Longrightarrow> c \<noteq> CHR ''-''" "is_digit c \<Longrightarrow> c \<noteq> CHR ''+''" "is_digit c \<Longrightarrow> c \<noteq> CHR ''*''"
  "is_digit c \<Longrightarrow> c \<noteq> CHR ''/''" "is_digit c \<Longrightarrow> c \<noteq> CHR '',''" "is_digit c \<Longrightarrow> c \<noteq> CHR '' ''"
  by (auto simp: is_digit_def)

lemma show_nat_not_Nil [simp]: "show_nat n \<noteq> []"
  by (subst show_nat.simps) simp

lemma show_nat_digits: "c \<in> set (show_nat n) \<Longrightarrow> is_digit c"
proof (induction n rule: show_nat.induct)
  case (1 n)
  then show ?case
    by (subst (asm) show_nat.simps) (auto simp: digit_char_props split: if_splits)
qed

lemma digits_val_snoc: "digits_val (s @ [c]) = 10 * digits_val s + digit_val c"
  by (simp add: digits_val_def)

lemma digits_val_show_nat: "digits_val (show_nat n) = n"
proof (induction n rule: show_nat.induct)
  case (1 n)
  show ?case
  proof (cases "n < 10")
    case True
    then show ?thesis
      by (subst show_nat.simps) (simp add: digits_val_def digit_char_props)
  next
    case False
    with 1 show ?thesis
      by (subst show_nat.simps) (simp add: digits_val_snoc digit_char_props)
  qed
qed

lemma atoi_unsigned_show_nat [simp]: "atoi_unsigned (show_nat n) = Some n"
  using show_nat_digits by (auto simp: atoi_unsigned_def list_all_iff digits_val_show_nat)

lemma atoi_show_int [go_string_simps]:
  assumes "in_int64 i" shows "atoi (show_int i) = Some i"
proof (cases "i < 0")
  case True
  then show ?thesis using assms by (simp add: atoi_def show_int_def)
next
  case False
  obtain c cs where s: "show_nat (nat i) = c # cs"
    by (cases "show_nat (nat i)") simp_all
  then have "is_digit c" using show_nat_digits [of c "nat i"] by simp
  moreover have "atoi_unsigned (c # cs) = Some (nat i)"
    using s atoi_unsigned_show_nat [of "nat i"] by simp
  ultimately show ?thesis
    using False assms s by (simp add: atoi_def show_int_def)
qed

lemma show_int_inj: "show_int i = show_int j \<Longrightarrow> i = j"
proof -
  assume eq: "show_int i = show_int j"
  have nat_inj: "m = n" if "show_nat m = show_nat n" for m n
    using that digits_val_show_nat by metis
  have sgn: "i < 0 \<longleftrightarrow> j < 0"
    using eq show_nat_digits is_digit_not_special(1)
    by (auto simp: show_int_def split: if_splits; metis list.set_intros(1))
  show "i = j"
    using eq sgn by (auto simp: show_int_def split: if_splits dest: nat_inj)
qed

lemma atoi_range: "atoi s = Some v \<Longrightarrow> in_int64 v"
  by (auto simp: atoi_def split: option.splits if_splits)

lemma ws_bytes_digit: "is_digit c \<Longrightarrow> c \<notin> ws_bytes"
  by (auto simp: ws_bytes_def ws_seqs_def is_digit_def)

lemma ws_bytes_punct [simp]:
  "CHR ''-'' \<notin> ws_bytes" "CHR ''*'' \<notin> ws_bytes" "CHR ''/'' \<notin> ws_bytes" "CHR '','' \<notin> ws_bytes"
  by (auto simp: ws_bytes_def ws_seqs_def)

lemma show_nat_plain [simp]: "plain (show_nat n)"
  using show_nat_digits ws_bytes_digit by (auto simp: plain_def)

lemma show_int_plain [simp]: "plain (show_int i)"
  by (auto simp: show_int_def plain_def dest!: show_nat_digits ws_bytes_digit)

lemma show_int_digits: "c \<in> set (show_int i) \<Longrightarrow> is_digit c \<or> c = CHR ''-''"
  by (auto simp: show_int_def dest: show_nat_digits split: if_splits)

lemma show_int_no_special:
  "CHR ''/'' \<notin> set (show_int i)" "CHR '','' \<notin> set (show_int i)" "CHR ''*'' \<notin> set (show_int i)"
  "0 \<le> i \<Longrightarrow> CHR ''-'' \<notin> set (show_int i)"
  by (auto simp: show_int_def dest!: show_nat_digits) (simp_all add: is_digit_def)

lemma show_int_not_Nil [simp]: "show_int i \<noteq> []"
  by (simp add: show_int_def)

text \<open>Go's \<open>%\<close> on \<open>int\<close> truncates towards zero.\<close>

definition go_rem :: "int \<Rightarrow> int \<Rightarrow> int" where
  "go_rem a b = sgn a * (\<bar>a\<bar> mod \<bar>b\<bar>)"

lemma go_rem_0_iff: "go_rem a b = 0 \<longleftrightarrow> b dvd a"
  by (cases "a = 0") (auto simp: go_rem_def dvd_eq_mod_eq_0 [symmetric] sgn_if)

end
