(* ===== verification/Cron.thy ===== *)
theory Cron
  imports GoStd
begin

text \<open>
  \<open>internal/scheduler/cron.go\<close>: the basic cron scheduler. First the code's functions,
  then an abstract reading of a cron field (a set of values), the proof that a validated
  field matches exactly the values it denotes, and the round trip from printed schedules.
  Wall-clock time is given by its calendar fields, as \<open>now.Minute()\<close> and so on deliver
  them; instants are nanoseconds.
\<close>

section \<open>The code\<close>

record civil_time =
  Minute :: int
  Hour :: int
  Day :: int
  Month :: int
  Weekday :: int

text \<open>The fields of a point in time, as Go's \<open>time\<close> package guarantees them.\<close>

definition civil_wf :: "civil_time \<Rightarrow> bool" where
  "civil_wf t \<longleftrightarrow> 0 \<le> Minute t \<and> Minute t \<le> 59 \<and> 0 \<le> Hour t \<and> Hour t \<le> 23 \<and>
     1 \<le> Day t \<and> Day t \<le> 31 \<and> 1 \<le> Month t \<and> Month t \<le> 12 \<and> 0 \<le> Weekday t \<and> Weekday t \<le> 6"

record Schedule =
  schedule :: string

definition time_Minute :: int where
  "time_Minute = 60 * 10 ^ 9"

text \<open>\<open>Schedule.Next\<close>\<close>

definition Next :: "Schedule \<Rightarrow> int \<Rightarrow> int" where
  "Next s after = after + time_Minute"

definition matchesField :: "string \<Rightarrow> int \<Rightarrow> int \<Rightarrow> int \<Rightarrow> bool" where
  "matchesField field val mn mx =
     (if field = ''*'' then True
      else if go_contains (CHR ''-'') field then
        (case go_split (CHR ''-'') field of
           [a, b] \<Rightarrow>
             (case (atoi a, atoi b) of
                (Some lo, Some hi) \<Rightarrow> lo \<le> val \<and> val \<le> hi
              | _ \<Rightarrow> False)
         | _ \<Rightarrow> False)
      else if go_contains (CHR ''/'') field then
        (case go_split (CHR ''/'') field of
           [a, b] \<Rightarrow>
             (if a = ''*'' then
                (case atoi b of
                   Some step \<Rightarrow> (if 0 < step then go_rem val step = 0 else False)
                 | None \<Rightarrow> False)
              else False)
         | _ \<Rightarrow> False)
      else if go_contains (CHR '','') field then
        list_ex (\<lambda>v. atoi (go_trim_space v) = Some val) (go_split (CHR '','') field)
      else
        (case atoi field of Some v \<Rightarrow> v = val | None \<Rightarrow> False))"

definition empty_schedule :: go_error where
  "empty_schedule = Errorf ''empty schedule''"

definition invalid_format :: "string \<Rightarrow> go_error" where
  "invalid_format s = Errorf (''invalid cron format, expected 5 fields: '' @ s)"

definition IsTimeToRun :: "civil_time \<Rightarrow> string \<Rightarrow> go_error + bool" where
  "IsTimeToRun now sched =
     (if sched = '''' then Inl empty_schedule
      else
        (let parts = go_fields sched
         in if length parts \<noteq> 5 then Inl (invalid_format sched)
            else if \<not> matchesField (parts ! 0) (Minute now) 0 59 then Inr False
            else if \<not> matchesField (parts ! 1) (Hour now) 0 23 then Inr False
            else if \<not> matchesField (parts ! 2) (Day now) 1 31 then Inr False
            else if \<not> matchesField (parts ! 3) (Month now) 1 12 then Inr False
            else if \<not> matchesField (parts ! 4) (Weekday now) 0 6 then Inr False
            else Inr True))"

definition out_of_bounds :: "string \<Rightarrow> int \<Rightarrow> int \<Rightarrow> string \<Rightarrow> go_error" where
  "out_of_bounds what mn mx v =
     Errorf (what @ '' out of bounds ('' @ show_int mn @ ''-'' @ show_int mx @ ''): '' @ v)"

text \<open>The loop over the comma-separated values stops at the first bad one.\<close>

fun validate_values :: "int \<Rightarrow> int \<Rightarrow> string list \<Rightarrow> go_error + unit" where
  "validate_values mn mx [] = Inr ()"
| "validate_values mn mx (v # vs) =
     (case atoi (go_trim_space v) of
        None \<Rightarrow> Inl (Errorf (''invalid value: '' @ v))
      | Some n \<Rightarrow>
          if n < mn \<or> n > mx then Inl (out_of_bounds ''value'' mn mx (show_int n))
          else validate_values mn mx vs)"

definition validateField :: "string \<Rightarrow> string \<Rightarrow> int \<Rightarrow> int \<Rightarrow> go_error + unit" where
  "validateField field name mn mx =
     (if field = ''*'' then Inr ()
      else if go_contains (CHR ''-'') field then
        (case go_split (CHR ''-'') field of
           [a, b] \<Rightarrow>
             (case (atoi a, atoi b) of
                (Some lo, Some hi) \<Rightarrow>
                  if lo < mn \<or> lo > mx \<or> hi < mn \<or> hi > mx \<or> lo > hi
                  then Inl (out_of_bounds ''range'' mn mx field)
                  else Inr ()
              | _ \<Rightarrow> Inl (Errorf (''invalid range values: '' @ field)))
         | _ \<Rightarrow> Inl (Errorf (''invalid range format: '' @ field)))
      else if go_contains (CHR ''/'') field then
        (case go_split (CHR ''/'') field of
           [a, b] \<Rightarrow>
             (if a \<noteq> ''*'' then Inl (Errorf (''step values must start with *: '' @ field))
              else
                (case atoi b of
                   None \<Rightarrow> Inl (Errorf (''invalid step value: '' @ field))
                 | Some step \<Rightarrow>
                     if step \<le> 0 then Inl (Errorf (''invalid step value: '' @ field)) else Inr ()))
         | _ \<Rightarrow> Inl (Errorf (''invalid step format: '' @ field)))
      else if go_contains (CHR '','') field then
        validate_values mn mx (go_split (CHR '','') field)
      else
        (case atoi field of
           None \<Rightarrow> Inl (Errorf (''invalid value: '' @ field))
         | Some v \<Rightarrow>
             if v < mn \<or> v > mx then Inl (out_of_bounds ''value'' mn mx (show_int v)) else Inr ()))"

text \<open>The table of \<open>ValidateSchedule\<close>: name, minimum and maximum of each field.\<close>

definition cron_fields :: "(string \<times> int \<times> int) list" where
  "cron_fields =
     [(''minute'', 0, 59), (''hour'', 0, 23), (''day'', 1, 31), (''month'', 1, 12), (''weekday'', 0, 6)]"

fun validate_fields :: "(string \<times> int \<times> int) list \<Rightarrow> string list \<Rightarrow> go_error + unit" where
  "validate_fields ((name, mn, mx) # fs) (p # ps) =
     (case validateField p name mn mx of
        Inl e \<Rightarrow> Inl (Wrapped (''invalid '' @ name @ '' field: '') e)
      | Inr _ \<Rightarrow> validate_fields fs ps)"
| "validate_fields _ _ = Inr ()"

definition ValidateSchedule :: "string \<Rightarrow> go_error + unit" where
  "ValidateSchedule sched =
     (if sched = '''' then Inl empty_schedule
      else
        (let parts = go_fields sched
         in if length parts \<noteq> 5 then Inl (invalid_format sched)
            else validate_fields cron_fields parts))"

definition ParseSchedule :: "string \<Rightarrow> go_error + Schedule" where
  "ParseSchedule sched =
     (case ValidateSchedule sched of Inl e \<Rightarrow> Inl e | Inr _ \<Rightarrow> Inr \<lparr>schedule = sched\<rparr>)"

definition NextRunTime :: "int \<Rightarrow> string \<Rightarrow> go_error + int" where
  "NextRunTime now sched =
     (if sched = '''' then Inl empty_schedule else Inr (now + time_Minute))"

section \<open>The abstract reading of a field\<close>

text \<open>What a field of the supported syntax denotes: a set of values.\<close>

datatype cron_field = AnyValue | Range int int | Step int | Values "int list"

fun denotes :: "cron_field \<Rightarrow> int \<Rightarrow> bool" where
  "denotes AnyValue v = True"
| "denotes (Range a b) v = (a \<le> v \<and> v \<le> b)"
| "denotes (Step n) v = (n dvd v)"
| "denotes (Values vs) v = (v \<in> set vs)"

fun in_bounds :: "int \<Rightarrow> int \<Rightarrow> cron_field \<Rightarrow> bool" where
  "in_bounds mn mx AnyValue = True"
| "in_bounds mn mx (Range a b) = (mn \<le> a \<and> a \<le> b \<and> b \<le> mx)"
| "in_bounds mn mx (Step n) = (0 < n \<and> n < 2 ^ 63)"
| "in_bounds mn mx (Values vs) = (vs \<noteq> [] \<and> (\<forall>v \<in> set vs. mn \<le> v \<and> v \<le> mx))"

fun show_field :: "cron_field \<Rightarrow> string" where
  "show_field AnyValue = ''*''"
| "show_field (Range a b) = show_int a @ ''-'' @ show_int b"
| "show_field (Step n) = ''*/'' @ show_int n"
| "show_field (Values vs) = go_join '','' (map show_int vs)"

definition show_schedule :: "cron_field list \<Rightarrow> string" where
  "show_schedule fs = go_join '' '' (map show_field fs)"

text \<open>\<open>field_means s mn mx f\<close>: the string \<open>s\<close> matches exactly the values of \<open>f\<close>, which is in bounds.\<close>

definition field_means :: "string \<Rightarrow> int \<Rightarrow> int \<Rightarrow> cron_field \<Rightarrow> bool" where
  "field_means s mn mx f \<longleftrightarrow>
     in_bounds mn mx f \<and> (\<forall>v lo hi. matchesField s v lo hi = denotes f v)"

lemmas cron_code_defs = matchesField_def validateField_def go_contains_def

lemma validate_values_ok:
  "validate_values mn mx ps = Inr () \<longleftrightarrow>
     (\<exists>vs. map (\<lambda>p. atoi (go_trim_space p)) ps = map Some vs \<and> (\<forall>v \<in> set vs. mn \<le> v \<and> v \<le> mx))"
proof (induction ps)
  case (Cons p ps)
  show ?case
  proof (cases "atoi (go_trim_space p)")
    case (Some n)
    with Cons show ?thesis
      by (auto simp: Cons_eq_map_conv intro: exI [where x = "n # _"])
  qed (auto simp: Cons_eq_map_conv)
qed simp

lemma validate_values_match:
  assumes "map (\<lambda>p. atoi (go_trim_space p)) ps = map Some vs"
  shows "list_ex (\<lambda>p. atoi (go_trim_space p) = Some v) ps \<longleftrightarrow> v \<in> set vs"
proof -
  have "list_ex (\<lambda>p. atoi (go_trim_space p) = Some v) ps \<longleftrightarrow>
      Some v \<in> set (map (\<lambda>p. atoi (go_trim_space p)) ps)"
    by (force simp: list_ex_iff)
  then show ?thesis unfolding assms by auto
qed

text \<open>A field that passes validation has a meaning within its bounds.\<close>

lemma validateField_means:
  assumes "validateField s name mn mx = Inr ()"
  shows "\<exists>f. field_means s mn mx f"
proof -
  consider (any) "s = ''*''"
    | (range) "s \<noteq> ''*''" "CHR ''-'' \<in> set s"
    | (step) "s \<noteq> ''*''" "CHR ''-'' \<notin> set s" "CHR ''/'' \<in> set s"
    | (vals) "s \<noteq> ''*''" "CHR ''-'' \<notin> set s" "CHR ''/'' \<notin> set s" "CHR '','' \<in> set s"
    | (single) "s \<noteq> ''*''" "CHR ''-'' \<notin> set s" "CHR ''/'' \<notin> set s" "CHR '','' \<notin> set s"
    by blast
  then show ?thesis
  proof cases
    case any
    then show ?thesis
      by (intro exI [of _ AnyValue]) (simp add: field_means_def cron_code_defs)
  next
    case range
    with assms obtain a b lo hi where "go_split (CHR ''-'') s = [a, b]"
      "atoi a = Some lo" "atoi b = Some hi" "mn \<le> lo" "lo \<le> hi" "hi \<le> mx"
      by (auto simp: cron_code_defs split: list.splits option.splits if_splits)
    with range show ?thesis
      by (intro exI [of _ "Range lo hi"]) (auto simp: field_means_def cron_code_defs)
  next
    case step
    with assms obtain b n where "go_split (CHR ''/'') s = [''*'', b]" "atoi b = Some n" "0 < n"
      by (auto simp: cron_code_defs not_le split: list.splits option.splits if_splits)
    moreover from this have "n < 2 ^ 63"
      using atoi_range [of b n] by (simp add: in_int64_def)
    ultimately show ?thesis using step
      by (intro exI [of _ "Step n"]) (auto simp: field_means_def cron_code_defs go_rem_0_iff)
  next
    case vals
    with assms obtain vs where
      vs: "map (\<lambda>p. atoi (go_trim_space p)) (go_split (CHR '','') s) = map Some vs"
      and bounds: "\<forall>v \<in> set vs. mn \<le> v \<and> v \<le> mx"
      by (auto simp: cron_code_defs validate_values_ok)
    have "vs \<noteq> []" using vs by (cases vs) auto
    with vals bounds validate_values_match [OF vs] show ?thesis
      by (intro exI [of _ "Values vs"]) (auto simp: field_means_def cron_code_defs)
  next
    case single
    with assms obtain v where "atoi s = Some v" "mn \<le> v" "v \<le> mx"
      by (auto simp: cron_code_defs not_less split: option.splits if_splits)
    with single show ?thesis
      by (intro exI [of _ "Values [v]"]) (auto simp: field_means_def cron_code_defs)
  qed
qed

lemma show_field_plain:
  assumes "in_bounds mn mx f" shows "plain (show_field f)" "show_field f \<noteq> []"
proof -
  have "plain (go_join '','' (map show_int vs))" for vs
    using show_int_plain by (auto simp: plain_def dest!: go_join_chars)
  then show "plain (show_field f)"
    using show_int_plain by (cases f) (auto simp: plain_def)
  show "show_field f \<noteq> []"
  proof (cases f)
    case (Values vs)
    with assms show ?thesis by (cases vs; cases "tl vs") auto
  qed auto
qed

text \<open>A printed field parses back: it is accepted and means what was printed.\<close>

lemma bounds_in_int64: "- (2 ^ 63) \<le> mn \<Longrightarrow> mx < 2 ^ 63 \<Longrightarrow> mn \<le> v \<Longrightarrow> v \<le> mx \<Longrightarrow> in_int64 v"
  by (simp add: in_int64_def)

lemma show_values_chars:
  assumes "\<forall>v \<in> set vs. 0 \<le> v"
  shows "CHR ''-'' \<notin> set (go_join '','' (map show_int vs))"
        "CHR ''/'' \<notin> set (go_join '','' (map show_int vs))"
        "CHR ''*'' \<notin> set (go_join '','' (map show_int vs))"
  using assms by (auto dest!: go_join_chars simp: show_int_no_special)

lemma show_field_roundtrip:
  assumes wf: "in_bounds mn mx f" and mn: "0 \<le> mn" and mx: "mx < 2 ^ 63"
  shows "validateField (show_field f) name mn mx = Inr ()"
    and "matchesField (show_field f) v lo hi = denotes f v"
proof -
  have atoi_in: "atoi (show_int v) = Some v" if "mn \<le> v" "v \<le> mx" for v
    using that mn mx by (intro atoi_show_int bounds_in_int64 [of mn mx]) auto
  have "validateField (show_field f) name mn mx = Inr () \<and> matchesField (show_field f) v lo hi = denotes f v"
  proof (cases f)
    case AnyValue
    then show ?thesis by (simp add: cron_code_defs)
  next
    case (Range a b)
    with wf mn have ab: "0 \<le> a" "0 \<le> b" "mn \<le> a" "a \<le> mx" "mn \<le> b" "b \<le> mx" "a \<le> b" by auto
    have "show_field f \<noteq> ''*''" using Range by (cases "show_int a") auto
    moreover have "go_split (CHR ''-'') (show_field f) = [show_int a, show_int b]"
      using ab Range by (simp add: go_split_append_sep go_split_no_sep show_int_no_special)
    ultimately show ?thesis
      using Range ab atoi_in [of a] atoi_in [of b] by (simp add: cron_code_defs)
  next
    case (Step n)
    with wf have n: "0 < n" "atoi (show_int n) = Some n"
      by (auto intro!: atoi_show_int simp: in_int64_def)
    have "go_split (CHR ''/'') (show_field f) = [''*'', show_int n]"
      using Step by (simp add: go_split_no_sep show_int_no_special)
    then show ?thesis
      using Step n by (simp add: cron_code_defs go_rem_0_iff show_int_no_special)
  next
    case (Values vs)
    with wf have vs: "vs \<noteq> []" "\<forall>v \<in> set vs. mn \<le> v \<and> v \<le> mx" by auto
    with mn have nonneg: "\<forall>v \<in> set vs. 0 \<le> v" by auto
    note chars = show_values_chars [OF nonneg]
    have not_star: "show_field f \<noteq> ''*''" using chars(3) Values by auto
    have maps: "map (\<lambda>p. atoi (go_trim_space p)) (map show_int vs) = map Some vs"
      using vs atoi_in by (simp add: go_trim_space_plain)
    show ?thesis
    proof (cases "tl vs = []")
      case True
      with vs obtain w where w: "vs = [w]" "mn \<le> w" "w \<le> mx" by (cases vs) auto
      with mn Values not_star atoi_in [of w] show ?thesis
        by (auto simp: cron_code_defs show_int_no_special)
    next
      case False
      have comma: "CHR '','' \<in> set (go_join '','' (map show_int vs))"
        using vs False by (cases vs; cases "tl vs") auto
      have split: "go_split (CHR '','') (go_join '','' (map show_int vs)) = map show_int vs"
        using vs by (intro go_split_join) (auto simp: show_int_no_special)
      have "validate_values mn mx (map show_int vs) = Inr ()"
        unfolding validate_values_ok using maps vs by blast
      then show ?thesis
        using Values chars not_star comma split validate_values_match [OF maps]
        by (simp add: cron_code_defs)
    qed
  qed
  then show "validateField (show_field f) name mn mx = Inr ()"
    and "matchesField (show_field f) v lo hi = denotes f v" by auto
qed

section \<open>Whole schedules\<close>

definition civil_fields :: "civil_time \<Rightarrow> int list" where
  "civil_fields t = [Minute t, Hour t, Day t, Month t, Weekday t]"

definition schedule_bounds :: "(int \<times> int) list" where
  "schedule_bounds = map snd cron_fields"

text \<open>The five fields of a schedule, each within its bounds.\<close>

definition schedule_wf :: "cron_field list \<Rightarrow> bool" where
  "schedule_wf fs \<longleftrightarrow> list_all2 (\<lambda>(mn, mx) f. in_bounds mn mx f) schedule_bounds fs"

lemma schedule_wf_iff:
  "schedule_wf fs \<longleftrightarrow>
     (\<exists>a b c d e. fs = [a, b, c, d, e] \<and> in_bounds 0 59 a \<and> in_bounds 0 23 b \<and> in_bounds 1 31 c \<and>
        in_bounds 1 12 d \<and> in_bounds 0 6 e)"
  by (auto simp: schedule_wf_def schedule_bounds_def cron_fields_def list_all2_Cons1)

lemma list_of_length_5: "length xs = 5 \<Longrightarrow> \<exists>a b c d e. xs = [a, b, c, d, e]"
  by (auto simp: numeral_eq_Suc length_Suc_conv)

lemma validate_fields_5:
  "validate_fields cron_fields [a, b, c, d, e] = Inr () \<longleftrightarrow>
     validateField a ''minute'' 0 59 = Inr () \<and> validateField b ''hour'' 0 23 = Inr () \<and>
     validateField c ''day'' 1 31 = Inr () \<and> validateField d ''month'' 1 12 = Inr () \<and>
     validateField e ''weekday'' 0 6 = Inr ()"
  by (auto simp: cron_fields_def split: sum.splits)

lemma IsTimeToRun_5:
  assumes "s \<noteq> ''''" "go_fields s = [a, b, c, d, e]"
  shows "IsTimeToRun now s = Inr (matchesField a (Minute now) 0 59 \<and> matchesField b (Hour now) 0 23 \<and>
     matchesField c (Day now) 1 31 \<and> matchesField d (Month now) 1 12 \<and> matchesField e (Weekday now) 0 6)"
  using assms by (auto simp: IsTimeToRun_def Let_def)

lemma ValidateSchedule_fields:
  assumes "ValidateSchedule s = Inr ()"
  obtains a b c d e where "s \<noteq> ''''" "go_fields s = [a, b, c, d, e]"
    "validate_fields cron_fields [a, b, c, d, e] = Inr ()"
  using assms list_of_length_5 [of "go_fields s"]
  by (auto simp: ValidateSchedule_def Let_def split: if_splits)

text \<open>
  A cron field that \<open>validateField\<close> accepts has a meaning within the field's bounds, and
  \<open>matchesField\<close> matches exactly the values of that meaning.
\<close>

theorem validated_field_matches_its_meaning:
  assumes "validateField s name mn mx = Inr ()"
  shows "\<exists>f. in_bounds mn mx f \<and> (\<forall>v lo hi. matchesField s v lo hi = denotes f v)"
  using validateField_means [OF assms] by (simp add: field_means_def)

theorem validated_field_matches_its_meaning_witness:
  "validateField ''9-17'' ''hour'' 0 23 = Inr () \<and>
   (\<exists>f. in_bounds 0 23 f \<and> (\<forall>v lo hi. matchesField ''9-17'' v lo hi = denotes f v))"
proof -
  have ok: "validateField ''9-17'' ''hour'' 0 23 = Inr ()" by code_simp
  show ?thesis using ok validated_field_matches_its_meaning [OF ok] by simp
qed

text \<open>
  The grammar of a field. \<open>spells s f\<close>: the text \<open>s\<close> is a way to write the field \<open>f\<close>. Numbers are
  what \<open>Atoi\<close> reads; a list may have white space around its values.
\<close>

definition free_of :: "string \<Rightarrow> string \<Rightarrow> bool" where
  "free_of cs s \<longleftrightarrow> (\<forall>c \<in> set cs. c \<notin> set s)"

inductive spells :: "string \<Rightarrow> cron_field \<Rightarrow> bool" where
  star: "spells ''*'' AnyValue"
| range: "atoi a = Some lo \<Longrightarrow> atoi b = Some hi \<Longrightarrow> free_of ''-'' a \<Longrightarrow> free_of ''-'' b \<Longrightarrow>
    spells (a @ ''-'' @ b) (Range lo hi)"
| step: "atoi b = Some n \<Longrightarrow> 0 < n \<Longrightarrow> free_of ''-/'' b \<Longrightarrow> spells (''*/'' @ b) (Step n)"
| single: "atoi s = Some v \<Longrightarrow> free_of ''-/,'' s \<Longrightarrow> spells s (Values [v])"
| several: "list_all2 (\<lambda>p v. atoi (go_trim_space p) = Some v \<and> free_of ''-/,'' p) ps vs \<Longrightarrow> 2 \<le> length ps \<Longrightarrow>
    spells (go_join '','' ps) (Values vs)"

lemma free_of_simps [simp]:
  "free_of [] s" "free_of (c # cs) s \<longleftrightarrow> c \<notin> set s \<and> free_of cs s"
  by (simp_all add: free_of_def)

lemma atoi_star: "atoi ''*'' = None"
  by code_simp

text \<open>Whatever way a field is written: it is accepted within its bounds, and matches exactly its values.\<close>

lemma spells_matches:
  assumes "spells s f" "in_bounds mn mx f"
  shows "validateField s name mn mx = Inr () \<and> matchesField s v lo hi = denotes f v"
  using assms
proof (cases rule: spells.cases)
  case star
  then show ?thesis by (simp add: cron_code_defs)
next
  case (range a l b h)
  have "go_split (CHR ''-'') (a @ ''-'' @ b) = [a, b]"
    using range by (simp add: go_split_append_sep go_split_no_sep)
  moreover have "a @ ''-'' @ b \<noteq> ''*''" by (cases a) auto
  ultimately show ?thesis using range assms(2) by (simp add: cron_code_defs)
next
  case (step b n)
  have "go_split (CHR ''/'') (''*/'' @ b) = [''*'', b]"
    using step by (simp add: go_split_append_sep go_split_no_sep)
  then show ?thesis using step assms(2) by (simp add: cron_code_defs go_rem_0_iff)
next
  case (single w)
  then have "s \<noteq> ''*''" using atoi_star by auto
  with single assms(2) show ?thesis by (auto simp: cron_code_defs)
next
  case (several ps vs)
  have parts: "free_of ''-/,'' p" if "p \<in> set ps" for p
    using several(3) that by (auto simp: list_all2_conv_all_nth in_set_conv_nth)
  have maps: "map (\<lambda>p. atoi (go_trim_space p)) ps = map Some vs"
    using several(3) by (auto simp: list_all2_conv_all_nth intro: nth_equalityI)
  obtain p q qs where ps: "ps = p # q # qs" using several(4) by (cases ps; cases "tl ps") auto
  have comma: "CHR '','' \<in> set (go_join '','' ps)" by (simp add: ps)
  have chars: "CHR ''-'' \<notin> set (go_join '','' ps)" "CHR ''/'' \<notin> set (go_join '','' ps)"
    using parts by (auto dest!: go_join_chars)
  have split: "go_split (CHR '','') (go_join '','' ps) = ps"
    using parts ps by (intro go_split_join) auto
  have star: "go_join '','' ps \<noteq> ''*''" using comma by auto
  have "validate_values mn mx ps = Inr ()"
    unfolding validate_values_ok using maps several(2) assms(2) by auto
  then show ?thesis
    using several(1,2) chars star comma split validate_values_match [OF maps] by (simp add: cron_code_defs)
qed

lemma go_split_two: "go_split c s = [a, b] \<Longrightarrow> s = a @ c # b \<and> c \<notin> set a \<and> c \<notin> set b"
  using go_join_split [of c s] go_split_parts [of a c s] go_split_parts [of b c s] by auto

lemma go_split_more: "c \<in> set s \<Longrightarrow> 2 \<le> length (go_split c s)"
  by (induction s) (auto split: list.split simp: Suc_le_eq)

text \<open>What is accepted is a way to write a field within the bounds.\<close>

lemma validateField_spells:
  assumes "validateField s name mn mx = Inr ()"
  shows "\<exists>f. spells s f \<and> in_bounds mn mx f"
proof -
  consider (any) "s = ''*''"
    | (range) "s \<noteq> ''*''" "CHR ''-'' \<in> set s"
    | (step) "s \<noteq> ''*''" "CHR ''-'' \<notin> set s" "CHR ''/'' \<in> set s"
    | (vals) "s \<noteq> ''*''" "CHR ''-'' \<notin> set s" "CHR ''/'' \<notin> set s" "CHR '','' \<in> set s"
    | (one) "s \<noteq> ''*''" "CHR ''-'' \<notin> set s" "CHR ''/'' \<notin> set s" "CHR '','' \<notin> set s"
    by blast
  then show ?thesis
  proof cases
    case any
    then show ?thesis using spells.star by (intro exI [of _ AnyValue]) simp
  next
    case range
    with assms obtain a b lo hi where s: "go_split (CHR ''-'') s = [a, b]"
      and "atoi a = Some lo" "atoi b = Some hi" "mn \<le> lo" "lo \<le> hi" "hi \<le> mx"
      by (auto simp: cron_code_defs split: list.splits option.splits if_splits)
    with go_split_two [OF s] spells.range [of a lo b hi] show ?thesis
      by (intro exI [of _ "Range lo hi"]) simp
  next
    case step
    with assms obtain b n where s: "go_split (CHR ''/'') s = [''*'', b]" and n: "atoi b = Some n" "0 < n"
      by (auto simp: cron_code_defs not_le split: list.splits option.splits if_splits)
    moreover have "n < 2 ^ 63" using atoi_range [OF n(1)] by (simp add: in_int64_def)
    ultimately show ?thesis
      using go_split_two [OF s] step spells.step [OF n] by (intro exI [of _ "Step n"]) auto
  next
    case vals
    let ?ps = "go_split (CHR '','') s"
    from vals assms obtain vs where
      vs: "map (\<lambda>p. atoi (go_trim_space p)) ?ps = map Some vs"
      and bounds: "\<forall>v \<in> set vs. mn \<le> v \<and> v \<le> mx"
      by (auto simp: cron_code_defs validate_values_ok)
    have len: "length ?ps = length vs" using vs by (metis length_map)
    have "free_of ''-/,'' p" if "p \<in> set ?ps" for p
      using that go_split_chars [OF that] go_split_parts [OF that] vals by auto
    moreover have "atoi (go_trim_space (?ps ! i)) = Some (vs ! i)" if "i < length ?ps" for i
      using arg_cong [OF vs, of "\<lambda>xs. xs ! i"] that len by simp
    ultimately have "list_all2 (\<lambda>p v. atoi (go_trim_space p) = Some v \<and> free_of ''-/,'' p) ?ps vs"
      using len by (auto simp: list_all2_conv_all_nth)
    from spells.several [OF this go_split_more [OF vals(4)]] have "spells s (Values vs)"
      by (simp add: go_join_split)
    moreover have "vs \<noteq> []" using len by auto
    ultimately show ?thesis using bounds by (intro exI [of _ "Values vs"]) simp
  next
    case one
    with assms obtain v where v: "atoi s = Some v" "mn \<le> v" "v \<le> mx"
      by (auto simp: cron_code_defs not_less split: option.splits if_splits)
    with one spells.single [OF v(1)] show ?thesis by (intro exI [of _ "Values [v]"]) simp
  qed
qed

text \<open>A schedule and the five fields it spells.\<close>

definition reads_as :: "string \<Rightarrow> cron_field list \<Rightarrow> bool" where
  "reads_as s fs \<longleftrightarrow> schedule_wf fs \<and> list_all2 spells (go_fields s) fs"

lemma reads_as_fields:
  assumes "reads_as s fs"
  obtains a b c d e fa fb fc fd fe where "s \<noteq> ''''" "go_fields s = [a, b, c, d, e]" "fs = [fa, fb, fc, fd, fe]"
    "spells a fa" "in_bounds 0 59 fa" "spells b fb" "in_bounds 0 23 fb" "spells c fc" "in_bounds 1 31 fc"
    "spells d fd" "in_bounds 1 12 fd" "spells e fe" "in_bounds 0 6 fe"
proof -
  have "go_fields '''' = []" by code_simp
  with assms that show thesis
    by (fastforce simp: reads_as_def schedule_wf_iff list_all2_Cons2)
qed

text \<open>
  C10. The meaning of a schedule is that of its text. \<open>ValidateSchedule\<close> accepts exactly the texts
  whose five words spell fields (\<open>*\<close>, \<open>a-b\<close>, \<open>*/n\<close>, or values) within the bounds of minute,
  hour, day, month and weekday; and for every such reading \<open>IsTimeToRun\<close> does not fail and
  answers true exactly when each calendar field is one of the values its word denotes.
\<close>

theorem validated_schedule_runs_when_all_fields_match:
  "(ValidateSchedule s = Inr () \<longleftrightarrow> (\<exists>fs. reads_as s fs)) \<and>
   (\<forall>fs now. reads_as s fs \<longrightarrow> IsTimeToRun now s = Inr (list_all2 denotes fs (civil_fields now)))"
proof (intro conjI iffI allI impI)
  assume "ValidateSchedule s = Inr ()"
  then obtain a b c d e where s: "s \<noteq> ''''" "go_fields s = [a, b, c, d, e]"
    and v: "validate_fields cron_fields [a, b, c, d, e] = Inr ()"
    by (rule ValidateSchedule_fields)
  from v obtain fa fb fc fd fe where "spells a fa \<and> in_bounds 0 59 fa" "spells b fb \<and> in_bounds 0 23 fb"
    "spells c fc \<and> in_bounds 1 31 fc" "spells d fd \<and> in_bounds 1 12 fd" "spells e fe \<and> in_bounds 0 6 fe"
    unfolding validate_fields_5 using validateField_spells by meson
  with s show "\<exists>fs. reads_as s fs"
    by (intro exI [of _ "[fa, fb, fc, fd, fe]"]) (simp add: reads_as_def schedule_wf_iff)
next
  assume "\<exists>fs. reads_as s fs"
  then obtain fs where "reads_as s fs" ..
  then show "ValidateSchedule s = Inr ()"
    by (rule reads_as_fields) (simp add: ValidateSchedule_def Let_def validate_fields_5 spells_matches)
next
  fix fs now assume "reads_as s fs"
  then show "IsTimeToRun now s = Inr (list_all2 denotes fs (civil_fields now))"
  proof (rule reads_as_fields)
    fix a b c d e fa fb fc fd fe
    assume s: "s \<noteq> ''''" "go_fields s = [a, b, c, d, e]" and fs: "fs = [fa, fb, fc, fd, fe]"
      and sp: "spells a fa" "in_bounds 0 59 fa" "spells b fb" "in_bounds 0 23 fb" "spells c fc" "in_bounds 1 31 fc"
        "spells d fd" "in_bounds 1 12 fd" "spells e fe" "in_bounds 0 6 fe"
    note m = spells_matches [THEN conjunct2]
    show ?thesis
      unfolding IsTimeToRun_5 [OF s] fs civil_fields_def m [OF sp(1,2)] m [OF sp(3,4)] m [OF sp(5,6)] m [OF sp(7,8)] m [OF sp(9,10)]
      by simp
  qed
qed

text \<open>At two o'clock on Mondays and Fridays.\<close>

theorem validated_schedule_runs_when_all_fields_match_witness:
  "ValidateSchedule ''0 2 * * 1,5'' = Inr () \<and>
   (\<forall>now. IsTimeToRun now ''0 2 * * 1,5'' =
      Inr (Minute now = 0 \<and> Hour now = 2 \<and> (Weekday now = 1 \<or> Weekday now = 5)))"
proof -
  let ?fs = "[Values [0], Values [2], AnyValue, AnyValue, Values [1, 5]]"
  have f: "go_fields ''0 2 * * 1,5'' = [''0'', ''2'', ''*'', ''*'', ''1,5'']" by code_simp
  have at: "atoi ''0'' = Some 0" "atoi ''2'' = Some 2" "atoi (go_trim_space ''1'') = Some 1"
    "atoi (go_trim_space ''5'') = Some 5" by code_simp+
  have "spells ''1,5'' (Values [1, 5])"
    using spells.several [of "[''1'', ''5'']" "[1, 5]"] at by simp
  with at f have "reads_as ''0 2 * * 1,5'' ?fs"
    by (simp add: reads_as_def schedule_wf_iff spells.star spells.single)
  with validated_schedule_runs_when_all_fields_match [of "''0 2 * * 1,5''"] show ?thesis
    by (auto simp: civil_fields_def)
qed

text \<open>
  C24. Round trip. Printing five in-bounds fields and joining them with spaces gives a schedule
  that \<open>ParseSchedule\<close> accepts and that \<open>IsTimeToRun\<close> reads back as exactly those fields.
\<close>

theorem printed_schedule_round_trip:
  assumes "schedule_wf fs"
  shows "ParseSchedule (show_schedule fs) = Inr \<lparr>schedule = show_schedule fs\<rparr> \<and>
    IsTimeToRun now (show_schedule fs) = Inr (list_all2 denotes fs (civil_fields now))"
proof -
  from assms obtain a b c d e where fs: "fs = [a, b, c, d, e]"
    and wf: "in_bounds 0 59 a" "in_bounds 0 23 b" "in_bounds 1 31 c" "in_bounds 1 12 d" "in_bounds 0 6 e"
    by (auto simp: schedule_wf_iff)
  have "plain p \<and> p \<noteq> []" if "p \<in> set (map show_field fs)" for p
    using that wf show_field_plain fs by auto
  then have fields: "go_fields (show_schedule fs) = map show_field fs"
    unfolding show_schedule_def by (rule go_fields_join)
  have nonempty: "show_schedule fs \<noteq> ''''"
    using wf(1) show_field_plain(2) fs by (simp add: show_schedule_def)
  note ok = show_field_roundtrip(1)
  have "validate_fields cron_fields (map show_field fs) = Inr ()"
    using ok [OF wf(1)] ok [OF wf(2)] ok [OF wf(3)] ok [OF wf(4)] ok [OF wf(5)] fs
    by (simp add: validate_fields_5)
  then have "ParseSchedule (show_schedule fs) = Inr \<lparr>schedule = show_schedule fs\<rparr>"
    using nonempty fields fs by (simp add: ParseSchedule_def ValidateSchedule_def)
  moreover
  note means = show_field_roundtrip(2)
  have "IsTimeToRun now (show_schedule fs) = Inr (list_all2 denotes fs (civil_fields now))"
    using means [OF wf(1)] means [OF wf(2)] means [OF wf(3)] means [OF wf(4)] means [OF wf(5)]
      fields fs IsTimeToRun_5 [OF nonempty] by (simp add: civil_fields_def)
  ultimately show ?thesis by simp
qed

theorem printed_schedule_round_trip_witness:
  "schedule_wf [Values [0, 30], Range 9 17, AnyValue, AnyValue, Range 1 5] \<and>
   ParseSchedule (show_schedule [Values [0, 30], Range 9 17, AnyValue, AnyValue, Range 1 5]) =
     Inr \<lparr>schedule = ''0,30 9-17 * * 1-5''\<rparr>"
proof -
  have wf: "schedule_wf [Values [0, 30], Range 9 17, AnyValue, AnyValue, Range 1 5]"
    by (simp add: schedule_wf_iff)
  have "show_schedule [Values [0, 30], Range 9 17, AnyValue, AnyValue, Range 1 5] = ''0,30 9-17 * * 1-5''"
    by code_simp
  then show ?thesis using wf printed_schedule_round_trip [OF wf] by simp
qed

text \<open>
  The doc comment of \<open>Schedule.Next\<close> promises the next time that matches the schedule.
  There are two schedules that parse, that no time matches both of, and for which \<open>Next\<close>
  gives the same time from every starting point: \<open>Next\<close> does not depend on the schedule.
\<close>

theorem next_ignores_the_schedule:
  "\<exists>a b. ParseSchedule ''0 * * * *'' = Inr a \<and> ParseSchedule ''30 * * * *'' = Inr b \<and>
     (\<forall>t. Next a t = Next b t) \<and>
     (\<forall>now. \<not> (IsTimeToRun now ''0 * * * *'' = Inr True \<and> IsTimeToRun now ''30 * * * *'' = Inr True))"
proof -
  have p: "ParseSchedule ''0 * * * *'' = Inr \<lparr>schedule = ''0 * * * *''\<rparr>"
    "ParseSchedule ''30 * * * *'' = Inr \<lparr>schedule = ''30 * * * *''\<rparr>"
    by code_simp+
  have f: "go_fields ''0 * * * *'' = [''0'', ''*'', ''*'', ''*'', ''*'']"
    "go_fields ''30 * * * *'' = [''30'', ''*'', ''*'', ''*'', ''*'']" by code_simp+
  have at: "atoi ''0'' = Some 0" "atoi ''30'' = Some 30" by code_simp+
  have "\<not> (IsTimeToRun now ''0 * * * *'' = Inr True \<and> IsTimeToRun now ''30 * * * *'' = Inr True)" for now
    using at by (auto simp: IsTimeToRun_5 [OF _ f(1)] IsTimeToRun_5 [OF _ f(2)] matchesField_def go_contains_def)
  then show ?thesis using p by (simp add: Next_def)
qed

end
