(* ===== verification/ApiTypes.thy ===== *)
theory ApiTypes
  imports GoStd
begin

text \<open>
  The data of the system: the API types of \<open>api/v1alpha1\<close> (Order, Ticket, Quota) and the
  fields the program uses of the Kubernetes types Pod, Namespace, ObjectMeta and
  LabelSelector. A pointer field is an \<open>option\<close>, a Go map a \<open>gomap\<close>, an \<open>int32\<close> a
  \<open>32 word\<close>, a \<open>metav1.Time\<close> an instant in nanoseconds. The string enumerations are
  datatypes with a constructor for the empty string and one for any other text.

  Two kinds of third-party values are kept abstract. \<open>resource.Quantity\<close> is the type
  variable \<open>'q\<close>; its operations are the record \<open>quantity_ops\<close>, a parameter of every
  definition that uses them. Values the program only passes on (affinities, tolerations,
  topology spread constraints, selector requirements) carry an uninterpreted payload.
\<close>

section \<open>Kubernetes types\<close>

type_synonym time = int
type_synonym labels = "(string, string) gomap"

datatype affinity = AffinityTerm string
datatype toleration = TolerationTerm string
datatype topology_spread_constraint = SpreadTerm string
datatype label_selector_requirement = RequirementTerm string

record owner_reference =
  owner_kind :: string
  owner_name :: string
  owner_uid :: string
  owner_controller :: bool

record object_meta =
  Name :: string
  Namespace :: string
  UID :: string
  ResourceVersion :: string
  Generation :: int64
  DeletionTimestamp :: "time option"
  Labels :: labels
  Annotations :: labels
  Finalizers :: "string list"
  OwnerReferences :: "owner_reference list"

definition empty_meta :: object_meta where
  "empty_meta = \<lparr>Name = '''', Namespace = '''', UID = '''', ResourceVersion = '''', Generation = 0,
     DeletionTimestamp = None, Labels = None, Annotations = None, Finalizers = [], OwnerReferences = []\<rparr>"

record label_selector =
  MatchLabels :: labels
  MatchExpressions :: "label_selector_requirement list"

datatype condition_status = ConditionTrue | ConditionFalse | ConditionUnknown

text \<open>\<open>resource.Quantity\<close>: the operations the program calls, for quantities \<open>'q\<close>.\<close>

datatype quantity_format = DecimalSI | BinarySI | DecimalExponent

record 'q quantity_ops =
  q_zero :: 'q
  q_add :: "'q \<Rightarrow> 'q \<Rightarrow> 'q"
  q_sub :: "'q \<Rightarrow> 'q \<Rightarrow> 'q"
  q_cmp :: "'q \<Rightarrow> 'q \<Rightarrow> int"
  q_equal :: "'q \<Rightarrow> 'q \<Rightarrow> bool"
  q_sign :: "'q \<Rightarrow> int"
  q_is_zero :: "'q \<Rightarrow> bool"
  q_value :: "'q \<Rightarrow> int64"
  q_set :: "'q \<Rightarrow> int64 \<Rightarrow> 'q"
  q_format :: "'q \<Rightarrow> quantity_format"
  q_new :: "int64 \<Rightarrow> quantity_format \<Rightarrow> 'q"
  q_must_parse :: "string \<Rightarrow> 'q"
  q_show :: "'q \<Rightarrow> string"
  q_show_list :: "(string, 'q) gomap \<Rightarrow> string"

type_synonym 'q resource_list = "(string, 'q) gomap"

record 'q resource_requirements =
  Requests :: "'q resource_list"
  Limits :: "'q resource_list"

section \<open>Tickets\<close>

datatype ticket_phase =
    NoPhase
  | TicketPending
  | TicketReady
  | TicketClaimed
  | TicketExpired
  | OtherPhase string

fun phase_string :: "ticket_phase \<Rightarrow> string" where
  "phase_string NoPhase = ''''"
| "phase_string TicketPending = ''Pending''"
| "phase_string TicketReady = ''Ready''"
| "phase_string TicketClaimed = ''Claimed''"
| "phase_string TicketExpired = ''Expired''"
| "phase_string (OtherPhase s) = s"

datatype cleanup_policy = NoCleanup | DeleteCleanup | RetainCleanup | OtherCleanup string

record ticket_lifecycle =
  TTLSecondsAfterFinished :: "int32 option"
  CleanupPolicy :: cleanup_policy

record window_spec =
  StartTime :: "string option"
  TimeZone :: "string option"
  Duration :: string

text \<open>\<open>TicketSpec\<close> and \<open>TicketTemplateSpec\<close> have the same ten fields.\<close>

record 'q ticket_spec =
  Lifecycle :: "ticket_lifecycle option"
  Window :: "window_spec option"
  SchedulerName :: "string option"
  PriorityClassName :: "string option"
  Resources :: "'q resource_requirements option"
  NodeName :: "string option"
  NodeSelector :: labels
  Affinity :: "affinity option"
  Tolerations :: "toleration list"
  TopologySpreadConstraints :: "topology_spread_constraint list"

datatype ticket_condition_type = TicketReadyCondition | TicketGuardianReady | TicketExpiring | OtherTicketCondition string

text \<open>\<open>OrderCondition\<close>, \<open>TicketCondition\<close> and \<open>QuotaCondition\<close> differ in the type of \<open>Type\<close> only.\<close>

record 'ty condition =
  CondType :: 'ty
  CondStatus :: condition_status
  LastTransitionTime :: "time option"
  CondReason :: "string option"
  CondMessage :: "string option"

record ticket_status =
  Phase :: ticket_phase
  ActivationTime :: "time option"
  ExpirationTime :: "time option"
  ClaimedTime :: "time option"
  UtilizationRate :: "string option"
  BoundNode :: "string option"
  GuardianPod :: "string option"
  ClaimedPod :: "string option"
  TicketMessage :: "string option"
  TicketReason :: "string option"
  TicketObservedGeneration :: "int64 option"
  TicketConditions :: "ticket_condition_type condition list"

definition empty_ticket_status :: ticket_status where
  "empty_ticket_status = \<lparr>Phase = NoPhase, ActivationTime = None, ExpirationTime = None,
     ClaimedTime = None, UtilizationRate = None, BoundNode = None, GuardianPod = None,
     ClaimedPod = None, TicketMessage = None, TicketReason = None, TicketObservedGeneration = None,
     TicketConditions = []\<rparr>"

record 'q ticket =
  ticket_meta :: object_meta
  ticket_spec :: "'q ticket_spec"
  ticket_status :: ticket_status

section \<open>Orders\<close>

datatype refresh_policy = NoRefreshPolicy | AlwaysRefresh | OnClaimRefresh | NeverRefresh | OtherRefresh string

record 'q ticket_template =
  template_meta :: object_meta
  template_spec :: "'q ticket_spec"

record 'q order_spec =
  Paused :: "bool option"
  Replicas :: "int32 option"
  RefreshPolicy :: refresh_policy
  MinReadySeconds :: "int32 option"
  Selector :: "label_selector option"
  Template :: "'q ticket_template"

datatype order_condition_type = OrderReady | OrderProgressing | OrderFailure | OtherOrderCondition string

record order_status =
  StatusReplicas :: "int32 option"
  AvailableReplicas :: "int32 option"
  UnavailableReplicas :: "int32 option"
  TerminalReplicas :: "int32 option"
  UpdatedReplicas :: "int32 option"
  OrderObservedGeneration :: "int64 option"
  CollisionCount :: "int32 option"
  OrderConditions :: "order_condition_type condition list"

record 'q order =
  order_meta :: object_meta
  order_spec :: "'q order_spec"
  order_status :: order_status

section \<open>Quotas\<close>

datatype quota_scope_type =
    NoScope
  | ClusterScope
  | NamespaceSelectorScope
  | NamespaceListScope
  | ObjectSelectorScope
  | OtherScope string

fun scope_string :: "quota_scope_type \<Rightarrow> string" where
  "scope_string NoScope = ''''"
| "scope_string ClusterScope = ''Cluster''"
| "scope_string NamespaceSelectorScope = ''NamespaceSelector''"
| "scope_string NamespaceListScope = ''NamespaceList''"
| "scope_string ObjectSelectorScope = ''ObjectSelector''"
| "scope_string (OtherScope s) = s"

record quota_scope =
  ScopeType :: quota_scope_type
  NamespaceSelector :: "label_selector option"
  Namespaces :: "string list"
  ObjectSelector :: "label_selector option"

record time_window =
  WindowName :: string
  WindowSchedule :: string
  Multiplier :: string

record 'q quota_allocation =
  AllocNamespace :: string
  AllocLimits :: "'q resource_list"

record 'q quota_spec =
  Scope :: quota_scope
  Hard :: "'q resource_list"
  TimeWindows :: "time_window list"
  Allocation :: "'q quota_allocation list"

datatype quota_condition_type = QuotaReady | QuotaEnforced | QuotaExceeded | OtherQuotaCondition string

record 'q quota_status =
  StatusHard :: "'q resource_list"
  Used :: "'q resource_list"
  ActiveTimeWindow :: "string option"
  QuotaObservedGeneration :: "int64 option"
  QuotaConditions :: "quota_condition_type condition list"

record 'q quota =
  quota_meta :: object_meta
  quota_spec :: "'q quota_spec"
  quota_status :: "'q quota_status"

section \<open>Pods and namespaces\<close>

datatype pod_phase = PodPhaseUnset | PodPending | PodRunning | PodSucceeded | PodFailed | PodUnknown

datatype restart_policy = RestartUnset | RestartPolicyAlways | RestartPolicyOnFailure | RestartPolicyNever

record 'q container =
  ContainerName :: string
  Image :: string
  ContainerResources :: "'q resource_requirements"

record 'q pod_spec =
  RestartPolicy :: restart_policy
  Containers :: "'q container list"
  PodNodeName :: string
  PodSchedulerName :: string
  PodPriorityClassName :: string
  PodNodeSelector :: labels
  PodAffinity :: "affinity option"
  PodTolerations :: "toleration list"
  PodTopologySpreadConstraints :: "topology_spread_constraint list"

record 'q pod =
  pod_meta :: object_meta
  pod_spec :: "'q pod_spec"
  pod_phase :: pod_phase

record namespace =
  namespace_meta :: object_meta

section \<open>Condition lists\<close>

text \<open>
  The three status updates of the controllers share one piece of code: find the first
  condition of a type; append a fresh one when there is none, and overwrite it in place
  when its status differs.
\<close>

fun find_condition :: "'ty \<Rightarrow> 'ty condition list \<Rightarrow> 'ty condition option" where
  "find_condition ty [] = None"
| "find_condition ty (c # cs) = (if CondType c = ty then Some c else find_condition ty cs)"

fun write_condition :: "'ty \<Rightarrow> ('ty condition \<Rightarrow> 'ty condition) \<Rightarrow> 'ty condition list \<Rightarrow> 'ty condition list" where
  "write_condition ty f [] = []"
| "write_condition ty f (c # cs) = (if CondType c = ty then f c # cs else c # write_condition ty f cs)"

definition upsert_condition ::
  "'ty \<Rightarrow> condition_status \<Rightarrow> time \<Rightarrow> string \<Rightarrow> string \<Rightarrow> 'ty condition list \<Rightarrow> 'ty condition list" where
  "upsert_condition ty st now reason message cs =
     (case find_condition ty cs of
        None \<Rightarrow>
          cs @ [\<lparr>CondType = ty, CondStatus = st, LastTransitionTime = Some now,
                 CondReason = Some reason, CondMessage = Some message\<rparr>]
      | Some existing \<Rightarrow>
          if CondStatus existing \<noteq> st then
            write_condition ty
              (\<lambda>c. c\<lparr>CondStatus := st, LastTransitionTime := Some now,
                     CondReason := Some reason, CondMessage := Some message\<rparr>) cs
          else cs)"

definition conditions_wf :: "'ty condition list \<Rightarrow> bool" where
  "conditions_wf cs \<longleftrightarrow> distinct (map CondType cs)"

lemma find_condition_Some:
  "find_condition ty cs = Some c \<Longrightarrow> c \<in> set cs \<and> CondType c = ty"
  by (induction cs) (auto split: if_splits)

lemma find_condition_None: "find_condition ty cs = None \<longleftrightarrow> ty \<notin> CondType ` set cs"
  by (induction cs) auto

lemma find_condition_append:
  "find_condition ty (cs @ ds) =
     (case find_condition ty cs of None \<Rightarrow> find_condition ty ds | Some c \<Rightarrow> Some c)"
  by (induction cs) auto

lemma write_condition_types:
  "(\<And>c. CondType (f c) = CondType c) \<Longrightarrow> map CondType (write_condition ty f cs) = map CondType cs"
  by (induction cs) auto

lemma find_write_condition:
  "(\<And>c. CondType (f c) = CondType c) \<Longrightarrow>
   find_condition ty' (write_condition ty f cs) =
     (if ty' = ty then map_option f (find_condition ty cs) else find_condition ty' cs)"
  by (induction cs) auto

text \<open>A status update keeps the condition types distinct.\<close>

lemma upsert_condition_wf [intro]:
  "conditions_wf cs \<Longrightarrow> conditions_wf (upsert_condition ty st now reason message cs)"
  by (auto simp: conditions_wf_def upsert_condition_def write_condition_types find_condition_None
      split: option.split)

lemma find_upsert_condition_other:
  "ty' \<noteq> ty \<Longrightarrow> find_condition ty' (upsert_condition ty st now reason message cs) = find_condition ty' cs"
  by (auto simp: upsert_condition_def find_condition_append find_write_condition split: option.split)

text \<open>
  Afterwards the condition of that type has the wanted status; its reason and message are
  the new ones only when there was none or its status changed.
\<close>

lemma find_upsert_condition:
  "find_condition ty (upsert_condition ty st now reason message cs) =
     (case find_condition ty cs of
        Some c \<Rightarrow>
          if CondStatus c = st then Some c
          else Some (c\<lparr>CondStatus := st, LastTransitionTime := Some now,
                       CondReason := Some reason, CondMessage := Some message\<rparr>)
      | None \<Rightarrow> Some \<lparr>CondType = ty, CondStatus = st, LastTransitionTime = Some now,
                       CondReason = Some reason, CondMessage = Some message\<rparr>)"
  by (auto simp: upsert_condition_def find_condition_append find_write_condition
      dest: find_condition_Some split: option.split)

lemma upsert_condition_status:
  "\<exists>c. find_condition ty (upsert_condition ty st now reason message cs) = Some c \<and> CondStatus c = st"
  by (simp add: find_upsert_condition split: option.split)

end
