(* ===== verification/GoTime.thy ===== *)
theory GoTime
  imports GoStd
begin

text \<open>
  \<open>time.ParseDuration\<close> of Go's standard library, as the language's \<open>time\<close> package defines it:
  an optional sign, then a sequence of decimal numbers, each with an optional fraction and
  a unit. Durations are nanoseconds in an \<open>int64\<close>. A fraction is converted through
  \<open>float64\<close>; a positive \<open>float64\<close> is a pair \<open>(m, e)\<close> for \<open>m * 2 ^ e\<close>, and every operation rounds
  to 53 bits, ties to even. The exponent is not bounded: where Go would underflow or
  overflow, the product is below one nanosecond either way.
\<close>

section \<open>Rounded arithmetic\<close>

type_synonym float64 = "int \<times> int"

function bit_len :: "int \<Rightarrow> int" where
  "bit_len n = (if n \<le> 0 then 0 else bit_len (n div 2) + 1)"
  by pat_completeness auto
termination by (relation "measure nat") auto

declare bit_len.simps [simp del]

text \<open>The 53-bit number nearest to \<open>p / q\<close>.\<close>

definition scaled :: "int \<Rightarrow> int \<Rightarrow> int \<Rightarrow> int \<times> int" where
  "scaled p q k = (if k \<ge> 0 then (p, q * 2 ^ nat k) else (p * 2 ^ nat (- k), q))"

definition round_ratio :: "int \<Rightarrow> int \<Rightarrow> float64" where
  "round_ratio p q =
     (if p = 0 then (0, 0)
      else
        let k0 = bit_len p - bit_len q - 53;
            k = (case scaled p q k0 of (a, b) \<Rightarrow> if 2 ^ 53 * b \<le> a then k0 + 1 else k0)
        in case scaled p q k of (a, b) \<Rightarrow>
             let m = a div b; r = a mod b in
             (if 2 * r > b \<or> (2 * r = b \<and> odd m) then m + 1 else m, k))"

definition float_of_int :: "int \<Rightarrow> float64" where
  "float_of_int n = round_ratio n 1"

definition float_mult :: "float64 \<Rightarrow> float64 \<Rightarrow> float64" where
  "float_mult x y = (case round_ratio (fst x * fst y) 1 of (m, e) \<Rightarrow> (m, e + snd x + snd y))"

definition float_div :: "float64 \<Rightarrow> float64 \<Rightarrow> float64" where
  "float_div x y = (case round_ratio (fst x) (fst y) of (m, e) \<Rightarrow> (m, e + snd x - snd y))"

definition float_trunc :: "float64 \<Rightarrow> int" where
  "float_trunc x = (if snd x \<ge> 0 then fst x * 2 ^ nat (snd x) else fst x div 2 ^ nat (- snd x))"

section \<open>Scanning\<close>

text \<open>\<open>leadingInt\<close>: the value and the rest, or \<open>None\<close> on overflow.\<close>

fun leadingInt :: "int \<Rightarrow> string \<Rightarrow> (int \<times> string) option" where
  "leadingInt x [] = Some (x, [])"
| "leadingInt x (c # s) =
     (if \<not> is_digit c then Some (x, c # s)
      else if x > 2 ^ 63 div 10 then None
      else let y = x * 10 + int (digit_val c) in if y > 2 ^ 63 then None else leadingInt y s)"

text \<open>\<open>leadingFraction\<close>: value, scale and rest; digits after an overflow are skipped.\<close>

fun leadingFraction :: "int \<Rightarrow> float64 \<Rightarrow> bool \<Rightarrow> string \<Rightarrow> int \<times> float64 \<times> string" where
  "leadingFraction x scale overflow [] = (x, scale, [])"
| "leadingFraction x scale overflow (c # s) =
     (if \<not> is_digit c then (x, scale, c # s)
      else if overflow then leadingFraction x scale True s
      else if x > (2 ^ 63 - 1) div 10 then leadingFraction x scale True s
      else let y = x * 10 + int (digit_val c) in
           if y > 2 ^ 63 then leadingFraction x scale True s
           else leadingFraction y (float_mult scale (10, 0)) False s)"

definition unit_map :: "(string \<times> int) list" where
  "unit_map = [(''ns'', 1), (''us'', 10 ^ 3), ([CHR 0xC2, CHR 0xB5, CHR ''s''], 10 ^ 3),
     ([CHR 0xCE, CHR 0xBC, CHR ''s''], 10 ^ 3), (''ms'', 10 ^ 6), (''s'', 10 ^ 9),
     (''m'', 60 * 10 ^ 9), (''h'', 3600 * 10 ^ 9)]"

text \<open>The \<open>quote\<close> of the error messages.\<close>

definition hex_digit :: "nat \<Rightarrow> char" where
  "hex_digit n = ''0123456789abcdef'' ! n"

definition quote_char :: "char \<Rightarrow> string" where
  "quote_char c =
     (let n = of_char c :: nat in
      if n \<ge> 128 \<or> n < 32 then CHR 0x5C # CHR ''x'' # [hex_digit (n div 16), hex_digit (n mod 16)]
      else if n = 34 \<or> n = 92 then [CHR 0x5C, c] else [c])"

definition go_quote :: "string \<Rightarrow> string" where
  "go_quote s = CHR 0x22 # concat (map quote_char s) @ [CHR 0x22]"

definition invalid_duration :: "string \<Rightarrow> go_error" where
  "invalid_duration s = Errorf (''time: invalid duration '' @ go_quote s)"

section \<open>The parser\<close>

text \<open>
  One round of the loop: a number, an optional fraction and a unit. The result is the
  nanoseconds and the rest of the text.
\<close>

definition duration_unit_end :: "char \<Rightarrow> bool" where
  "duration_unit_end c \<longleftrightarrow> c = CHR ''.'' \<or> is_digit c"

definition parse_fraction :: "string \<Rightarrow> int \<times> float64 \<times> bool \<times> string" where
  "parse_fraction s =
     (case s of
        [] \<Rightarrow> (0, (1, 0), False, [])
      | c # t \<Rightarrow>
          if c = CHR ''.'' then
            (case leadingFraction 0 (1, 0) False t of (f, scale, rest) \<Rightarrow> (f, scale, rest \<noteq> t, rest))
          else (0, (1, 0), False, s))"

definition parse_component :: "string \<Rightarrow> string \<Rightarrow> go_error + (int \<times> string)" where
  "parse_component orig s =
     (if s = [] \<or> \<not> duration_unit_end (hd s) then Inl (invalid_duration orig)
      else case leadingInt 0 s of
        None \<Rightarrow> Inl (invalid_duration orig)
      | Some (v, s1) \<Rightarrow>
          (case parse_fraction s1 of (f, scale, post, s2) \<Rightarrow>
             if s1 = s \<and> \<not> post then Inl (invalid_duration orig)
             else
               let u = takeWhile (\<lambda>c. \<not> duration_unit_end c) s2;
                   rest = dropWhile (\<lambda>c. \<not> duration_unit_end c) s2 in
               if u = [] then Inl (Errorf (''time: missing unit in duration '' @ go_quote orig))
               else case map_of unit_map u of
                 None \<Rightarrow> Inl (Errorf (''time: unknown unit '' @ go_quote u @ '' in duration '' @ go_quote orig))
               | Some k \<Rightarrow>
                   if v > 2 ^ 63 div k then Inl (invalid_duration orig)
                   else
                     let w = v * k +
                       (if f > 0 then float_trunc (float_mult (float_of_int f) (float_div (float_of_int k) scale)) else 0)
                     in if f > 0 \<and> w > 2 ^ 63 then Inl (invalid_duration orig) else Inr (w, rest)))"

lemma leadingInt_length: "leadingInt x s = Some (v, r) \<Longrightarrow> length r \<le> length s"
  by (induction x s rule: leadingInt.induct) (auto simp: Let_def split: if_splits)

lemma leadingFraction_length: "leadingFraction x sc ov s = (f, sc', r) \<Longrightarrow> length r \<le> length s"
  by (induction x sc ov s rule: leadingFraction.induct) (fastforce simp: Let_def split: if_splits)+

lemma parse_fraction_length: "parse_fraction s = (f, sc, post, r) \<Longrightarrow> length r \<le> length s"
  by (cases s) (auto simp: parse_fraction_def split: prod.splits if_splits dest: leadingFraction_length)

text \<open>Every round consumes its unit, so the loop ends.\<close>

lemma takeWhile_dropWhile_shorter: "takeWhile P xs \<noteq> [] \<Longrightarrow> length (dropWhile P xs) < length xs"
  by (cases xs) (auto simp: length_dropWhile_le le_imp_less_Suc split: if_splits)

lemma parse_component_shorter:
  assumes "parse_component orig s = Inr (w, r)"
  shows "length r < length s"
proof -
  from assms obtain v s1 f sc post s2
    where "leadingInt 0 s = Some (v, s1)" "parse_fraction s1 = (f, sc, post, s2)"
      and u: "takeWhile (\<lambda>c. \<not> duration_unit_end c) s2 \<noteq> []" "r = dropWhile (\<lambda>c. \<not> duration_unit_end c) s2"
    by (auto simp: parse_component_def Let_def split: if_splits option.splits prod.splits)
  then have "length s2 \<le> length s"
    using leadingInt_length parse_fraction_length le_trans by blast
  with takeWhile_dropWhile_shorter [OF u(1)] u(2) show ?thesis by simp
qed

function parse_components :: "string \<Rightarrow> int \<Rightarrow> string \<Rightarrow> go_error + int" where
  "parse_components orig d s =
     (if s = [] then Inr d
      else case parse_component orig s of
        Inl e \<Rightarrow> Inl e
      | Inr (w, r) \<Rightarrow> if d + w > 2 ^ 63 then Inl (invalid_duration orig) else parse_components orig (d + w) r)"
  by pat_completeness auto
termination
  by (relation "measure (\<lambda>(orig, d, s). length s)") (auto dest: parse_component_shorter)

declare parse_components.simps [simp del]

definition ParseDuration :: "string \<Rightarrow> go_error + int" where
  "ParseDuration orig =
     (let neg = (orig \<noteq> [] \<and> hd orig = CHR ''-'');
          s = (if orig \<noteq> [] \<and> (hd orig = CHR ''-'' \<or> hd orig = CHR ''+'') then tl orig else orig) in
      if s = ''0'' then Inr 0
      else if s = [] then Inl (invalid_duration orig)
      else case parse_components orig 0 s of
        Inl e \<Rightarrow> Inl e
      | Inr d \<Rightarrow> if neg then Inr (- d)
                 else if d > 2 ^ 63 - 1 then Inl (invalid_duration orig) else Inr d)"

text \<open>A whole number of some unit is read exactly, while it fits.\<close>

lemma foldl_digits_mono: "x \<le> foldl (\<lambda>n c. 10 * n + digit_val c) x ds"
proof (induction ds arbitrary: x)
  case (Cons d ds)
  have "x \<le> 10 * x + digit_val d" by simp
  also have "\<dots> \<le> foldl (\<lambda>n c. 10 * n + digit_val c) (10 * x + digit_val d) ds" by (rule Cons)
  finally show ?case by simp
qed simp

lemma leadingInt_digits:
  assumes "list_all is_digit ds" "u = [] \<or> \<not> is_digit (hd u)"
    and "foldl (\<lambda>n c. 10 * n + digit_val c) x ds \<le> 2 ^ 63"
  shows "leadingInt (int x) (ds @ u) = Some (int (foldl (\<lambda>n c. 10 * n + digit_val c) x ds), u)"
  using assms
proof (induction ds arbitrary: x)
  case Nil
  then show ?case by (cases u) auto
next
  case (Cons c ds)
  from foldl_digits_mono [of "10 * x + digit_val c" ds] Cons.prems(3)
  have *: "10 * x + digit_val c \<le> 2 ^ 63" by simp
  then have "x \<le> 2 ^ 63 div 10" by simp
  with * have small: "\<not> int x > 2 ^ 63 div 10" "\<not> int x * 10 + int (digit_val c) > 2 ^ 63" by simp_all
  have "int x * 10 + int (digit_val c) = int (10 * x + digit_val c)" by simp
  with small Cons show ?case by (simp only: leadingInt.simps append_Cons Let_def list.pred_inject if_False
      not_True_eq_False simp_thms foldl_Cons)
qed

lemma parse_component_whole:
  assumes n: "int n * k \<le> 2 ^ 63" "0 < k" and u: "map_of unit_map u = Some k" "u \<noteq> []" "list_all (\<lambda>c. \<not> duration_unit_end c) u"
  shows "parse_component orig (show_nat n @ u) = Inr (int n * k, [])"
proof -
  obtain c cs where sh: "show_nat n = c # cs" by (cases "show_nat n") simp_all
  have digits: "list_all is_digit (show_nat n)" using show_nat_digits by (auto simp: list_all_iff)
  have nk: "int n \<le> 2 ^ 63 div k" using n using zdiv_mono1 [of "int n * k" "2 ^ 63" k] by simp
  have "int n * 1 \<le> int n * k" using n(2) by (intro mult_left_mono) auto
  then have "int n \<le> 2 ^ 63" using n(1) by linarith
  then have n': "n \<le> 2 ^ 63" by simp
  have head: "\<not> is_digit (hd u)" "hd u \<noteq> CHR ''.''"
    using u(2,3) by (cases u; simp add: duration_unit_end_def)+
  have int: "leadingInt 0 (show_nat n @ u) = Some (int n, u)"
    using leadingInt_digits [OF digits, of u 0] head(1) digits_val_show_nat [of n] n'
    by (simp add: digits_val_def)
  have frac: "parse_fraction u = (0, (1, 0), False, u)"
    using head(2) u(2) by (cases u) (auto simp: parse_fraction_def)
  have unit: "takeWhile (\<lambda>c. \<not> duration_unit_end c) u = u" "dropWhile (\<lambda>c. \<not> duration_unit_end c) u = []"
    using u(3) by (auto simp: list_all_iff)
  have "duration_unit_end c" using digits sh by (simp add: duration_unit_end_def)
  moreover have "u \<noteq> c # cs @ u" by (metis append_Cons append_self_conv2 list.distinct(1))
  ultimately show ?thesis
    using sh nk u(2)
    unfolding parse_component_def int frac option.case prod.case Let_def unit u(1)
    by (simp add: not_less)
qed

lemma ParseDuration_whole:
  assumes n: "int n * k < 2 ^ 63" "0 < k" and u: "map_of unit_map u = Some k" "u \<noteq> []" "list_all (\<lambda>c. \<not> duration_unit_end c) u"
  shows "ParseDuration (show_nat n @ u) = Inr (int n * k)"
proof -
  obtain c cs where sh: "show_nat n = c # cs" by (cases "show_nat n") simp_all
  then have "is_digit c" using show_nat_digits [of c n] by simp
  then have c: "c \<noteq> CHR ''-''" "c \<noteq> CHR ''+''" by simp_all
  have "parse_components orig 0 (show_nat n @ u) = Inr (int n * k)" for orig
    using parse_component_whole [OF _ n(2) u, of n orig] n(1) sh
    by (simp add: parse_components.simps)
  then show ?thesis
    using c sh n(1) u(2) by (simp add: ParseDuration_def Let_def)
qed

end
