(* ===== verification/GoFloat.thy ===== *)
theory GoFloat
  imports GoTime
begin

text \<open>
  \<open>strconv.ParseFloat(s, 64)\<close> and the \<open>float64\<close> arithmetic of the time-window multipliers.
  A finite \<open>float64\<close> is a sign and a magnitude \<open>(m, e)\<close> for \<open>m * 2 ^ e\<close>; results are rounded to
  53 bits, ties to even, and to a multiple of \<open>2 ^ -1074\<close> below the normal range. The program
  drops the error of \<open>ParseFloat\<close>, so a failed parse is \<open>None\<close>.
\<close>

section \<open>Rounding with the bounds of the format\<close>

definition round_at :: "int \<Rightarrow> int \<Rightarrow> int \<Rightarrow> float64" where
  "round_at p q k =
     (case scaled p q k of (a, b) \<Rightarrow>
        let m = a div b; r = a mod b in
        (if 2 * r > b \<or> (2 * r = b \<and> odd m) then m + 1 else m, k))"

definition round64 :: "int \<Rightarrow> int \<Rightarrow> float64" where
  "round64 p q = (let x = round_ratio p q in if snd x < - 1074 then round_at p q (- 1074) else x)"

text \<open>\<open>None\<close> is an overflow: the magnitude is \<open>2 ^ 1024\<close> or more.\<close>

definition finite_float :: "float64 \<Rightarrow> float64 option" where
  "finite_float x = (if 1024 \<le> bit_len (fst x) - 1 + snd x then None else Some x)"

datatype go_float = Finite bool float64 | Infinite bool | NotANumber

section \<open>Scanning\<close>

definition lower :: "char \<Rightarrow> char" where
  "lower c = (if 65 \<le> (of_char c :: nat) \<and> (of_char c :: nat) \<le> 90 then char_of ((of_char c :: nat) + 32) else c)"

definition is_hex :: "char \<Rightarrow> bool" where
  "is_hex c \<longleftrightarrow> is_digit c \<or> lower c \<in> set ''abcdef''"

definition hex_val :: "char \<Rightarrow> nat" where
  "hex_val c = (if is_digit c then digit_val c else of_char (lower c) - 87)"

text \<open>The sign: whether it is a minus, and the rest.\<close>

definition split_sign :: "string \<Rightarrow> bool \<times> string" where
  "split_sign s =
     (case s of
        [] \<Rightarrow> (False, [])
      | c # t \<Rightarrow> if c = CHR ''-'' then (True, t) else if c = CHR ''+'' then (False, t) else (False, s))"

text \<open>\<open>special\<close>: infinities and NaN, of which all of the text is used.\<close>

definition special :: "string \<Rightarrow> go_float option" where
  "special s =
     (case split_sign s of (neg, t) \<Rightarrow>
        if map lower t \<in> {''inf'', ''infinity''} then Some (Infinite neg)
        else if map lower s = ''nan'' then Some NotANumber
        else None)"

text \<open>\<open>underscoreOK\<close>, over the class of the last character: a digit, an underscore or another.\<close>

datatype saw = SawStart | SawDigit | SawUnderscore | SawOther

fun underscores_ok :: "bool \<Rightarrow> saw \<Rightarrow> string \<Rightarrow> bool" where
  "underscores_ok hex sw [] = (sw \<noteq> SawUnderscore)"
| "underscores_ok hex sw (c # s) =
     (if is_digit c \<or> (hex \<and> is_hex c) then underscores_ok hex SawDigit s
      else if c = CHR ''_'' then sw = SawDigit \<and> underscores_ok hex SawUnderscore s
      else sw \<noteq> SawUnderscore \<and> underscores_ok hex SawOther s)"

definition base_prefix :: "string \<Rightarrow> char option" where
  "base_prefix s =
     (case s of
        c # d # _ \<Rightarrow> if c = CHR ''0'' \<and> lower d \<in> set ''box'' then Some (lower d) else None
      | _ \<Rightarrow> None)"

definition underscoreOK :: "string \<Rightarrow> bool" where
  "underscoreOK s =
     (let t = snd (split_sign s) in
      case base_prefix t of
        None \<Rightarrow> underscores_ok False SawStart t
      | Some b \<Rightarrow> underscores_ok (b = CHR ''x'') SawDigit (drop 2 t))"

text \<open>
  The mantissa loop of \<open>readFloat\<close>: all digits with one point among them; the value of the
  digits, the number of digits after the point, whether there was a digit, and the rest.
\<close>

fun read_mantissa :: "bool \<Rightarrow> bool \<Rightarrow> int \<Rightarrow> nat \<Rightarrow> bool \<Rightarrow> string \<Rightarrow> int \<times> nat \<times> bool \<times> string" where
  "read_mantissa hex dot m frac digits [] = (m, frac, digits, [])"
| "read_mantissa hex dot m frac digits (c # s) =
     (if c = CHR ''_'' then read_mantissa hex dot m frac digits s
      else if c = CHR ''.'' then
        (if dot then (m, frac, digits, c # s) else read_mantissa hex True m frac digits s)
      else if is_digit c \<or> (hex \<and> is_hex c) then
        read_mantissa hex dot (m * (if hex then 16 else 10) + int (hex_val c))
          (if dot then frac + 1 else frac) True s
      else (m, frac, digits, c # s))"

text \<open>The digits of the exponent, which stops growing at 10000, and the rest.\<close>

fun read_exponent :: "int \<Rightarrow> string \<Rightarrow> int \<times> string" where
  "read_exponent e [] = (e, [])"
| "read_exponent e (c # s) =
     (if c = CHR ''_'' then read_exponent e s
      else if is_digit c then read_exponent (if e < 10000 then e * 10 + int (digit_val c) else e) s
      else (e, c # s))"

text \<open>The optional exponent after the mantissa, which a hexadecimal number must have.\<close>

definition exponent_part :: "bool \<Rightarrow> string \<Rightarrow> (int \<times> string) option" where
  "exponent_part hex s =
     (case s of
        c # t \<Rightarrow>
          if lower c = (if hex then CHR ''p'' else CHR ''e'') then
            (case split_sign t of (neg, u) \<Rightarrow>
               if u = [] \<or> \<not> is_digit (hd u) then None
               else (case read_exponent 0 u of (e, rest) \<Rightarrow> Some (if neg then - e else e, rest)))
          else if hex then None else Some (0, s)
      | [] \<Rightarrow> if hex then None else Some (0, s))"

text \<open>The magnitude of \<open>m * base ^ e\<close>, rounded.\<close>

definition scale10 :: "int \<Rightarrow> int \<Rightarrow> float64" where
  "scale10 m e = (if e \<ge> 0 then round64 (m * 10 ^ nat e) 1 else round64 m (10 ^ nat (- e)))"

definition scale2 :: "int \<Rightarrow> int \<Rightarrow> float64" where
  "scale2 m e = (if e \<ge> 0 then round64 (m * 2 ^ nat e) 1 else round64 m (2 ^ nat (- e)))"

definition parse_number :: "string \<Rightarrow> go_float option" where
  "parse_number s =
     (case split_sign s of (neg, t) \<Rightarrow>
        let hex = (base_prefix t = Some CHR ''x'' \<and> length t > 2) in
        case read_mantissa hex False 0 0 False (if hex then drop 2 t else t) of (m, frac, digits, u) \<Rightarrow>
          if \<not> digits then None
          else case exponent_part hex u of
            None \<Rightarrow> None
          | Some (e, rest) \<Rightarrow>
              if rest \<noteq> [] \<or> (CHR ''_'' \<in> set s \<and> \<not> underscoreOK s) then None
              else map_option (Finite neg)
                (finite_float (if hex then scale2 m (e - 4 * int frac) else scale10 m (e - int frac))))"

definition ParseFloat :: "string \<Rightarrow> go_float option" where
  "ParseFloat s = (case special s of Some f \<Rightarrow> Some f | None \<Rightarrow> parse_number s)"

section \<open>Arithmetic on non-negative numbers\<close>

definition is_positive :: "go_float \<Rightarrow> bool" where
  "is_positive f = (case f of Finite neg x \<Rightarrow> \<not> neg \<and> fst x > 0 | Infinite neg \<Rightarrow> \<not> neg | NotANumber \<Rightarrow> False)"

text \<open>
  \<open>int64(float64(n) * f)\<close> for positive \<open>n\<close> and \<open>f\<close>. The conversion of a value that does not
  fit is left to the implementation by the language: that value is the parameter \<open>ovf\<close>.
\<close>

definition scale_int :: "int64 \<Rightarrow> int \<Rightarrow> go_float \<Rightarrow> int64" where
  "scale_int ovf n f =
     (case f of
        Finite neg x \<Rightarrow>
          (let y = float_of_int n;
               p = fst y * fst x;
               e = snd y + snd x;
               z = float_trunc (if e \<ge> 0 then round64 (p * 2 ^ nat e) 1 else round64 p (2 ^ nat (- e))) in
           if z < 2 ^ 63 then of_int z else ovf)
      | _ \<Rightarrow> ovf)"

section \<open>Whole numbers are exact\<close>

lemma bit_len_0 [simp]: "n \<le> 0 \<Longrightarrow> bit_len n = 0"
  by (simp add: bit_len.simps)

lemma bit_len_pos: "0 < n \<Longrightarrow> bit_len n = bit_len (n div 2) + 1"
  by (simp add: bit_len.simps [of n])

lemma bit_len_nonneg: "0 \<le> bit_len n"
  by (induction n rule: bit_len.induct) (simp add: bit_len.simps)

lemma bit_len_bound: "n < 2 ^ k \<Longrightarrow> bit_len n \<le> int k"
proof (induction k arbitrary: n)
  case (Suc k)
  show ?case
  proof (cases "0 < n")
    case True
    have "n div 2 < 2 ^ k" using Suc.prems by simp
    with Suc.IH bit_len_pos [OF True] show ?thesis by fastforce
  qed simp
qed simp

lemma bit_len_shift: "0 < n \<Longrightarrow> bit_len (n * 2 ^ j) = bit_len n + int j"
proof (induction j)
  case (Suc j)
  have "n * 2 ^ Suc j div 2 = n * 2 ^ j" by simp
  with Suc bit_len_pos [of "n * 2 ^ Suc j"] show ?case by simp
qed simp

lemma round_ratio_exact:
  assumes "0 < s" "s < 2 ^ 53"
  obtains k where "round_ratio (s * 2 ^ j) (2 ^ j) = (s * 2 ^ nat (- k), k)" "- 53 \<le> k" "k \<le> 0"
proof -
  let ?k0 = "bit_len (s * 2 ^ j) - bit_len (2 ^ j) - 53"
  have "bit_len (2 ^ j) = int j + 1" using bit_len_shift [of 1 j] by (simp add: bit_len.simps [of 1])
  then have k0: "?k0 = bit_len s - 54" using bit_len_shift [OF assms(1)] by simp
  have "1 \<le> bit_len s" using bit_len_pos [OF assms(1)] bit_len_nonneg [of "s div 2"] by simp
  with bit_len_bound [OF assms(2)] have b: "- 53 \<le> ?k0" "?k0 < 0" unfolding k0 by simp_all
  have *: "(case scaled (s * 2 ^ j) (2 ^ j) k of (a, b) \<Rightarrow>
       let m = a div b; r = a mod b in (if 2 * r > b \<or> (2 * r = b \<and> odd m) then m + 1 else m, k)) = (s * 2 ^ nat (- k), k)"
    if "k \<le> 0" for k
  proof (cases "k = 0")
    case False
    have "s * 2 ^ j * 2 ^ nat (- k) div 2 ^ j = s * 2 ^ nat (- k)" "s * 2 ^ j * 2 ^ nat (- k) mod 2 ^ j = 0"
      by (simp_all add: mult.commute mult.left_commute)
    with False that show ?thesis by (simp add: scaled_def Let_def)
  qed (simp add: scaled_def Let_def)
  define k where "k = (case scaled (s * 2 ^ j) (2 ^ j) ?k0 of (a, b) \<Rightarrow> if 2 ^ 53 * b \<le> a then ?k0 + 1 else ?k0)"
  have "k = ?k0 \<or> k = ?k0 + 1" by (simp add: k_def split: prod.split)
  with b have k: "- 53 \<le> k" "k \<le> 0" by linarith+
  have "round_ratio (s * 2 ^ j) (2 ^ j) = (s * 2 ^ nat (- k), k)"
    using assms(1) * [OF k(2)] unfolding round_ratio_def k_def [symmetric] Let_def by (simp add: Let_def)
  with k that show ?thesis by blast
qed

lemma round64_exact:
  assumes "0 < s" "s < 2 ^ 53"
  obtains k where "round64 (s * 2 ^ j) (2 ^ j) = (s * 2 ^ nat (- k), k)" "- 53 \<le> k" "k \<le> 0"
proof -
  obtain k where k: "round_ratio (s * 2 ^ j) (2 ^ j) = (s * 2 ^ nat (- k), k)" "- 53 \<le> k" "k \<le> 0"
    using round_ratio_exact [OF assms] .
  then have "round64 (s * 2 ^ j) (2 ^ j) = (s * 2 ^ nat (- k), k)" by (simp add: round64_def Let_def)
  with k that show ?thesis by blast
qed

lemma float_trunc_exact: "k \<le> 0 \<Longrightarrow> float_trunc (s * 2 ^ nat (- k), k) = s"
  by (cases "k = 0") (simp_all add: float_trunc_def)

lemma digit_plain:
  assumes "is_digit c"
  shows "lower c = c" "c \<noteq> CHR ''_''" "c \<noteq> CHR ''.''" "c \<notin> set ''box''" "c \<notin> set ''inf''" "c \<notin> set ''na''"
proof -
  have "(of_char c :: nat) \<le> 57" using assms by (simp add: is_digit_def)
  then show "lower c = c" by (simp add: lower_def)
qed (use assms in \<open>auto simp: is_digit_def\<close>)

lemma read_mantissa_digits:
  "list_all is_digit ds \<Longrightarrow>
   read_mantissa False False (int m) 0 dg ds = (int (foldl (\<lambda>n c. 10 * n + digit_val c) m ds), 0, dg \<or> ds \<noteq> [], [])"
proof (induction ds arbitrary: m dg)
  case (Cons c ds)
  have "int m * 10 + int (hex_val c) = int (10 * m + digit_val c)" using Cons.prems by (simp add: hex_val_def)
  moreover have "c \<noteq> CHR ''_''" "c \<noteq> CHR ''.''" using Cons.prems digit_plain(2,3) by auto
  ultimately show ?case using Cons.IH [of "10 * m + digit_val c" True] Cons.prems
    by (simp add: mult.commute [of "int m"])
qed simp

lemma parse_whole:
  assumes "0 < n" "int n < 2 ^ 53"
  obtains k where "ParseFloat (show_nat n) = Some (Finite False (int n * 2 ^ nat (- k), k))" "- 53 \<le> k" "k \<le> 0"
proof -
  obtain k where k: "round64 (int n * 2 ^ 0) (2 ^ 0) = (int n * 2 ^ nat (- k), k)" "- 53 \<le> k" "k \<le> 0"
    using round64_exact [of "int n" 0] assms by auto
  obtain c cs where s: "show_nat n = c # cs" using show_nat_not_Nil by (cases "show_nat n") blast+
  have d: "list_all is_digit (show_nat n)" using show_nat_digits by (auto simp: list_all_iff)
  then have dc: "is_digit c" "\<And>d. d \<in> set cs \<Longrightarrow> is_digit d" by (auto simp: s list_all_iff)
  have sign: "split_sign (show_nat n) = (False, show_nat n)" using dc(1) by (simp add: s split_sign_def)
  have "map lower (show_nat n) = show_nat n"
    using d by (auto simp: list_all_iff digit_plain(1) intro!: map_idI)
  moreover have "show_nat n \<notin> {''inf'', ''infinity'', ''nan''}" using digit_plain(5,6) [OF dc(1)] by (auto simp: s)
  ultimately have special: "special (show_nat n) = None" by (auto simp: special_def sign)
  have base: "base_prefix (show_nat n) = None"
  proof (cases cs)
    case (Cons e es)
    with dc(2) have "is_digit e" by simp
    from digit_plain(1,4) [OF this] show ?thesis by (simp add: base_prefix_def s Cons)
  qed (simp add: base_prefix_def s)
  have us: "CHR ''_'' \<notin> set (show_nat n)" using show_nat_digits digit_plain(2) by blast
  have m: "read_mantissa False False 0 0 False (show_nat n) = (int n, 0, True, [])"
    using read_mantissa_digits [OF d, of 0 False] digits_val_show_nat [of n] by (simp add: digits_val_def)
  have "0 < int n * 2 ^ nat (- k)" using assms(1) by simp
  have "bit_len (int n * 2 ^ nat (- k)) = bit_len (int n) + int (nat (- k))"
    using bit_len_shift assms(1) by simp
  with bit_len_bound [OF assms(2)] k(2,3) have fin: "finite_float (int n * 2 ^ nat (- k), k) = Some (int n * 2 ^ nat (- k), k)"
    by (simp add: finite_float_def)
  have "ParseFloat (show_nat n) = Some (Finite False (int n * 2 ^ nat (- k), k))"
    using k(1) by (simp add: ParseFloat_def special parse_number_def sign base us m exponent_part_def scale10_def fin)
  with k that show ?thesis by blast
qed

text \<open>
  A multiplier written as a whole number scales a whole number exactly as long as the
  product is below \<open>2 ^ 53\<close>.
\<close>

lemma scale_int_whole:
  assumes "0 < v" "0 < n" "v * int n < 2 ^ 53"
  shows "\<exists>f. ParseFloat (show_nat n) = Some f \<and> is_positive f \<and> scale_int ovf v f = of_int (v * int n)"
proof -
  have "int n * 1 \<le> int n * v" "v * 1 \<le> v * int n" using assms(1,2) by (intro mult_left_mono; simp)+
  then have b: "int n < 2 ^ 53" "v < 2 ^ 53" using assms(3) by (simp_all add: mult.commute)
  obtain k where k: "ParseFloat (show_nat n) = Some (Finite False (int n * 2 ^ nat (- k), k))" "- 53 \<le> k" "k \<le> 0"
    using parse_whole [OF assms(2) b(1)] .
  obtain l where l: "float_of_int v = (v * 2 ^ nat (- l), l)" "l \<le> 0"
    using round_ratio_exact [OF assms(1) b(2), of 0] by (auto simp: float_of_int_def)
  have vn: "0 < v * int n" using assms(1,2) by simp
  let ?j = "nat (- l) + nat (- k)"
  obtain h where h: "round64 (v * int n * 2 ^ ?j) (2 ^ ?j) = (v * int n * 2 ^ nat (- h), h)" "h \<le> 0"
    using round64_exact [OF vn assms(3)] by metis
  have "(if l + k \<ge> 0 then round64 (v * int n * 2 ^ ?j * 2 ^ nat (l + k)) 1
         else round64 (v * int n * 2 ^ ?j) (2 ^ nat (- (l + k)))) = (v * int n * 2 ^ nat (- h), h)"
  proof (cases "l + k \<ge> 0")
    case True
    with l k have "l = 0" "k = 0" by auto
    with h show ?thesis by simp
  next
    case False
    with l k have "nat (- (l + k)) = ?j" by simp
    with h False show ?thesis by simp
  qed
  moreover have "v * 2 ^ nat (- l) * (int n * 2 ^ nat (- k)) = v * int n * 2 ^ ?j" by (simp add: power_add mult_ac)
  ultimately have "scale_int ovf v (Finite False (int n * 2 ^ nat (- k), k)) =
      (if v * int n < 2 ^ 63 then of_int (v * int n) else ovf)"
    unfolding scale_int_def go_float.case Let_def l fst_conv snd_conv
    by (simp only: float_trunc_exact [OF h(2)])
  moreover have "v * int n < 2 ^ 63" using assms(3) by (rule less_trans) simp
  ultimately show ?thesis using k assms(2) by (simp add: is_positive_def)
qed

end
