(* ===== verification/Client.thy ===== *)
theory Client
  imports ApiTypes GoFloat
begin

text \<open>
  What the controllers and webhooks call outside this repository, as one record of
  operations over an abstract world \<open>'w\<close>: the controller-runtime client (reads and writes
  of the Kubernetes API), \<open>controllerutil\<close>, \<open>metav1.LabelSelectorAsSelector\<close>, the clock and
  the Prometheus vectors. The record is a parameter of every definition that uses it. Any
  operation may fail at any time and reads may change the world (other clients act in
  between), unless a hypothesis says otherwise; the hypotheses the theorems use are the
  locales at the end of this theory.
\<close>

section \<open>The operations\<close>

type_synonym selector = "labels \<Rightarrow> bool"

record list_options =
  InNamespace :: "string option"
  MatchingLabels :: "(string \<times> string) list"
  MatchingLabelsSelector :: "selector option"

definition everything :: list_options where
  "everything = \<lparr>InNamespace = None, MatchingLabels = [], MatchingLabelsSelector = None\<rparr>"

record ('q, 'w) client =
  GetOrder :: "string \<Rightarrow> string \<Rightarrow> ('w, go_error + 'q order) state"
  ListOrders :: "list_options \<Rightarrow> ('w, go_error + 'q order list) state"
  UpdateOrder :: "'q order \<Rightarrow> ('w, go_error + 'q order) state"
  UpdateOrderStatus :: "'q order \<Rightarrow> ('w, go_error + 'q order) state"
  GetTicket :: "string \<Rightarrow> string \<Rightarrow> ('w, go_error + 'q ticket) state"
  ListTickets :: "list_options \<Rightarrow> ('w, go_error + 'q ticket list) state"
  CreateTicket :: "'q ticket \<Rightarrow> ('w, go_error + 'q ticket) state"
  UpdateTicket :: "'q ticket \<Rightarrow> ('w, go_error + 'q ticket) state"
  UpdateTicketStatus :: "'q ticket \<Rightarrow> ('w, go_error + 'q ticket) state"
  DeleteTicket :: "'q ticket \<Rightarrow> ('w, go_error + unit) state"
  GetPod :: "string \<Rightarrow> string \<Rightarrow> ('w, go_error + 'q pod) state"
  CreatePod :: "'q pod \<Rightarrow> ('w, go_error + 'q pod) state"
  DeletePod :: "string \<Rightarrow> string \<Rightarrow> ('w, go_error + unit) state"
  GetQuota :: "string \<Rightarrow> string \<Rightarrow> ('w, go_error + 'q quota) state"
  ListQuotas :: "list_options \<Rightarrow> ('w, go_error + 'q quota list) state"
  UpdateQuota :: "'q quota \<Rightarrow> ('w, go_error + 'q quota) state"
  UpdateQuotaStatus :: "'q quota \<Rightarrow> ('w, go_error + 'q quota) state"
  GetNamespace :: "string \<Rightarrow> ('w, go_error + namespace) state"
  ListNamespaces :: "list_options \<Rightarrow> ('w, go_error + namespace list) state"
  ListDaemonOrders :: "list_options \<Rightarrow> ('w, go_error + object_meta list) state"
  ListCronOrders :: "list_options \<Rightarrow> ('w, go_error + object_meta list) state"
  LabelSelectorAsSelector :: "label_selector \<Rightarrow> go_error + selector"
  SetControllerReference :: "string \<Rightarrow> object_meta \<Rightarrow> object_meta \<Rightarrow> go_error + object_meta"
  ContainsFinalizer :: "object_meta \<Rightarrow> string \<Rightarrow> bool"
  AddFinalizer :: "object_meta \<Rightarrow> string \<Rightarrow> object_meta"
  RemoveFinalizer :: "object_meta \<Rightarrow> string \<Rightarrow> object_meta"
  TimeNow :: "('w, time) state"
  CounterInc :: "string \<Rightarrow> string list \<Rightarrow> ('w, unit) state"
  GaugeSet :: "string \<Rightarrow> string list \<Rightarrow> go_float \<Rightarrow> ('w, unit) state"
  HistogramObserve :: "string \<Rightarrow> string list \<Rightarrow> time \<Rightarrow> ('w, unit) state"

section \<open>Results of the reconcilers, loops\<close>

record ctrl_result =
  Requeue :: bool
  RequeueAfter :: time

definition no_result :: ctrl_result where
  "no_result = \<lparr>Requeue = False, RequeueAfter = 0\<rparr>"

type_synonym outcome = "ctrl_result \<times> go_error option"

definition time_Second :: time where
  "time_Second = 10 ^ 9"

text \<open>A loop whose body returns at the first error.\<close>

primrec for_each :: "('a \<Rightarrow> ('w, go_error + unit) state) \<Rightarrow> 'a list \<Rightarrow> ('w, go_error + unit) state" where
  "for_each f [] = State_Monad.return (Inr ())"
| "for_each f (x # xs) = on_ok (f x) (\<lambda>_. for_each f xs)"

lemma for_each_append: "for_each f (xs @ ys) = on_ok (for_each f xs) (\<lambda>_. for_each f ys)"
proof (rule state_ext)
  show "run_state (for_each f (xs @ ys)) s = run_state (on_ok (for_each f xs) (\<lambda>_. for_each f ys)) s" for s
    by (induction xs arbitrary: s) (auto simp: run_on_ok split: prod.split sum.split)
qed

lemma for_each_map: "for_each f (map g xs) = for_each (\<lambda>x. f (g x)) xs"
  by (induction xs) auto

lemma for_each_cong: "(\<And>x. x \<in> set xs \<Longrightarrow> f x = g x) \<Longrightarrow> for_each f xs = for_each g xs"
  by (induction xs) auto

text \<open>
  If every iteration that returns without error takes \<open>I i\<close> to \<open>I (i + 1)\<close>, a loop that
  returns without error takes \<open>I i\<close> to \<open>I (i + n)\<close>.
\<close>

lemma for_each_ok_induct:
  assumes "run_state (for_each f xs) w = (Inr (), w')" and "I (0::nat) w"
    and step: "\<And>i x w w'. x \<in> set xs \<Longrightarrow> I i w \<Longrightarrow> run_state (f x) w = (Inr (), w') \<Longrightarrow> I (Suc i) w'"
  shows "I (length xs) w'"
proof -
  have "I (i + length ys) w'"
    if "set ys \<subseteq> set xs" "run_state (for_each f ys) w = (Inr (), w')" "I i w" for ys i w
    using that
  proof (induction ys arbitrary: i w)
    case (Cons y ys)
    from Cons.prems(2) obtain v where "run_state (f y) w = (Inr (), v)"
      and rest: "run_state (for_each f ys) v = (Inr (), w')"
      by (auto simp: run_on_ok split: prod.splits sum.splits)
    with Cons.prems step have "I (Suc i) v" by auto
    with Cons.IH [OF _ rest, of "Suc i"] Cons.prems(1) show ?case by simp
  qed simp
  from this [of xs w 0] assms(1,2) show ?thesis by simp
qed

text \<open>A loop of checks that decide \<open>P\<close>, element by element, decides it for all of them.\<close>

lemma for_each_decides:
  assumes "run_state (for_each f xs) w = (r, w')" and "J w"
    and step: "\<And>x v rv v'. x \<in> set xs \<Longrightarrow> J v \<Longrightarrow> run_state (f x) v = (rv, v') \<Longrightarrow> J v' \<and> (rv = Inr () \<longleftrightarrow> P x)"
  shows "J w' \<and> (r = Inr () \<longleftrightarrow> (\<forall>x \<in> set xs. P x))"
  using assms
proof (induction xs arbitrary: w)
  case (Cons x xs)
  obtain rv v where 1: "run_state (f x) w = (rv, v)" by fastforce
  note first = Cons.prems(3) [OF _ Cons.prems(2) 1]
  show ?case
  proof (cases rv)
    case (Inl e)
    with first 1 Cons.prems(1) show ?thesis by (auto simp: run_on_ok)
  next
    case (Inr u)
    with Cons.prems(1) 1 have "run_state (for_each f xs) v = (r, w')" by (simp add: run_on_ok)
    from Cons.IH [OF this _ Cons.prems(3)] first Inr show ?thesis by simp
  qed
qed simp


section \<open>Metrics\<close>

text \<open>
  \<open>internal/metrics/metrics.go\<close>: the three wrappers the reconcilers call. The duration is
  passed on in nanoseconds.
\<close>

definition IncTicketsTotal :: "('q, 'w) client \<Rightarrow> string \<Rightarrow> string \<Rightarrow> ('w, unit) state" where
  "IncTicketsTotal C ns phase = CounterInc C ''korder_tickets_total'' [ns, phase]"

definition IncReconciliationErrors :: "('q, 'w) client \<Rightarrow> string \<Rightarrow> string \<Rightarrow> ('w, unit) state" where
  "IncReconciliationErrors C ctl err = CounterInc C ''korder_reconciliation_errors_total'' [ctl, err]"

definition ObserveReconciliationDuration ::
  "('q, 'w) client \<Rightarrow> string \<Rightarrow> string \<Rightarrow> time \<Rightarrow> ('w, unit) state" where
  "ObserveReconciliationDuration C ctl result d =
     HistogramObserve C ''korder_reconciliation_duration_seconds'' [ctl, result] d"

text \<open>The deferred function at the head of each \<open>Reconcile\<close>.\<close>

definition timed :: "('q, 'w) client \<Rightarrow> string \<Rightarrow> ('w, 'a) state \<Rightarrow> ('w, 'a) state" where
  "timed C ctl body = do {
     start \<leftarrow> TimeNow C;
     r \<leftarrow> body;
     stop \<leftarrow> TimeNow C;
     _ \<leftarrow> ObserveReconciliationDuration C ctl ''success'' (stop - start);
     State_Monad.return r
   }"

section \<open>What the API promises about tickets\<close>

text \<open>
  \<open>view w\<close> is the set of tickets the API server holds in world \<open>w\<close>, by namespace and name.
  The laws are those of the Kubernetes API: a list returns exactly the selected objects,
  a create fails on a taken name and otherwise adds the object with the status the server
  keeps for a fresh one, a delete removes the object or, while it has finalizers, marks it,
  and a failed write changes nothing. Reads are taken to be current.
\<close>

text \<open>\<open>types.NamespacedName\<close>\<close>

datatype object_key = Key string string

definition meta_key :: "object_meta \<Rightarrow> object_key" where
  "meta_key m = Key (Namespace m) (Name m)"

abbreviation ticket_key :: "'q ticket \<Rightarrow> object_key" where
  "ticket_key t \<equiv> meta_key (ticket_meta t)"

definition selects :: "list_options \<Rightarrow> object_meta \<Rightarrow> bool" where
  "selects opts m \<longleftrightarrow>
     (case InNamespace opts of None \<Rightarrow> True | Some ns \<Rightarrow> Namespace m = ns) \<and>
     (\<forall>(k, v) \<in> set (MatchingLabels opts). gm_get (Labels m) k = Some v) \<and>
     (case MatchingLabelsSelector opts of None \<Rightarrow> True | Some sel \<Rightarrow> sel (Labels m))"

text \<open>The stored object carries the submitted name, namespace and labels.\<close>

definition same_identity :: "object_meta \<Rightarrow> object_meta \<Rightarrow> bool" where
  "same_identity m m' \<longleftrightarrow> Name m' = Name m \<and> Namespace m' = Namespace m \<and> Labels m' = Labels m"

lemma same_identity_key: "same_identity m m' \<Longrightarrow> meta_key m' = meta_key m"
  by (simp add: same_identity_def meta_key_def)

lemma same_identity_selects:
  "same_identity m m' \<Longrightarrow> selects opts m' = selects opts m"
  by (auto simp: same_identity_def selects_def split: option.split)

lemma same_identity_trans: "same_identity a b \<Longrightarrow> same_identity b c \<Longrightarrow> same_identity a c"
  by (simp add: same_identity_def)

locale ticket_store =
  fixes C :: "('q, 'w) client"
    and view :: "'w \<Rightarrow> object_key \<Rightarrow> 'q ticket option"
  assumes view_key: "view w k = Some t \<Longrightarrow> ticket_key t = k"
    and view_finite: "finite (dom (view w))"
    and list_frame: "run_state (ListTickets C opts) w = (r, w') \<Longrightarrow> view w' = view w"
    and list_result: "run_state (ListTickets C opts) w = (Inr ts, w') \<Longrightarrow>
        distinct (map ticket_key ts) \<and>
        set ts = {t. \<exists>k. view w k = Some t \<and> selects opts (ticket_meta t)}"
    and create_result: "run_state (CreateTicket C t) w = (Inr t', w') \<Longrightarrow>
        view w (ticket_key t) = None \<and>
        (\<exists>s. view w' = (view w)(ticket_key t \<mapsto> s) \<and>
           same_identity (ticket_meta t) (ticket_meta s) \<and> Phase (ticket_status s) = NoPhase)"
    and create_failure: "run_state (CreateTicket C t) w = (Inl e, w') \<Longrightarrow> view w' = view w"
    and delete_result: "run_state (DeleteTicket C t) w = (Inr u, w') \<Longrightarrow>
        \<exists>s. view w (ticket_key t) = Some s \<and>
          (view w' = (view w)(ticket_key t := None) \<or>
           (\<exists>s'. view w' = (view w)(ticket_key t \<mapsto> s') \<and> DeletionTimestamp (ticket_meta s') \<noteq> None \<and>
              same_identity (ticket_meta s) (ticket_meta s') \<and> ticket_status s' = ticket_status s))"
    and delete_failure: "run_state (DeleteTicket C t) w = (Inl e, w') \<Longrightarrow> view w' = view w"
    and delete_not_found: "run_state (DeleteTicket C t) w = (Inl e, w') \<Longrightarrow> is_not_found e \<Longrightarrow>
        view w (ticket_key t) = None"
    and counter_frame: "view (snd (run_state (CounterInc C nm ls) w)) = view w"
    and histogram_frame: "view (snd (run_state (HistogramObserve C nm ls d) w)) = view w"
    and now_frame: "view (snd (run_state (TimeNow C) w)) = view w"
    and get_order_frame: "view (snd (run_state (GetOrder C ns nm) w)) = view w"
    and update_order_frame: "view (snd (run_state (UpdateOrder C ord) w)) = view w"
    and update_order_status_frame: "view (snd (run_state (UpdateOrderStatus C ord) w)) = view w"
    and set_reference_identity:
      "SetControllerReference C kind owner m = Inr m' \<Longrightarrow> same_identity m m'"
begin

lemmas store_frames = list_frame create_failure delete_failure counter_frame histogram_frame
  now_frame get_order_frame update_order_frame update_order_status_frame

lemma frame_rules:
  "run_state (CounterInc C nm ls) w = (u, w') \<Longrightarrow> view w' = view w"
  "run_state (HistogramObserve C nm ls d) w = (u, w') \<Longrightarrow> view w' = view w"
  "run_state (TimeNow C) w = (n, w') \<Longrightarrow> view w' = view w"
  "run_state (GetOrder C ns nm) w = (ro, w') \<Longrightarrow> view w' = view w"
  "run_state (UpdateOrder C ord) w = (ro, w') \<Longrightarrow> view w' = view w"
  "run_state (UpdateOrderStatus C ord) w = (ro, w') \<Longrightarrow> view w' = view w"
  using counter_frame [of nm ls w] histogram_frame [of nm ls d w] now_frame [of w] get_order_frame [of ns nm w]
    update_order_frame [of ord w] update_order_status_frame [of ord w] by simp_all

lemma length_filter_listed:
  assumes "run_state (ListTickets C opts) w = (Inr ts, w')"
  shows "length (filter P ts) =
     card {k. \<exists>t. view w k = Some t \<and> selects opts (ticket_meta t) \<and> P t}"
proof -
  from list_result [OF assms] have d: "distinct (map ticket_key ts)"
    and s: "set ts = {t. \<exists>k. view w k = Some t \<and> selects opts (ticket_meta t)}" by auto
  have "{k. \<exists>t. view w k = Some t \<and> selects opts (ticket_meta t) \<and> P t} =
      set (map ticket_key (filter P ts))" (is "?K = ?S")
  proof (intro equalityI subsetI)
    fix k assume "k \<in> ?K"
    then obtain t where t: "view w k = Some t" "selects opts (ticket_meta t)" "P t" by auto
    then have "t \<in> set (filter P ts)" using s by (cases k) auto
    with view_key [OF t(1)] show "k \<in> ?S" by force
  next
    fix k assume "k \<in> ?S"
    then obtain t j where "k = ticket_key t" "P t" "view w j = Some t" "selects opts (ticket_meta t)"
      using s by auto
    with view_key [of w j t] show "k \<in> ?K" by auto
  qed
  moreover have "distinct (map ticket_key (filter P ts))"
    using d by (rule distinct_map_filter)
  ultimately show ?thesis by (simp only: distinct_card length_map)
qed

end

text \<open>
  An API server that is up: reads succeed, and a create of an unused name succeeds when the server
  lets the object in. Which objects it lets in is the parameter \<open>admits\<close>: the schema of the
  resource and the webhooks decide it, by the object and by things that a list, a create of a ticket
  or a metric does not change. \<open>Admission\<close> instantiates it with this repository's ticket webhook.
\<close>

locale available_ticket_store = ticket_store C view
  for C :: "('q, 'w) client" and view :: "'w \<Rightarrow> object_key \<Rightarrow> 'q ticket option" +
  fixes admits :: "'w \<Rightarrow> 'q ticket \<Rightarrow> bool"
  assumes list_available: "\<exists>ts w'. run_state (ListTickets C opts) w = (Inr ts, w')"
    and create_available: "admits w t \<Longrightarrow> view w (ticket_key t) = None \<Longrightarrow>
        \<exists>t' w'. run_state (CreateTicket C t) w = (Inr t', w')"
    and list_admits: "run_state (ListTickets C opts) w = (r, w') \<Longrightarrow> admits w' t = admits w t"
    and create_admits: "run_state (CreateTicket C t) w = (rt, w') \<Longrightarrow> admits w' t' = admits w t'"
    and counter_admits: "run_state (CounterInc C nm ls) w = (u, w') \<Longrightarrow> admits w' t = admits w t"
    and set_reference_available: "\<exists>m'. SetControllerReference C kind owner m = Inr m'"

section \<open>What the API promises about pods, and about a ticket's status\<close>

text \<open>
  \<open>metav1.Time\<close> is stored as RFC 3339 text with whole seconds, so a status that has been
  written and read back has its times cut to the second.
\<close>

definition to_second :: "time \<Rightarrow> time" where
  "to_second t = t div time_Second * time_Second"

definition stored_condition :: "'ty condition \<Rightarrow> 'ty condition" where
  "stored_condition c = c\<lparr>LastTransitionTime := map_option to_second (LastTransitionTime c)\<rparr>"

definition stored_status :: "ticket_status \<Rightarrow> ticket_status" where
  "stored_status s = s\<lparr>ActivationTime := map_option to_second (ActivationTime s),
     ExpirationTime := map_option to_second (ExpirationTime s),
     ClaimedTime := map_option to_second (ClaimedTime s),
     TicketConditions := map stored_condition (TicketConditions s)\<rparr>"

lemma stored_status_simps [simp]:
  "Phase (stored_status s) = Phase s" "GuardianPod (stored_status s) = GuardianPod s"
  "BoundNode (stored_status s) = BoundNode s" "ClaimedPod (stored_status s) = ClaimedPod s"
  "TicketReason (stored_status s) = TicketReason s" "TicketMessage (stored_status s) = TicketMessage s"
  "ActivationTime (stored_status s) = map_option to_second (ActivationTime s)"
  "ExpirationTime (stored_status s) = map_option to_second (ExpirationTime s)"
  "ClaimedTime (stored_status s) = map_option to_second (ClaimedTime s)"
  by (simp_all add: stored_status_def)

text \<open>
  \<open>pview w\<close> is the set of pods the server holds. A status update replaces the status and
  nothing else; an update replaces everything but the status, and completes the deletion
  of a marked ticket whose last finalizer it removes.
\<close>

locale pod_store =
  fixes C :: "('q, 'w) client"
    and pview :: "'w \<Rightarrow> object_key \<Rightarrow> 'q pod option"
  assumes get_pod_frame: "run_state (GetPod C ns nm) w = (rp, w') \<Longrightarrow> pview w' = pview w"
    and get_pod_result: "run_state (GetPod C ns nm) w = (Inr p, w') \<Longrightarrow> pview w (Key ns nm) = Some p"
    and get_pod_missing: "run_state (GetPod C ns nm) w = (Inl e, w') \<Longrightarrow> is_not_found e \<Longrightarrow>
        pview w (Key ns nm) = None"
    and create_pod_result: "run_state (CreatePod C p) w = (Inr p', w') \<Longrightarrow>
        pview w (meta_key (pod_meta p)) = None \<and> pview w' = (pview w)(meta_key (pod_meta p) \<mapsto> p') \<and>
        same_identity (pod_meta p) (pod_meta p')"
    and create_pod_failure: "run_state (CreatePod C p) w = (Inl e, w') \<Longrightarrow> pview w' = pview w"
    and create_pod_exists: "run_state (CreatePod C p) w = (Inl e, w') \<Longrightarrow> is_already_exists e \<Longrightarrow>
        pview w (meta_key (pod_meta p)) \<noteq> None"
    and delete_pod_result: "run_state (DeletePod C ns nm) w = (Inr u, w') \<Longrightarrow>
        (\<forall>k. k \<noteq> Key ns nm \<longrightarrow> pview w' k = pview w k) \<and>
        (\<forall>p. pview w' (Key ns nm) = Some p \<longrightarrow> DeletionTimestamp (pod_meta p) \<noteq> None)"
    and delete_pod_failure: "run_state (DeletePod C ns nm) w = (Inl e, w') \<Longrightarrow> pview w' = pview w"
    and delete_pod_missing: "run_state (DeletePod C ns nm) w = (Inl e, w') \<Longrightarrow> is_not_found e \<Longrightarrow>
        pview w (Key ns nm) = None"
    and set_pod_reference_identity:
      "SetControllerReference C kind owner m = Inr m' \<Longrightarrow> same_identity m m'"
    and set_pod_reference_error: "SetControllerReference C kind owner m = Inl e \<Longrightarrow> \<not> is_already_exists e"

locale ticket_server = ticket_store C view + pod_store C pview
  for C :: "('q, 'w) client" and view and pview +
  assumes get_ticket_frame: "run_state (GetTicket C ns nm) w = (rt, w') \<Longrightarrow> view w' = view w \<and> pview w' = pview w"
    and get_ticket_result: "run_state (GetTicket C ns nm) w = (Inr t, w') \<Longrightarrow> view w (Key ns nm) = Some t"
    and update_ticket_result: "run_state (UpdateTicket C t) w = (Inr t', w') \<Longrightarrow>
        \<exists>s. view w (ticket_key t) = Some s \<and>
          (view w' = (view w)(ticket_key t := None) \<or>
           (\<exists>s'. view w' = (view w)(ticket_key t \<mapsto> s') \<and> ticket_status s' = ticket_status s))"
    and update_ticket_failure: "run_state (UpdateTicket C t) w = (Inl e, w') \<Longrightarrow> view w' = view w"
    and update_status_result: "run_state (UpdateTicketStatus C t) w = (Inr t', w') \<Longrightarrow>
        \<exists>s s'. view w (ticket_key t) = Some s \<and> view w' = (view w)(ticket_key t \<mapsto> s') \<and>
          ticket_status s' = stored_status (ticket_status t) \<and> ticket_spec s' = ticket_spec s \<and>
          (\<exists>v. ticket_meta s' = (ticket_meta s)\<lparr>ResourceVersion := v\<rparr>)"
    and update_status_failure: "run_state (UpdateTicketStatus C t) w = (Inl e, w') \<Longrightarrow> view w' = view w"
    and finalizer_identity: "same_identity m (AddFinalizer C m f)" "same_identity m (RemoveFinalizer C m f)"
    and pods_frame: "run_state (UpdateTicket C t) w = (rt, w') \<Longrightarrow> pview w' = pview w"
      "run_state (UpdateTicketStatus C t) w = (rt, w') \<Longrightarrow> pview w' = pview w"
      "run_state (DeleteTicket C t) w = (ru, w') \<Longrightarrow> pview w' = pview w"
      "run_state (TimeNow C) w = (n, w') \<Longrightarrow> pview w' = pview w"
      "run_state (HistogramObserve C hn ls d) w = (uu, w') \<Longrightarrow> pview w' = pview w"
    and tickets_frame: "run_state (GetPod C ns nm) w = (rp, w') \<Longrightarrow> view w' = view w"
      "run_state (CreatePod C p) w = (rp, w') \<Longrightarrow> view w' = view w"
      "run_state (DeletePod C ns nm) w = (ru, w') \<Longrightarrow> view w' = view w"
    and list_pods_frame: "run_state (ListTickets C opts) w = (rl, w') \<Longrightarrow> pview w' = pview w"

text \<open>
  A server that is up: it answers for a pod that is there or missing, refuses a create of a
  taken name as such, reads and lists stored tickets, and accepts a status write that is
  based on the stored version.
\<close>

locale available_ticket_server = ticket_server +
  assumes get_pod_present: "pview w (Key ns nm) = Some p \<Longrightarrow> \<exists>w'. run_state (GetPod C ns nm) w = (Inr p, w')"
    and get_pod_absent: "pview w (Key ns nm) = None \<Longrightarrow>
        \<exists>e w'. run_state (GetPod C ns nm) w = (Inl e, w') \<and> is_not_found e"
    and create_pod_taken: "pview w (meta_key (pod_meta p)) \<noteq> None \<Longrightarrow>
        \<exists>e w'. run_state (CreatePod C p) w = (Inl e, w') \<and> is_already_exists e"
    and get_ticket_present: "view w (Key ns nm) = Some t \<Longrightarrow> \<exists>w'. run_state (GetTicket C ns nm) w = (Inr t, w')"
    and update_status_available: "view w (ticket_key t) = Some s \<Longrightarrow>
        ResourceVersion (ticket_meta t) = ResourceVersion (ticket_meta s) \<Longrightarrow>
        \<exists>t' w'. run_state (UpdateTicketStatus C t) w = (Inr t', w')"
    and list_tickets_available: "\<exists>ts w'. run_state (ListTickets C opts) w = (Inr ts, w')"
    and set_pod_reference_available: "\<exists>m'. SetControllerReference C kind owner m = Inr m'"

end
