(* ===== verification/Resources.thy ===== *)
theory Resources
  imports Client "HOL-Library.Multiset"
begin

text \<open>
  Resource lists and what the quota code relies on outside this repository: the laws of
  \<open>resource.Quantity\<close> (the locale \<open>quantity_laws\<close>) and of listing the objects of a cluster
  (the locale \<open>quota_server\<close>). The two functions on resource lists at the head are the
  code the quota controller and the order webhook have in common.
\<close>

section \<open>The shared code\<close>

text \<open>Adding requests to a usage, in \<open>ValidateQuota\<close> and \<open>validateAgainstQuotas\<close>.\<close>

definition add_request :: "'q quantity_ops \<Rightarrow> string \<times> 'q \<Rightarrow> 'q resource_list \<Rightarrow> 'q resource_list" where
  "add_request Q rq m =
     (case rq of (r, q) \<Rightarrow>
        case gm_get m r of
          Some existing \<Rightarrow> gm_put r (q_add Q existing q) m
        | None \<Rightarrow> gm_put r q m)"

definition project_usage :: "'q quantity_ops \<Rightarrow> 'q resource_list \<Rightarrow> 'q resource_list \<Rightarrow> 'q resource_list" where
  "project_usage Q usage requests = fold (add_request Q) (gm_list requests) usage"

definition isQuotaExceeded :: "'q quantity_ops \<Rightarrow> 'q resource_list \<Rightarrow> 'q resource_list \<Rightarrow> bool" where
  "isQuotaExceeded Q usage limits \<longleftrightarrow>
     list_ex (\<lambda>(r, limit). case gm_get usage r of Some used \<Rightarrow> q_cmp Q used limit > 0 | None \<Rightarrow> False)
       (gm_list limits)"

section \<open>Quantities\<close>

text \<open>
  The amount of a quantity is an integer number of \<open>10^-9\<close> units, the finest fraction a
  \<open>Quantity\<close> keeps. \<open>Value\<close> rounds up to a whole number, and is stated where that number
  fits an \<open>int64\<close>.
\<close>

abbreviation nano :: int where
  "nano \<equiv> 1000000000"

text \<open>The amount under a key of a resource list, 0 when there is none.\<close>

definition amount_at :: "('q \<Rightarrow> int) \<Rightarrow> 'q resource_list \<Rightarrow> string \<Rightarrow> int" where
  "amount_at amount m r = (case gm_get m r of None \<Rightarrow> 0 | Some q \<Rightarrow> amount q)"

locale quantity_laws =
  fixes Q :: "'q quantity_ops" and amount :: "'q \<Rightarrow> int"
  assumes amount_zero: "amount (q_zero Q) = 0"
    and amount_add: "amount (q_add Q a b) = amount a + amount b"
    and amount_sub: "amount (q_sub Q a b) = amount a - amount b"
    and cmp_positive: "q_cmp Q a b > 0 \<longleftrightarrow> amount a > amount b"
    and equal_iff: "q_equal Q a b \<longleftrightarrow> amount a = amount b"
    and sign_positive: "q_sign Q a > 0 \<longleftrightarrow> amount a > 0"
    and sign_negative: "q_sign Q a < 0 \<longleftrightarrow> amount a < 0"
    and is_zero_iff: "q_is_zero Q a \<longleftrightarrow> amount a = 0"
    and amount_new: "amount (q_new Q n f) = sint n * nano"
    and amount_set: "amount (q_set Q a n) = sint n * nano"
    and value_round: "0 \<le> amount a \<Longrightarrow> (amount a + (nano - 1)) div nano < 2 ^ 63 \<Longrightarrow>
        sint (q_value Q a) = (amount a + (nano - 1)) div nano"
begin

lemma add_request_amount:
  assumes "m \<noteq> None"
  shows "add_request Q (r, q) m \<noteq> None"
    and "amount_at amount (add_request Q (r, q) m) s = amount_at amount m s + (if s = r then amount q else 0)"
    and "gm_get (add_request Q (r, q) m) s \<noteq> None \<longleftrightarrow> gm_get m s \<noteq> None \<or> s = r"
  using assms by (simp_all add: add_request_def amount_at_def gm_get_put amount_add del: not_None_eq split: option.split)

text \<open>The projection adds, key by key, whatever the order of the map.\<close>

lemma fold_request_amount:
  assumes "m \<noteq> None"
  shows "fold (add_request Q) rs m \<noteq> None \<and>
    (\<forall>s. amount_at amount (fold (add_request Q) rs m) s = amount_at amount m s + (\<Sum>(r, q) \<leftarrow> rs. if s = r then amount q else 0)) \<and>
    (\<forall>s. gm_get (fold (add_request Q) rs m) s \<noteq> None \<longleftrightarrow> gm_get m s \<noteq> None \<or> s \<in> fst ` set rs)"
  using assms
proof (induction rs arbitrary: m)
  case (Cons rq rs)
  obtain r q where rq: "rq = (r, q)" by fastforce
  from Cons.IH [OF add_request_amount(1) [OF Cons.prems, of r q]] add_request_amount(2,3) [OF Cons.prems]
  show ?case by (auto simp: rq)
qed simp

lemma sum_requests:
  "distinct (map fst rs) \<Longrightarrow>
   (\<Sum>(r, q) \<leftarrow> rs. if s = r then amount q else 0) = (case map_of rs s of None \<Rightarrow> 0 | Some q \<Rightarrow> amount q)"
proof (induction rs)
  case (Cons rq rs)
  obtain r q where rq: "rq = (r, q)" by fastforce
  show ?case
  proof (cases "s = r")
    case True
    with Cons.prems have "map_of rs s = None" by (simp add: rq map_of_eq_None_iff)
    with True Cons show ?thesis by (simp add: rq)
  qed (use Cons in \<open>simp add: rq\<close>)
qed simp

lemma project_usage_amount:
  assumes "usage \<noteq> None" "gm_wf requests"
  shows "amount_at amount (project_usage Q usage requests) r = amount_at amount usage r + amount_at amount requests r"
    and "gm_get (project_usage Q usage requests) r \<noteq> None \<longleftrightarrow> gm_get usage r \<noteq> None \<or> gm_get requests r \<noteq> None"
proof -
  note fold_request_amount [OF assms(1), of "gm_list requests"]
  then show "amount_at amount (project_usage Q usage requests) r = amount_at amount usage r + amount_at amount requests r"
    using assms(2) by (simp add: project_usage_def sum_requests gm_wf_def amount_at_def [of amount requests] gm_get_def)
  show "gm_get (project_usage Q usage requests) r \<noteq> None \<longleftrightarrow> gm_get usage r \<noteq> None \<or> gm_get requests r \<noteq> None"
    using fold_request_amount [OF assms(1), of "gm_list requests"]
    by (simp add: project_usage_def gm_get_def [of requests] map_of_eq_None_iff)
qed

lemma exceeded_iff:
  assumes "gm_wf limits"
  shows "isQuotaExceeded Q usage limits \<longleftrightarrow>
    (\<exists>r limit. gm_get limits r = Some limit \<and> gm_get usage r \<noteq> None \<and> amount_at amount usage r > amount limit)"
  using assms
  by (auto simp: isQuotaExceeded_def list_ex_iff cmp_positive amount_at_def gm_get_def [of limits] gm_wf_def
      split: option.splits dest: map_of_SomeD) (force dest: map_of_is_SomeI)+

end

section \<open>Listing a cluster\<close>

text \<open>
  The objects of a cluster, as far as quotas see them, and the law of reading them: a list
  holds the selected objects, in any order, and changes nothing. The two kinds
  \<open>DaemonOrder\<close> and \<open>CronOrder\<close> are not defined in this repository; the code only counts
  them, so an object is its metadata.
\<close>

record 'q cluster =
  c_orders :: "'q order list"
  c_daemon_orders :: "object_meta list"
  c_cron_orders :: "object_meta list"
  c_tickets :: "'q ticket list"
  c_quotas :: "'q quota list"
  c_namespaces :: "namespace list"

locale quota_server =
  fixes C :: "('q, 'w) client" and snap :: "'w \<Rightarrow> 'q cluster"
  assumes read_orders: "run_state (ListOrders C opts) w = (ro, w') \<Longrightarrow> snap w' = snap w"
    and read_daemon_orders: "run_state (ListDaemonOrders C opts) w = (rd, w') \<Longrightarrow> snap w' = snap w"
    and read_cron_orders: "run_state (ListCronOrders C opts) w = (rc, w') \<Longrightarrow> snap w' = snap w"
    and read_tickets: "run_state (ListTickets C opts) w = (rt, w') \<Longrightarrow> snap w' = snap w"
    and read_quotas: "run_state (ListQuotas C opts) w = (rq, w') \<Longrightarrow> snap w' = snap w"
    and read_namespaces: "run_state (ListNamespaces C opts) w = (rn, w') \<Longrightarrow> snap w' = snap w"
    and read_namespace: "run_state (GetNamespace C nm) w = (r1, w') \<Longrightarrow> snap w' = snap w"
    and read_clock: "run_state (TimeNow C) w = (now, w') \<Longrightarrow> snap w' = snap w"
    and orders_listed: "run_state (ListOrders C opts) w = (Inr os, w') \<Longrightarrow>
        mset os = filter_mset (\<lambda>x. selects opts (order_meta x)) (mset (c_orders (snap w)))"
    and daemon_orders_listed: "run_state (ListDaemonOrders C opts) w = (Inr ds, w') \<Longrightarrow>
        mset ds = filter_mset (selects opts) (mset (c_daemon_orders (snap w)))"
    and cron_orders_listed: "run_state (ListCronOrders C opts) w = (Inr cs, w') \<Longrightarrow>
        mset cs = filter_mset (selects opts) (mset (c_cron_orders (snap w)))"
    and tickets_listed: "run_state (ListTickets C opts) w = (Inr ts, w') \<Longrightarrow>
        mset ts = filter_mset (\<lambda>x. selects opts (ticket_meta x)) (mset (c_tickets (snap w)))"
    and quotas_listed: "run_state (ListQuotas C opts) w = (Inr qs, w') \<Longrightarrow>
        mset qs = filter_mset (\<lambda>x. selects opts (quota_meta x)) (mset (c_quotas (snap w)))"
    and namespaces_listed: "run_state (ListNamespaces C opts) w = (Inr ns, w') \<Longrightarrow>
        mset ns = filter_mset (\<lambda>x. selects opts (namespace_meta x)) (mset (c_namespaces (snap w)))"
    and namespace_got: "run_state (GetNamespace C nm) w = (Inr n, w') \<Longrightarrow>
        n \<in> set (c_namespaces (snap w)) \<and> Name (namespace_meta n) = nm"
    and namespace_names: "distinct (map (\<lambda>n. Name (namespace_meta n)) (c_namespaces (snap w)))"

text \<open>An API server that is up: lists succeed, and so does reading a namespace that exists.\<close>

locale available_quota_server = quota_server +
  assumes orders_available: "\<exists>os w'. run_state (ListOrders C opts) w = (Inr os, w')"
    and daemon_orders_available: "\<exists>ds w'. run_state (ListDaemonOrders C opts) w = (Inr ds, w')"
    and cron_orders_available: "\<exists>cs w'. run_state (ListCronOrders C opts) w = (Inr cs, w')"
    and tickets_available: "\<exists>ts w'. run_state (ListTickets C opts) w = (Inr ts, w')"
    and quotas_available: "\<exists>qs w'. run_state (ListQuotas C opts) w = (Inr qs, w')"
    and namespaces_available: "\<exists>ns w'. run_state (ListNamespaces C opts) w = (Inr ns, w')"
    and namespace_available: "n \<in> set (c_namespaces (snap w)) \<Longrightarrow>
        \<exists>n' w'. run_state (GetNamespace C (Name (namespace_meta n))) w = (Inr n', w')"

context available_quota_server
begin

text \<open>A check of every stored quota, in any order, that only reads.\<close>

lemma quotas_decide:
  assumes "run_state (on_ok (ListQuotas C everything) (for_each f)) w = (r, w')"
    and step: "\<And>quota v rv v'. quota \<in> set (c_quotas (snap w)) \<Longrightarrow> snap v = snap w \<Longrightarrow>
      run_state (f quota) v = (rv, v') \<Longrightarrow> snap v' = snap w \<and> (rv = Inr () \<longleftrightarrow> P quota)"
  shows "snap w' = snap w \<and> (r = Inr () \<longleftrightarrow> (\<forall>quota \<in> set (c_quotas (snap w)). P quota))"
proof -
  obtain qs w1 where 1: "run_state (ListQuotas C everything) w = (Inr qs, w1)" using quotas_available by blast
  from quotas_listed [OF 1] have "mset qs = mset (c_quotas (snap w))" by (simp add: selects_def everything_def)
  then have qs: "set qs = set (c_quotas (snap w))" by (rule mset_eq_setD)
  from assms(1) 1 have run: "run_state (for_each f qs) w1 = (r, w')" by (simp add: run_on_ok)
  show ?thesis
    unfolding qs [symmetric]
  proof (rule for_each_decides [where J = "\<lambda>v. snap v = snap w", OF run])
    show "snap w1 = snap w" by (rule read_quotas [OF 1])
    show "snap v' = snap w \<and> (rv = Inr () \<longleftrightarrow> P quota)"
      if "quota \<in> set qs" "snap v = snap w" "run_state (f quota) v = (rv, v')" for quota v rv v'
      using that(1) unfolding qs by (rule step [OF _ that(2,3)])
  qed
qed

end

text \<open>The two contracts together, as the quota code uses them.\<close>

locale quota_control = quota_server C snap + quantity_laws Q amount
  for C :: "('q, 'w) client" and snap and Q :: "'q quantity_ops" and amount

locale available_quota_control = quota_control + available_quota_server

section \<open>Quantities as exact numbers\<close>

text \<open>
  An instance of the laws, which the witnesses compute with: the amount in \<open>10^-9\<close> units and
  the format. \<open>q_must_parse\<close> reads the notations this program writes, whole numbers with an
  optional suffix.
\<close>

type_synonym exact = "int \<times> quantity_format"

definition suffix_units :: "(string \<times> (int \<times> quantity_format)) list" where
  "suffix_units = [('''', (nano, DecimalSI)), (''m'', (1000000, DecimalSI)), (''k'', (1000 * nano, DecimalSI)),
     (''Mi'', (1024 * 1024 * nano, BinarySI)), (''Gi'', (1024 * 1024 * 1024 * nano, BinarySI))]"

definition exact_parse :: "string \<Rightarrow> exact" where
  "exact_parse s =
     (case map_of suffix_units (dropWhile is_digit s) of
        None \<Rightarrow> (0, DecimalSI)
      | Some (u, f) \<Rightarrow> (int (digits_val (takeWhile is_digit s)) * u, f))"

definition round_away :: "int \<Rightarrow> int" where
  "round_away a = (if 0 \<le> a then (a + (nano - 1)) div nano else - ((- a + (nano - 1)) div nano))"

definition exact_ops :: "exact quantity_ops" where
  "exact_ops =
     \<lparr>q_zero = (0, DecimalSI),
      q_add = (\<lambda>a b. (fst a + fst b, if fst a = 0 then snd b else snd a)),
      q_sub = (\<lambda>a b. (fst a - fst b, if fst a = 0 then snd b else snd a)),
      q_cmp = (\<lambda>a b. sgn (fst a - fst b)),
      q_equal = (\<lambda>a b. fst a = fst b),
      q_sign = (\<lambda>a. sgn (fst a)),
      q_is_zero = (\<lambda>a. fst a = 0),
      q_value = (\<lambda>a. of_int (round_away (fst a))),
      q_set = (\<lambda>a n. (sint n * nano, snd a)),
      q_format = snd,
      q_new = (\<lambda>n f. (sint n * nano, f)),
      q_must_parse = exact_parse,
      q_show = (\<lambda>a. show_int (fst a div nano)),
      q_show_list = (\<lambda>m. go_join '' '' (map (\<lambda>(r, q). r @ '':'' @ show_int (fst q div nano)) (gm_list m)))\<rparr>"

interpretation exact: quantity_laws exact_ops fst
proof unfold_locales
  show "sint (q_value exact_ops a) = (fst a + (nano - 1)) div nano"
    if "0 \<le> fst a" "(fst a + (nano - 1)) div nano < 2 ^ 63" for a
  proof -
    have "0 \<le> (fst a + (nano - 1)) div nano" using that(1) by (intro pos_imp_zdiv_nonneg_iff [THEN iffD2]) auto
    with that show ?thesis
      by (simp add: exact_ops_def round_away_def signed_of_int signed_take_bit_int_eq_self)
  qed
qed (auto simp: exact_ops_def sgn_if)

end
