(* ===== verification/MemApi.thy ===== *)
theory MemApi
  imports Resources
begin

text \<open>
  An in-memory Kubernetes API server: lists of objects per kind, resource versions with
  optimistic locking, a separate status subresource, finalizers and deletion timestamps,
  label selection, and a clock that advances on every reading. It instantiates the client
  record, satisfies the laws of \<open>Client\<close>, and is the environment the witnesses run in.
\<close>

section \<open>Objects of one kind\<close>

record 'o kind =
  kmeta :: "'o \<Rightarrow> object_meta"
  kset_meta :: "object_meta \<Rightarrow> 'o \<Rightarrow> 'o"
  kset_status :: "'o \<Rightarrow> 'o \<Rightarrow> 'o" \<comment> \<open>the second object with the status of the first\<close>
  kfresh :: "'o \<Rightarrow> 'o" \<comment> \<open>the object with the status of a new one\<close>
  kstored :: "'o \<Rightarrow> 'o" \<comment> \<open>the object with its status as the store keeps it\<close>

definition kkey :: "'o kind \<Rightarrow> 'o \<Rightarrow> object_key" where
  "kkey K ob = meta_key (kmeta K ob)"

fun dedup :: "('a \<Rightarrow> 'k) \<Rightarrow> 'a list \<Rightarrow> 'a list" where
  "dedup key [] = []"
| "dedup key (x # xs) = x # filter (\<lambda>y. key y \<noteq> key x) (dedup key xs)"

definition store_find :: "'o kind \<Rightarrow> object_key \<Rightarrow> 'o list \<Rightarrow> 'o option" where
  "store_find K k xs = find (\<lambda>ob. kkey K ob = k) xs"

definition store_list :: "'o kind \<Rightarrow> list_options \<Rightarrow> 'o list \<Rightarrow> 'o list" where
  "store_list K opts xs = filter (\<lambda>ob. selects opts (kmeta K ob)) (dedup (kkey K) xs)"

definition store_replace :: "'o kind \<Rightarrow> 'o \<Rightarrow> 'o list \<Rightarrow> 'o list" where
  "store_replace K ob xs = map (\<lambda>x. if kkey K x = kkey K ob then ob else x) xs"

definition store_remove :: "'o kind \<Rightarrow> object_key \<Rightarrow> 'o list \<Rightarrow> 'o list" where
  "store_remove K k xs = filter (\<lambda>x. kkey K x \<noteq> k) xs"

definition not_found :: go_error where "not_found = ApiError ReasonNotFound ''not found''"
definition already_exists :: go_error where "already_exists = ApiError ReasonAlreadyExists ''already exists''"
definition conflict :: go_error where "conflict = ApiError ReasonConflict ''the object has been modified''"

definition store_create :: "'o kind \<Rightarrow> nat \<Rightarrow> 'o \<Rightarrow> 'o list \<Rightarrow> (go_error + 'o) \<times> 'o list" where
  "store_create K n ob xs =
     (case store_find K (kkey K ob) xs of
        Some _ \<Rightarrow> (Inl already_exists, xs)
      | None \<Rightarrow>
          let m = (kmeta K ob)\<lparr>UID := show_nat n, ResourceVersion := show_nat n, Generation := 1\<rparr>;
              ob' = kfresh K (kset_meta K m ob)
          in (Inr ob', xs @ [ob']))"

definition bump :: "nat \<Rightarrow> object_meta \<Rightarrow> object_meta" where
  "bump n m = m\<lparr>ResourceVersion := show_nat n\<rparr>"

definition stale :: "object_meta \<Rightarrow> object_meta \<Rightarrow> bool" where
  "stale old m \<longleftrightarrow> ResourceVersion m \<noteq> '''' \<and> ResourceVersion m \<noteq> ResourceVersion old"

definition store_update :: "'o kind \<Rightarrow> nat \<Rightarrow> 'o \<Rightarrow> 'o list \<Rightarrow> (go_error + 'o) \<times> 'o list" where
  "store_update K n ob xs =
     (case store_find K (kkey K ob) xs of
        None \<Rightarrow> (Inl not_found, xs)
      | Some old \<Rightarrow>
          if stale (kmeta K old) (kmeta K ob) then (Inl conflict, xs)
          else
            let m = bump n ((kmeta K ob)\<lparr>UID := UID (kmeta K old),
                      DeletionTimestamp := DeletionTimestamp (kmeta K old)\<rparr>);
                ob' = kset_status K old (kset_meta K m ob)
            in if DeletionTimestamp m \<noteq> None \<and> Finalizers m = []
               then (Inr ob', store_remove K (kkey K ob) xs)
               else (Inr ob', store_replace K ob' xs))"

definition store_update_status :: "'o kind \<Rightarrow> nat \<Rightarrow> 'o \<Rightarrow> 'o list \<Rightarrow> (go_error + 'o) \<times> 'o list" where
  "store_update_status K n ob xs =
     (case store_find K (kkey K ob) xs of
        None \<Rightarrow> (Inl not_found, xs)
      | Some old \<Rightarrow>
          if stale (kmeta K old) (kmeta K ob) then (Inl conflict, xs)
          else
            let ob' = kset_status K (kstored K ob) (kset_meta K (bump n (kmeta K old)) old)
            in (Inr ob', store_replace K ob' xs))"

definition store_delete :: "'o kind \<Rightarrow> nat \<Rightarrow> time \<Rightarrow> object_key \<Rightarrow> 'o list \<Rightarrow> (go_error + unit) \<times> 'o list" where
  "store_delete K n now k xs =
     (case store_find K k xs of
        None \<Rightarrow> (Inl not_found, xs)
      | Some old \<Rightarrow>
          if Finalizers (kmeta K old) = [] then (Inr (), store_remove K k xs)
          else
            let m = (case DeletionTimestamp (kmeta K old) of
                       None \<Rightarrow> bump n ((kmeta K old)\<lparr>DeletionTimestamp := Some now\<rparr>)
                     | Some _ \<Rightarrow> kmeta K old)
            in (Inr (), store_replace K (kset_meta K m old) xs))"

text \<open>The laws of a kind: its accessors behave like record fields.\<close>

definition kind_ok :: "'o kind \<Rightarrow> bool" where
  "kind_ok K \<longleftrightarrow>
     (\<forall>m ob. kmeta K (kset_meta K m ob) = m) \<and>
     (\<forall>a b. kmeta K (kset_status K a b) = kmeta K b) \<and>
     (\<forall>ob. kmeta K (kfresh K ob) = kmeta K ob)"

lemma find_filter_weaker: "(\<And>y. P y \<Longrightarrow> Q y) \<Longrightarrow> find P (filter Q ys) = find P ys"
  by (induction ys) auto

lemma find_dedup: "find (\<lambda>x. key x = k) (dedup key xs) = find (\<lambda>x. key x = k) xs"
proof (induction xs)
  case (Cons a xs)
  have "find (\<lambda>x. key x = k) (filter (\<lambda>y. key y \<noteq> key a) (dedup key xs)) =
      find (\<lambda>x. key x = k) (dedup key xs)" if "key a \<noteq> k"
    using that by (intro find_filter_weaker) auto
  with Cons show ?case by simp
qed simp

lemma distinct_dedup: "distinct (map key (dedup key xs))"
  by (induction xs) (auto simp: distinct_map_filter)

lemma set_dedup: "set (dedup key xs) = {x. find (\<lambda>y. key y = key x) xs = Some x}"
  by (induction xs) auto

lemma store_find_key: "store_find K k xs = Some ob \<Longrightarrow> kkey K ob = k"
  by (auto simp: store_find_def find_Some_iff)

lemma finite_store: "finite (dom (\<lambda>k. store_find K k xs))"
proof (rule finite_subset)
  show "dom (\<lambda>k. store_find K k xs) \<subseteq> kkey K ` set xs"
    by (auto dest!: store_find_key simp: store_find_def find_Some_iff)
qed simp

lemma store_list_spec:
  "distinct (map (kkey K) (store_list K opts xs)) \<and>
   set (store_list K opts xs) = {ob. \<exists>k. store_find K k xs = Some ob \<and> selects opts (kmeta K ob)}"
proof
  show "distinct (map (kkey K) (store_list K opts xs))"
    unfolding store_list_def by (rule distinct_map_filter) (rule distinct_dedup)
  show "set (store_list K opts xs) = {ob. \<exists>k. store_find K k xs = Some ob \<and> selects opts (kmeta K ob)}"
    by (auto simp: store_list_def set_dedup store_find_def dest: store_find_key [unfolded store_find_def])
qed

lemma find_append: "find P (xs @ ys) = (case find P xs of None \<Rightarrow> find P ys | Some x \<Rightarrow> Some x)"
  by (induction xs) auto

lemma store_find_replace:
  assumes "store_find K (kkey K ob) xs = Some old"
  shows "(\<lambda>k. store_find K k (store_replace K ob xs)) = (\<lambda>k. store_find K k xs)(kkey K ob \<mapsto> ob)"
proof
  have same: "store_find K (kkey K ob) (store_replace K ob ys) = Some ob"
    if "store_find K (kkey K ob) ys = Some old" for ys
    using that by (induction ys) (auto simp: store_find_def store_replace_def split: if_splits)
  have other: "store_find K k (store_replace K ob ys) = store_find K k ys" if "k \<noteq> kkey K ob" for k ys
    using that by (induction ys) (auto simp: store_find_def store_replace_def)
  show "store_find K k (store_replace K ob xs) = ((\<lambda>k. store_find K k xs)(kkey K ob \<mapsto> ob)) k" for k
    using same [OF assms] other [of k xs] by simp
qed

lemma store_find_remove:
  "(\<lambda>k. store_find K k (store_remove K j xs)) = (\<lambda>k. store_find K k xs)(j := None)"
  by (rule ext, induction xs) (auto simp: store_find_def store_remove_def)

lemma store_find_snoc:
  "store_find K (kkey K ob) xs = None \<Longrightarrow>
   (\<lambda>k. store_find K k (xs @ [ob])) = (\<lambda>k. store_find K k xs)(kkey K ob \<mapsto> ob)"
  by (rule ext) (auto simp: store_find_def find_append split: option.splits)

lemma kkey_simps:
  assumes "kind_ok K"
  shows "kmeta K (kset_meta K m ob) = m" "kmeta K (kset_status K a b) = kmeta K b"
    "kmeta K (kfresh K ob) = kmeta K ob"
  using assms by (simp_all add: kind_ok_def)

section \<open>The world and its client\<close>

record 'q mem =
  m_orders :: "'q order list"
  m_tickets :: "'q ticket list"
  m_pods :: "'q pod list"
  m_quotas :: "'q quota list"
  m_namespaces :: "namespace list"
  m_clock :: time
  m_next :: nat
  m_counters :: "(string \<times> string list) list"
  m_gauges :: "(string \<times> string list \<times> go_float) list"
  m_observed :: "(string \<times> string list \<times> time) list"

definition empty_mem :: "'q mem" where
  "empty_mem = \<lparr>m_orders = [], m_tickets = [], m_pods = [], m_quotas = [], m_namespaces = [],
     m_clock = 0, m_next = 1, m_counters = [], m_gauges = [], m_observed = []\<rparr>"

definition order_kind :: "'q order kind" where
  "order_kind = \<lparr>kmeta = order_meta, kset_meta = (\<lambda>m ob. ob\<lparr>order_meta := m\<rparr>),
     kset_status = (\<lambda>a b. b\<lparr>order_status := order_status a\<rparr>), kfresh = (\<lambda>ob. ob), kstored = (\<lambda>ob. ob)\<rparr>"

definition ticket_kind :: "'q ticket kind" where
  "ticket_kind = \<lparr>kmeta = ticket_meta, kset_meta = (\<lambda>m ob. ob\<lparr>ticket_meta := m\<rparr>),
     kset_status = (\<lambda>a b. b\<lparr>ticket_status := ticket_status a\<rparr>),
     kfresh = (\<lambda>ob. ob\<lparr>ticket_status := empty_ticket_status\<rparr>),
     kstored = (\<lambda>ob. ob\<lparr>ticket_status := stored_status (ticket_status ob)\<rparr>)\<rparr>"

definition pod_kind :: "'q pod kind" where
  "pod_kind = \<lparr>kmeta = pod_meta, kset_meta = (\<lambda>m ob. ob\<lparr>pod_meta := m\<rparr>),
     kset_status = (\<lambda>a b. b\<lparr>pod_phase := pod_phase a\<rparr>), kfresh = (\<lambda>ob. ob\<lparr>pod_phase := PodPending\<rparr>),
     kstored = (\<lambda>ob. ob)\<rparr>"

definition quota_kind :: "'q quota kind" where
  "quota_kind = \<lparr>kmeta = quota_meta, kset_meta = (\<lambda>m ob. ob\<lparr>quota_meta := m\<rparr>),
     kset_status = (\<lambda>a b. b\<lparr>quota_status := quota_status a\<rparr>), kfresh = (\<lambda>ob. ob), kstored = (\<lambda>ob. ob)\<rparr>"

definition namespace_kind :: "namespace kind" where
  "namespace_kind = \<lparr>kmeta = namespace_meta, kset_meta = (\<lambda>m ob. ob\<lparr>namespace_meta := m\<rparr>),
     kset_status = (\<lambda>a b. b), kfresh = (\<lambda>ob. ob), kstored = (\<lambda>ob. ob)\<rparr>"

lemmas kind_defs = order_kind_def ticket_kind_def pod_kind_def quota_kind_def namespace_kind_def

lemma kinds_ok [simp]:
  "kind_ok order_kind" "kind_ok ticket_kind" "kind_ok pod_kind" "kind_ok quota_kind" "kind_ok namespace_kind"
  by (simp_all add: kind_ok_def kind_defs)

definition mem_read :: "('q mem \<Rightarrow> 'a) \<Rightarrow> ('q mem, 'a) state" where
  "mem_read f = State (\<lambda>w. (f w, w))"

definition found :: "'a option \<Rightarrow> go_error + 'a" where
  "found x = (case x of None \<Rightarrow> Inl not_found | Some y \<Rightarrow> Inr y)"

text \<open>A write to one list, which also moves the resource version counter.\<close>

definition mem_write ::
  "('q mem \<Rightarrow> 'o list) \<Rightarrow> ('o list \<Rightarrow> 'q mem \<Rightarrow> 'q mem) \<Rightarrow> (nat \<Rightarrow> time \<Rightarrow> 'o list \<Rightarrow> 'r \<times> 'o list) \<Rightarrow>
   ('q mem, 'r) state" where
  "mem_write sel upd f = State (\<lambda>w.
     case f (m_next w) (m_clock w) (sel w) of (r, xs) \<Rightarrow> (r, upd xs (w\<lparr>m_next := m_next w + 1\<rparr>)))"

abbreviation "put_orders xs \<equiv> m_orders_update (\<lambda>_. xs)"
abbreviation "put_tickets xs \<equiv> m_tickets_update (\<lambda>_. xs)"
abbreviation "put_pods xs \<equiv> m_pods_update (\<lambda>_. xs)"
abbreviation "put_quotas xs \<equiv> m_quotas_update (\<lambda>_. xs)"

definition mem_selector :: "label_selector \<Rightarrow> go_error + selector" where
  "mem_selector sel =
     (if MatchExpressions sel = []
      then Inr (\<lambda>ls. list_all (\<lambda>(k, v). gm_get ls k = Some v) (gm_list (MatchLabels sel)))
      else Inl (Errorf ''unsupported selector''))"

text \<open>A namespace is a cluster-scoped object: it has no namespace itself.\<close>

definition cluster_scoped :: "namespace list \<Rightarrow> namespace list" where
  "cluster_scoped xs = filter (\<lambda>n. Namespace (namespace_meta n) = '''') xs"

definition mem_client :: "('q, 'q mem) client" where
  "mem_client = \<lparr>
     GetOrder = (\<lambda>ns nm. mem_read (\<lambda>w. found (store_find order_kind (Key ns nm) (m_orders w)))),
     ListOrders = (\<lambda>opts. mem_read (\<lambda>w. Inr (store_list order_kind opts (m_orders w)))),
     UpdateOrder = (\<lambda>ob. mem_write m_orders put_orders (\<lambda>n t. store_update order_kind n ob)),
     UpdateOrderStatus = (\<lambda>ob. mem_write m_orders put_orders (\<lambda>n t. store_update_status order_kind n ob)),
     GetTicket = (\<lambda>ns nm. mem_read (\<lambda>w. found (store_find ticket_kind (Key ns nm) (m_tickets w)))),
     ListTickets = (\<lambda>opts. mem_read (\<lambda>w. Inr (store_list ticket_kind opts (m_tickets w)))),
     CreateTicket = (\<lambda>ob. mem_write m_tickets put_tickets (\<lambda>n t. store_create ticket_kind n ob)),
     UpdateTicket = (\<lambda>ob. mem_write m_tickets put_tickets (\<lambda>n t. store_update ticket_kind n ob)),
     UpdateTicketStatus = (\<lambda>ob. mem_write m_tickets put_tickets (\<lambda>n t. store_update_status ticket_kind n ob)),
     DeleteTicket = (\<lambda>ob. mem_write m_tickets put_tickets (\<lambda>n t. store_delete ticket_kind n t (ticket_key ob))),
     GetPod = (\<lambda>ns nm. mem_read (\<lambda>w. found (store_find pod_kind (Key ns nm) (m_pods w)))),
     CreatePod = (\<lambda>ob. mem_write m_pods put_pods (\<lambda>n t. store_create pod_kind n ob)),
     DeletePod = (\<lambda>ns nm. mem_write m_pods put_pods (\<lambda>n t. store_delete pod_kind n t (Key ns nm))),
     GetQuota = (\<lambda>ns nm. mem_read (\<lambda>w. found (store_find quota_kind (Key ns nm) (m_quotas w)))),
     ListQuotas = (\<lambda>opts. mem_read (\<lambda>w. Inr (store_list quota_kind opts (m_quotas w)))),
     UpdateQuota = (\<lambda>ob. mem_write m_quotas put_quotas (\<lambda>n t. store_update quota_kind n ob)),
     UpdateQuotaStatus = (\<lambda>ob. mem_write m_quotas put_quotas (\<lambda>n t. store_update_status quota_kind n ob)),
     GetNamespace = (\<lambda>nm. mem_read (\<lambda>w. found (store_find namespace_kind (Key '''' nm) (cluster_scoped (m_namespaces w))))),
     ListNamespaces = (\<lambda>opts. mem_read (\<lambda>w. Inr (store_list namespace_kind opts (cluster_scoped (m_namespaces w))))),
     ListDaemonOrders = (\<lambda>opts. mem_read (\<lambda>w. Inr [])),
     ListCronOrders = (\<lambda>opts. mem_read (\<lambda>w. Inr [])),
     LabelSelectorAsSelector = mem_selector,
     SetControllerReference = (\<lambda>knd owner m. Inr (m\<lparr>OwnerReferences := OwnerReferences m @
        [\<lparr>owner_kind = knd, owner_name = Name owner, owner_uid = UID owner, owner_controller = True\<rparr>]\<rparr>)),
     ContainsFinalizer = (\<lambda>m f. f \<in> set (Finalizers m)),
     AddFinalizer = (\<lambda>m f. if f \<in> set (Finalizers m) then m else m\<lparr>Finalizers := Finalizers m @ [f]\<rparr>),
     RemoveFinalizer = (\<lambda>m f. m\<lparr>Finalizers := filter (\<lambda>g. g \<noteq> f) (Finalizers m)\<rparr>),
     TimeNow = State (\<lambda>w. (m_clock w, w\<lparr>m_clock := m_clock w + 1\<rparr>)),
     CounterInc = (\<lambda>nm ls. State (\<lambda>w. ((), w\<lparr>m_counters := m_counters w @ [(nm, ls)]\<rparr>))),
     GaugeSet = (\<lambda>nm ls x. State (\<lambda>w. ((), w\<lparr>m_gauges := m_gauges w @ [(nm, ls, x)]\<rparr>))),
     HistogramObserve = (\<lambda>nm ls d. State (\<lambda>w. ((), w\<lparr>m_observed := m_observed w @ [(nm, ls, d)]\<rparr>)))
   \<rparr>"

lemma run_mem_read [simp]: "run_state (mem_read f) w = (f w, w)"
  by (simp add: mem_read_def)

lemma run_mem_write:
  "run_state (mem_write sel upd f) w =
     (case f (m_next w) (m_clock w) (sel w) of (r, xs) \<Rightarrow> (r, upd xs (w\<lparr>m_next := m_next w + 1\<rparr>)))"
  by (simp add: mem_write_def)

definition ticket_view :: "'q mem \<Rightarrow> object_key \<Rightarrow> 'q ticket option" where
  "ticket_view w k = store_find ticket_kind k (m_tickets w)"

lemma ticket_view_eq: "ticket_view w = (\<lambda>k. store_find ticket_kind k (m_tickets w))"
  by (simp add: ticket_view_def fun_eq_iff)

lemma ticket_kkey [simp]: "kkey ticket_kind = ticket_key" "kmeta ticket_kind = ticket_meta"
  "kset_meta ticket_kind m t = t\<lparr>ticket_meta := m\<rparr>"
  by (simp_all add: kkey_def ticket_kind_def fun_eq_iff)

lemma mem_create_ticket:
  "run_state (CreateTicket mem_client t) w = (r, w') \<Longrightarrow>
     (ticket_view w (ticket_key t) \<noteq> None \<and> r = Inl already_exists \<and> ticket_view w' = ticket_view w) \<or>
     (ticket_view w (ticket_key t) = None \<and>
      (\<exists>s. r = Inr s \<and> ticket_view w' = (ticket_view w)(ticket_key t \<mapsto> s) \<and>
         same_identity (ticket_meta t) (ticket_meta s) \<and> Phase (ticket_status s) = NoPhase))"
  using store_find_snoc [of ticket_kind _ "m_tickets w"]
  by (auto simp: mem_client_def run_mem_write store_create_def ticket_view_eq Let_def meta_key_def
      ticket_kind_def kkey_def same_identity_def empty_ticket_status_def
      split: option.splits)

lemma mem_delete_ticket:
  assumes "run_state (DeleteTicket mem_client t) w = (r, w')"
  shows "(ticket_view w (ticket_key t) = None \<and> r = Inl not_found \<and> ticket_view w' = ticket_view w) \<or>
     (\<exists>s. ticket_view w (ticket_key t) = Some s \<and> r = Inr () \<and>
        (ticket_view w' = (ticket_view w)(ticket_key t := None) \<or>
         (\<exists>s'. ticket_view w' = (ticket_view w)(ticket_key t \<mapsto> s') \<and>
            DeletionTimestamp (ticket_meta s') \<noteq> None \<and> same_identity (ticket_meta s) (ticket_meta s') \<and>
            ticket_status s' = ticket_status s)))"
proof (cases "store_find ticket_kind (ticket_key t) (m_tickets w)")
  case None
  with assms show ?thesis
    by (auto simp: mem_client_def run_mem_write store_delete_def ticket_view_eq)
next
  case (Some s)
  show ?thesis
  proof (cases "Finalizers (ticket_meta s) = []")
    case True
    with Some assms show ?thesis
      by (simp add: mem_client_def run_mem_write store_delete_def ticket_view_eq) (auto simp: store_find_remove)
  next
    case False
    define m where "m = (case DeletionTimestamp (ticket_meta s) of
        None \<Rightarrow> bump (m_next w) ((ticket_meta s)\<lparr>DeletionTimestamp := Some (m_clock w)\<rparr>)
      | Some _ \<Rightarrow> ticket_meta s)"
    have m: "DeletionTimestamp m \<noteq> None" "same_identity (ticket_meta s) m"
      by (auto simp: m_def bump_def same_identity_def split: option.split)
    have key: "ticket_key s = ticket_key t" using store_find_key [OF Some] by simp
    have key': "kkey ticket_kind (s\<lparr>ticket_meta := m\<rparr>) = ticket_key t"
      using same_identity_key [OF m(2)] key by simp
    have "m_tickets w' = store_replace ticket_kind (s\<lparr>ticket_meta := m\<rparr>) (m_tickets w)" "r = Inr ()"
      using assms Some False
      by (auto simp: mem_client_def run_mem_write store_delete_def m_def cong: option.case_cong)
    with store_find_replace [of ticket_kind "s\<lparr>ticket_meta := m\<rparr>" "m_tickets w"] Some m key'
    show ?thesis by (auto simp: ticket_view_eq)
  qed
qed

lemma is_not_found_simps [simp]:
  "is_not_found not_found" "\<not> is_not_found already_exists" "is_already_exists already_exists"
  by (simp_all add: is_not_found_def is_already_exists_def not_found_def already_exists_def)

text \<open>The in-memory server keeps the promises of the API, is always up and lets every ticket in.\<close>

interpretation mem: available_ticket_store mem_client ticket_view "\<lambda>_ _. True"
proof unfold_locales
  show "ticket_view w k = Some t \<Longrightarrow> ticket_key t = k" for w :: "'q mem" and k t
    using store_find_key [of ticket_kind k "m_tickets w" t] by (simp add: ticket_view_def)
  show "finite (dom (ticket_view w))" for w :: "'q mem"
    by (simp add: ticket_view_eq finite_store)
  show "run_state (ListTickets mem_client opts) w = (r, w') \<Longrightarrow> ticket_view w' = ticket_view w"
    for opts and w w' :: "'q mem" and r
    by (auto simp: mem_client_def)
  show "run_state (ListTickets mem_client opts) w = (Inr ts, w') \<Longrightarrow>
      distinct (map ticket_key ts) \<and> set ts = {t. \<exists>k. ticket_view w k = Some t \<and> selects opts (ticket_meta t)}"
    for opts and w w' :: "'q mem" and ts
    using store_list_spec [of ticket_kind opts "m_tickets w"] by (auto simp: mem_client_def ticket_view_def)
  show "\<exists>ts w'. run_state (ListTickets mem_client opts) w = (Inr ts, w')" for opts and w :: "'q mem"
    by (simp add: mem_client_def)
  fix t :: "'q ticket" and w :: "'q mem"
  show "run_state (CreateTicket mem_client t) w = (Inr t', w') \<Longrightarrow>
      ticket_view w (ticket_key t) = None \<and>
      (\<exists>s. ticket_view w' = (ticket_view w)(ticket_key t \<mapsto> s) \<and>
         same_identity (ticket_meta t) (ticket_meta s) \<and> Phase (ticket_status s) = NoPhase)" for t' w'
    by (auto dest: mem_create_ticket)
  show "run_state (CreateTicket mem_client t) w = (Inl e, w') \<Longrightarrow> ticket_view w' = ticket_view w" for e w'
    by (auto dest: mem_create_ticket)
  show "ticket_view w (ticket_key t) = None \<Longrightarrow> \<exists>t' w'. run_state (CreateTicket mem_client t) w = (Inr t', w')"
    using mem_create_ticket [of t w "fst (run_state (CreateTicket mem_client t) w)"
        "snd (run_state (CreateTicket mem_client t) w)"]
    by (metis prod.collapse)
  show "run_state (DeleteTicket mem_client t) w = (Inr u, w') \<Longrightarrow>
      \<exists>s. ticket_view w (ticket_key t) = Some s \<and>
        (ticket_view w' = (ticket_view w)(ticket_key t := None) \<or>
         (\<exists>s'. ticket_view w' = (ticket_view w)(ticket_key t \<mapsto> s') \<and>
            DeletionTimestamp (ticket_meta s') \<noteq> None \<and> same_identity (ticket_meta s) (ticket_meta s') \<and>
            ticket_status s' = ticket_status s))" for u w'
    by (drule mem_delete_ticket) simp
  show "run_state (DeleteTicket mem_client t) w = (Inl e, w') \<Longrightarrow> ticket_view w' = ticket_view w" for e w'
    by (auto dest: mem_delete_ticket)
  show "run_state (DeleteTicket mem_client t) w = (Inl e, w') \<Longrightarrow> is_not_found e \<Longrightarrow>
      ticket_view w (ticket_key t) = None" for e w'
    by (auto dest: mem_delete_ticket)
qed (auto simp: mem_client_def ticket_view_def run_mem_write same_identity_def
    split: prod.splits)


section \<open>Tickets and pods together\<close>

text \<open>What one write does to the objects of a kind, by key.\<close>

lemma store_create_view:
  assumes K: "kind_ok K" and r: "store_create K n ob xs = (r, ys)"
  shows "case r of
      Inl e \<Rightarrow> e = already_exists \<and> store_find K (kkey K ob) xs \<noteq> None \<and> ys = xs
    | Inr s \<Rightarrow> store_find K (kkey K ob) xs = None \<and> same_identity (kmeta K ob) (kmeta K s) \<and>
        (\<lambda>k. store_find K k ys) = (\<lambda>k. store_find K k xs)(kkey K ob \<mapsto> s)"
proof (cases "store_find K (kkey K ob) xs")
  case None
  define s where "s = kfresh K (kset_meta K
    ((kmeta K ob)\<lparr>UID := show_nat n, ResourceVersion := show_nat n, Generation := 1\<rparr>) ob)"
  have s: "same_identity (kmeta K ob) (kmeta K s)"
    by (simp add: s_def kkey_simps [OF K] same_identity_def)
  then have key: "kkey K s = kkey K ob" by (simp add: kkey_def same_identity_key)
  have "r = Inr s" "ys = xs @ [s]"
    using r None by (simp_all add: store_create_def s_def Let_def)
  with s key None store_find_snoc [of K s xs] show ?thesis by simp
next
  case (Some _)
  with r show ?thesis by (auto simp: store_create_def)
qed

lemma store_delete_view:
  assumes K: "kind_ok K" and r: "store_delete K n now k xs = (r, ys)"
  shows "case r of
      Inl e \<Rightarrow> e = not_found \<and> store_find K k xs = None \<and> ys = xs
    | Inr _ \<Rightarrow> (\<forall>j. j \<noteq> k \<longrightarrow> store_find K j ys = store_find K j xs) \<and>
        (\<forall>s. store_find K k ys = Some s \<longrightarrow> DeletionTimestamp (kmeta K s) \<noteq> None)"
proof (cases "store_find K k xs")
  case None
  with r show ?thesis by (auto simp: store_delete_def)
next
  case (Some old)
  show ?thesis
  proof (cases "Finalizers (kmeta K old) = []")
    case True
    with r Some store_find_remove [of K k xs] show ?thesis
      by (auto simp: store_delete_def fun_eq_iff)
  next
    case False
    define m where "m = (case DeletionTimestamp (kmeta K old) of
        None \<Rightarrow> bump n ((kmeta K old)\<lparr>DeletionTimestamp := Some now\<rparr>) | Some _ \<Rightarrow> kmeta K old)"
    have m: "DeletionTimestamp m \<noteq> None" "same_identity (kmeta K old) m"
      by (auto simp: m_def bump_def same_identity_def split: option.split)
    have key: "kkey K (kset_meta K m old) = k"
      using store_find_key [OF Some] same_identity_key [OF m(2)] by (simp add: kkey_def kkey_simps [OF K])
    have "r = Inr ()" "ys = store_replace K (kset_meta K m old) xs"
      using r Some False by (auto simp: store_delete_def m_def cong: option.case_cong)
    with store_find_replace [of K "kset_meta K m old" xs] Some m(1) key show ?thesis
      by (auto simp: fun_eq_iff kkey_simps [OF K])
  qed
qed

lemma store_update_status_view:
  assumes K: "kind_ok K" and r: "store_update_status K n ob xs = (r, ys)"
  shows "case r of
      Inl e \<Rightarrow> ys = xs
    | Inr s \<Rightarrow> \<exists>old. store_find K (kkey K ob) xs = Some old \<and>
        s = kset_status K (kstored K ob) (kset_meta K (bump n (kmeta K old)) old) \<and>
        (\<lambda>k. store_find K k ys) = (\<lambda>k. store_find K k xs)(kkey K ob \<mapsto> s)"
proof (cases "store_find K (kkey K ob) xs")
  case None
  with r show ?thesis by (auto simp: store_update_status_def)
next
  case (Some old)
  let ?s = "kset_status K (kstored K ob) (kset_meta K (bump n (kmeta K old)) old)"
  have key: "kkey K ?s = kkey K ob"
    using store_find_key [OF Some] by (simp add: kkey_def kkey_simps [OF K] bump_def meta_key_def)
  with r Some store_find_replace [of K ?s xs old] show ?thesis
    by (auto simp: store_update_status_def Let_def split: if_splits)
qed

lemma store_update_view:
  assumes K: "kind_ok K" and r: "store_update K n ob xs = (r, ys)"
  shows "case r of
      Inl e \<Rightarrow> ys = xs
    | Inr s \<Rightarrow> \<exists>old m. store_find K (kkey K ob) xs = Some old \<and> s = kset_status K old (kset_meta K m ob) \<and>
        ((\<lambda>k. store_find K k ys) = (\<lambda>k. store_find K k xs)(kkey K ob := None) \<or>
         (\<lambda>k. store_find K k ys) = (\<lambda>k. store_find K k xs)(kkey K ob \<mapsto> s))"
proof (cases "store_find K (kkey K ob) xs")
  case None
  with r show ?thesis by (auto simp: store_update_def)
next
  case (Some old)
  define m where "m = bump n ((kmeta K ob)\<lparr>UID := UID (kmeta K old), DeletionTimestamp := DeletionTimestamp (kmeta K old)\<rparr>)"
  let ?s = "kset_status K old (kset_meta K m ob)"
  have key: "kkey K ?s = kkey K ob"
    by (simp add: kkey_def kkey_simps [OF K] bump_def meta_key_def m_def)
  with r Some store_find_replace [of K ?s xs old] store_find_remove [of K "kkey K ob" xs] show ?thesis
    by (auto simp: store_update_def Let_def m_def [symmetric] split: if_splits)
qed

definition pod_view :: "'q mem \<Rightarrow> object_key \<Rightarrow> 'q pod option" where
  "pod_view w k = store_find pod_kind k (m_pods w)"

lemma pod_view_eq: "pod_view w = (\<lambda>k. store_find pod_kind k (m_pods w))"
  by (simp add: pod_view_def fun_eq_iff)

lemma pod_kkey [simp]: "kkey pod_kind p = meta_key (pod_meta p)" "kmeta pod_kind = pod_meta"
  by (simp_all add: kkey_def pod_kind_def)

lemma mem_create_pod:
  "run_state (CreatePod mem_client p) w = (r, w') \<Longrightarrow> ticket_view w' = ticket_view w \<and>
     (case r of
        Inl e \<Rightarrow> e = already_exists \<and> pod_view w (meta_key (pod_meta p)) \<noteq> None \<and> pod_view w' = pod_view w
      | Inr s \<Rightarrow> pod_view w (meta_key (pod_meta p)) = None \<and> same_identity (pod_meta p) (pod_meta s) \<and>
          pod_view w' = (pod_view w)(meta_key (pod_meta p) \<mapsto> s))"
  using store_create_view [of pod_kind "m_next w" p "m_pods w"]
  by (auto simp: mem_client_def run_mem_write pod_view_eq ticket_view_eq split: prod.splits sum.splits)

lemma mem_delete_pod:
  "run_state (DeletePod mem_client ns nm) w = (r, w') \<Longrightarrow> ticket_view w' = ticket_view w \<and>
     (case r of
        Inl e \<Rightarrow> e = not_found \<and> pod_view w (Key ns nm) = None \<and> pod_view w' = pod_view w
      | Inr _ \<Rightarrow> (\<forall>k. k \<noteq> Key ns nm \<longrightarrow> pod_view w' k = pod_view w k) \<and>
          (\<forall>p. pod_view w' (Key ns nm) = Some p \<longrightarrow> DeletionTimestamp (pod_meta p) \<noteq> None))"
  using store_delete_view [of pod_kind "m_next w" "m_clock w" "Key ns nm" "m_pods w"]
  by (auto simp: mem_client_def run_mem_write pod_view_eq ticket_view_eq split: prod.splits sum.splits)

lemma ticket_kind_simps [simp]:
  "kset_status ticket_kind a b = b\<lparr>ticket_status := ticket_status a\<rparr>"
  "kstored ticket_kind a = a\<lparr>ticket_status := stored_status (ticket_status a)\<rparr>"
  by (simp_all add: ticket_kind_def)

lemma mem_update_status:
  "run_state (UpdateTicketStatus mem_client t) w = (r, w') \<Longrightarrow> pod_view w' = pod_view w \<and>
     (case r of
        Inl e \<Rightarrow> ticket_view w' = ticket_view w
      | Inr s \<Rightarrow> \<exists>old. ticket_view w (ticket_key t) = Some old \<and>
          s = old\<lparr>ticket_meta := bump (m_next w) (ticket_meta old), ticket_status := stored_status (ticket_status t)\<rparr> \<and>
          ticket_view w' = (ticket_view w)(ticket_key t \<mapsto> s))"
  using store_update_status_view [of ticket_kind "m_next w" t "m_tickets w"]
  by (auto simp: mem_client_def run_mem_write pod_view_eq ticket_view_eq split: prod.splits sum.splits)

lemma mem_update_ticket:
  "run_state (UpdateTicket mem_client t) w = (r, w') \<Longrightarrow> pod_view w' = pod_view w \<and>
     (case r of
        Inl e \<Rightarrow> ticket_view w' = ticket_view w
      | Inr s \<Rightarrow> \<exists>old. ticket_view w (ticket_key t) = Some old \<and> ticket_status s = ticket_status old \<and>
          (ticket_view w' = (ticket_view w)(ticket_key t := None) \<or>
           ticket_view w' = (ticket_view w)(ticket_key t \<mapsto> s)))"
  using store_update_view [of ticket_kind "m_next w" t "m_tickets w"]
  by (auto simp: mem_client_def run_mem_write pod_view_eq ticket_view_eq split: prod.splits sum.splits)

interpretation memp: available_ticket_server mem_client ticket_view pod_view
proof unfold_locales
  fix p :: "'q pod" and t :: "'q ticket" and w w' :: "'q mem" and ns nm
  show "run_state (CreatePod mem_client p) w = (Inr p', w') \<Longrightarrow>
      pod_view w (meta_key (pod_meta p)) = None \<and> pod_view w' = (pod_view w)(meta_key (pod_meta p) \<mapsto> p') \<and>
      same_identity (pod_meta p) (pod_meta p')" for p'
    by (drule mem_create_pod) simp
  show "run_state (CreatePod mem_client p) w = (Inl e, w') \<Longrightarrow> pod_view w' = pod_view w" for e
    by (drule mem_create_pod) simp
  show "run_state (CreatePod mem_client p) w = (Inl e, w') \<Longrightarrow> is_already_exists e \<Longrightarrow>
      pod_view w (meta_key (pod_meta p)) \<noteq> None" for e
    by (drule mem_create_pod) simp
  show "run_state (CreatePod mem_client p) w = (rp, w') \<Longrightarrow> ticket_view w' = ticket_view w" for rp
    by (drule mem_create_pod) simp
  show "pod_view w (meta_key (pod_meta p)) \<noteq> None \<Longrightarrow>
      \<exists>e w'. run_state (CreatePod mem_client p) w = (Inl e, w') \<and> is_already_exists e"
    using mem_create_pod [of p w "fst (run_state (CreatePod mem_client p) w)" "snd (run_state (CreatePod mem_client p) w)"]
    by (cases "run_state (CreatePod mem_client p) w") (auto split: sum.splits)
  show "run_state (DeletePod mem_client ns nm) w = (Inr u, w') \<Longrightarrow>
      (\<forall>k. k \<noteq> Key ns nm \<longrightarrow> pod_view w' k = pod_view w k) \<and>
      (\<forall>p. pod_view w' (Key ns nm) = Some p \<longrightarrow> DeletionTimestamp (pod_meta p) \<noteq> None)" for u
    by (drule mem_delete_pod) simp
  show "run_state (DeletePod mem_client ns nm) w = (Inl e, w') \<Longrightarrow> pod_view w' = pod_view w" for e
    by (drule mem_delete_pod) simp
  show "run_state (DeletePod mem_client ns nm) w = (Inl e, w') \<Longrightarrow> is_not_found e \<Longrightarrow> pod_view w (Key ns nm) = None" for e
    by (drule mem_delete_pod) simp
  show "run_state (DeletePod mem_client ns nm) w = (ru, w') \<Longrightarrow> ticket_view w' = ticket_view w" for ru
    by (drule mem_delete_pod) simp
  show "run_state (UpdateTicketStatus mem_client t) w = (Inr t', w') \<Longrightarrow>
      \<exists>s s'. ticket_view w (ticket_key t) = Some s \<and> ticket_view w' = (ticket_view w)(ticket_key t \<mapsto> s') \<and>
        ticket_status s' = stored_status (ticket_status t) \<and> ticket_spec s' = ticket_spec s \<and>
        (\<exists>v. ticket_meta s' = (ticket_meta s)\<lparr>ResourceVersion := v\<rparr>)" for t'
    by (drule mem_update_status, simp only: sum.case, elim exE conjE, intro exI conjI, assumption, assumption)
      (simp_all add: bump_def)
  show "run_state (UpdateTicketStatus mem_client t) w = (Inl e, w') \<Longrightarrow> ticket_view w' = ticket_view w" for e
    by (drule mem_update_status) simp
  show "run_state (UpdateTicketStatus mem_client t) w = (rt, w') \<Longrightarrow> pod_view w' = pod_view w" for rt
    by (drule mem_update_status) simp
  show "ticket_view w (ticket_key t) = Some s \<Longrightarrow> ResourceVersion (ticket_meta t) = ResourceVersion (ticket_meta s) \<Longrightarrow>
      \<exists>t' w'. run_state (UpdateTicketStatus mem_client t) w = (Inr t', w')" for s
    by (simp add: mem_client_def run_mem_write store_update_status_def ticket_view_def stale_def Let_def)
  show "run_state (UpdateTicket mem_client t) w = (Inr t', w') \<Longrightarrow>
      \<exists>s. ticket_view w (ticket_key t) = Some s \<and>
        (ticket_view w' = (ticket_view w)(ticket_key t := None) \<or>
         (\<exists>s'. ticket_view w' = (ticket_view w)(ticket_key t \<mapsto> s') \<and> ticket_status s' = ticket_status s))" for t'
    by (drule mem_update_ticket) auto
  show "run_state (UpdateTicket mem_client t) w = (Inl e, w') \<Longrightarrow> ticket_view w' = ticket_view w" for e
    by (drule mem_update_ticket) simp
  show "run_state (UpdateTicket mem_client t) w = (rt, w') \<Longrightarrow> pod_view w' = pod_view w" for rt
    by (drule mem_update_ticket) simp
  show "run_state (DeleteTicket mem_client t) w = (ru, w') \<Longrightarrow> pod_view w' = pod_view w" for ru
    by (auto simp: mem_client_def run_mem_write pod_view_eq split: prod.splits)
qed (auto simp: mem_client_def ticket_view_def pod_view_def found_def same_identity_def split: option.splits)

section \<open>The cluster the quotas see\<close>

definition mem_cluster :: "'q mem \<Rightarrow> 'q cluster" where
  "mem_cluster w =
     \<lparr>c_orders = dedup (kkey order_kind) (m_orders w), c_daemon_orders = [], c_cron_orders = [],
      c_tickets = dedup (kkey ticket_kind) (m_tickets w), c_quotas = dedup (kkey quota_kind) (m_quotas w),
      c_namespaces = dedup (kkey namespace_kind) (cluster_scoped (m_namespaces w))\<rparr>"

lemma set_dedup_subset: "set (dedup key xs) \<subseteq> set xs"
  by (induction xs) auto

lemma distinct_map_factor: "distinct (map f xs) \<Longrightarrow> (\<And>x. x \<in> set xs \<Longrightarrow> f x = h (g x)) \<Longrightarrow> distinct (map g xs)"
  by (auto simp: distinct_map inj_on_def)

lemma namespace_names_distinct:
  "distinct (map (\<lambda>n. Name (namespace_meta n)) (dedup (kkey namespace_kind) (cluster_scoped xs)))"
proof (rule distinct_map_factor)
  show "distinct (map (kkey namespace_kind) (dedup (kkey namespace_kind) (cluster_scoped xs)))"
    by (rule distinct_dedup)
  show "kkey namespace_kind n = Key '''' (Name (namespace_meta n))"
    if "n \<in> set (dedup (kkey namespace_kind) (cluster_scoped xs))" for n
    using that set_dedup_subset [of "kkey namespace_kind" "cluster_scoped xs"]
    by (auto simp: cluster_scoped_def kkey_def namespace_kind_def meta_key_def)
qed

lemma found_namespace:
  assumes "store_find namespace_kind (Key '''' nm) (cluster_scoped xs) = Some n"
  shows "n \<in> set (dedup (kkey namespace_kind) (cluster_scoped xs))" and "Name (namespace_meta n) = nm"
  using assms store_find_key [OF assms]
  by (auto simp: set_dedup store_find_def) (simp add: kkey_def namespace_kind_def meta_key_def)

interpretation memq: quota_server mem_client mem_cluster
proof unfold_locales
  show "distinct (map (\<lambda>n. Name (namespace_meta n)) (c_namespaces (mem_cluster w)))" for w :: "'q mem"
    by (simp add: mem_cluster_def namespace_names_distinct)
  show "run_state (GetNamespace mem_client nm) w = (Inr n, w') \<Longrightarrow>
      n \<in> set (c_namespaces (mem_cluster w)) \<and> Name (namespace_meta n) = nm" for nm n and w w' :: "'q mem"
    by (auto simp: mem_client_def mem_cluster_def found_def split: option.splits dest: found_namespace)
qed (auto simp: mem_client_def mem_cluster_def store_list_def order_kind_def ticket_kind_def quota_kind_def namespace_kind_def)

lemma namespace_found:
  assumes "n \<in> set (dedup (kkey namespace_kind) (cluster_scoped xs))"
  shows "\<exists>m. store_find namespace_kind (Key '''' (Name (namespace_meta n))) (cluster_scoped xs) = Some m"
proof -
  have "n \<in> set (cluster_scoped xs)" using assms set_dedup_subset by fastforce
  then have "kkey namespace_kind n = Key '''' (Name (namespace_meta n))" "n \<in> set (cluster_scoped xs)"
    by (auto simp: cluster_scoped_def kkey_def namespace_kind_def meta_key_def)
  then show ?thesis by (auto simp: store_find_def find_Some_iff2 find_None_iff simp flip: not_None_eq)
qed

interpretation memx: available_quota_control mem_client mem_cluster exact_ops fst
proof unfold_locales
  show "n \<in> set (c_namespaces (mem_cluster w)) \<Longrightarrow>
      \<exists>n' w'. run_state (GetNamespace mem_client (Name (namespace_meta n))) w = (Inr n', w')"
    for n and w :: "exact mem"
    by (auto simp: mem_client_def mem_cluster_def found_def split: option.split dest: namespace_found)
qed (auto simp: mem_client_def)

end
