(* ===== verification/OrderController.thy ===== *)
theory OrderController
  imports MemApi
begin

text \<open>
  \<open>internal/controller/order_controller.go\<close>: the reconciler that keeps the number of active
  tickets of an Order at its replica count. First the code, function by function; then the
  tickets a scale-down deletes as a pure function of the active list; then what a
  reconciliation does to the set of stored tickets.
\<close>

section \<open>The code\<close>

definition OrderFinalizerName :: string where
  "OrderFinalizerName = ''korder.dev/order-finalizer''"

definition order_label :: string where
  "order_label = ''korder.dev/order''"

definition order_uid_label :: string where
  "order_uid_label = ''korder.dev/order-uid''"

definition filterActiveTickets :: "'q ticket list \<Rightarrow> 'q ticket list" where
  "filterActiveTickets tickets = filter (\<lambda>t. Phase (ticket_status t) \<noteq> TicketExpired) tickets"

definition owned_options :: "'q order \<Rightarrow> list_options" where
  "owned_options ord =
     \<lparr>InNamespace = Some (Namespace (order_meta ord)),
      MatchingLabels = [(order_label, Name (order_meta ord))],
      MatchingLabelsSelector = None\<rparr>"

definition getOwnedTickets :: "('q, 'w) client \<Rightarrow> 'q order \<Rightarrow> ('w, go_error + 'q ticket list) state" where
  "getOwnedTickets C ord = ListTickets C (owned_options ord)"

definition deleteOwnedTickets :: "('q, 'w) client \<Rightarrow> 'q order \<Rightarrow> ('w, go_error + unit) state" where
  "deleteOwnedTickets C ord =
     on_ok (getOwnedTickets C ord)
       (for_each (\<lambda>t. do {
          r \<leftarrow> DeleteTicket C t;
          case r of
            Inl e \<Rightarrow> State_Monad.return (if is_not_found e then Inr () else Inl e)
          | Inr _ \<Rightarrow> State_Monad.return (Inr ())
        }))"

text \<open>The ticket object \<open>createTicket\<close> builds, before the owner reference is set.\<close>

definition ticket_name :: "'q order \<Rightarrow> int32 \<Rightarrow> string" where
  "ticket_name ord index = Name (order_meta ord) @ ''-'' @ show_int (sint index)"

definition ticket_labels :: "'q order \<Rightarrow> labels" where
  "ticket_labels ord =
     gm_put order_uid_label (UID (order_meta ord))
       (gm_put order_label (Name (order_meta ord))
         (fold (\<lambda>(k, v). gm_put k v) (gm_list (Labels (template_meta (Template (order_spec ord))))) gm_make))"

definition new_ticket :: "'q order \<Rightarrow> int32 \<Rightarrow> 'q ticket" where
  "new_ticket ord index =
     \<lparr>ticket_meta = empty_meta\<lparr>Name := ticket_name ord index,
                               Namespace := Namespace (order_meta ord),
                               Labels := ticket_labels ord\<rparr>,
      ticket_spec = template_spec (Template (order_spec ord)),
      ticket_status = empty_ticket_status\<rparr>"

definition createTicket :: "('q, 'w) client \<Rightarrow> 'q order \<Rightarrow> int32 \<Rightarrow> ('w, go_error + unit) state" where
  "createTicket C ord index =
     (let ticket = new_ticket ord index in
      case SetControllerReference C ''Order'' (order_meta ord) (ticket_meta ticket) of
        Inl e \<Rightarrow> State_Monad.return (Inl e)
      | Inr m \<Rightarrow> do {
          r \<leftarrow> CreateTicket C (ticket\<lparr>ticket_meta := m\<rparr>);
          case r of
            Inl e \<Rightarrow> do {
              _ \<leftarrow> IncReconciliationErrors C ''order'' ''ticket_creation_failed'';
              State_Monad.return (Inl e)
            }
          | Inr _ \<Rightarrow> do {
              _ \<leftarrow> IncTicketsTotal C (Namespace (order_meta ord)) (phase_string TicketPending);
              State_Monad.return (Inr ())
            }
        })"

text \<open>
  The values of \<open>i\<close> in \<open>for i := int32(0); i < n; i++\<close>. The loop is empty for \<open>n \<le> 0\<close>.
\<close>

definition int32_upto :: "int32 \<Rightarrow> int32 list" where
  "int32_upto n = map of_nat [0 ..< nat (sint n)]"

text \<open>\<open>activeTickets[len(activeTickets)-1-int(i)]\<close>, with Go's bounds check.\<close>

definition go_index :: "'a list \<Rightarrow> int \<Rightarrow> go_error + 'a" where
  "go_index xs i = (if 0 \<le> i \<and> i < int (length xs) then Inr (xs ! nat i) else Inl index_out_of_range)"

text \<open>The loop of the \<open>OnClaim\<close> policy, over the tickets from the last to the first.\<close>

fun delete_claimed ::
  "('q, 'w) client \<Rightarrow> int32 \<Rightarrow> int32 \<Rightarrow> 'q ticket list \<Rightarrow> ('w, go_error + unit) state" where
  "delete_claimed C excess deleted [] = State_Monad.return (Inr ())"
| "delete_claimed C excess deleted (t # ts) =
     (if sint deleted < sint excess then
        (if Phase (ticket_status t) = TicketClaimed then
           on_ok (DeleteTicket C t) (\<lambda>_. delete_claimed C excess (deleted + 1) ts)
         else delete_claimed C excess deleted ts)
      else State_Monad.return (Inr ()))"

definition handleExcessTickets ::
  "('q, 'w) client \<Rightarrow> 'q order \<Rightarrow> 'q ticket list \<Rightarrow> int32 \<Rightarrow> ('w, go_error + unit) state" where
  "handleExcessTickets C ord active desired =
     (let excess = of_nat (length active) - desired in
      if sint excess \<le> 0 then State_Monad.return (Inr ())
      else
        (case RefreshPolicy (order_spec ord) of
           AlwaysRefresh \<Rightarrow>
             for_each (\<lambda>i. case go_index active (int (length active) - 1 - sint i) of
                             Inl e \<Rightarrow> State_Monad.return (Inl e)
                           | Inr t \<Rightarrow> DeleteTicket C t)
               (int32_upto excess)
         | OnClaimRefresh \<Rightarrow> delete_claimed C excess 0 (rev active)
         | _ \<Rightarrow> State_Monad.return (Inr ())))"

definition desired_replicas :: "'q order \<Rightarrow> int32" where
  "desired_replicas ord = deref_or 1 (Replicas (order_spec ord))"

definition reconcileTickets :: "('q, 'w) client \<Rightarrow> 'q order \<Rightarrow> ('w, go_error + ctrl_result) state" where
  "reconcileTickets C ord =
     on_ok (getOwnedTickets C ord) (\<lambda>current.
       let desired = desired_replicas ord;
           active = filterActiveTickets current;
           count = of_nat (length active) :: int32;
           ok = State_Monad.return (Inr (no_result\<lparr>RequeueAfter := 5 * 60 * time_Second\<rparr>))
       in
         if sint count < sint desired then
           on_ok (for_each (\<lambda>i. createTicket C ord (of_nat (length current) + i))
                    (int32_upto (desired - count)))
             (\<lambda>_. ok)
         else if sint count > sint desired then
           on_ok (handleExcessTickets C ord active desired) (\<lambda>_. ok)
         else ok)"

text \<open>The status the reconciler writes, computed from the owned tickets.\<close>

fun count_phases :: "int32 \<times> int32 \<Rightarrow> 'q ticket list \<Rightarrow> int32 \<times> int32" where
  "count_phases (unavailable, terminal) [] = (unavailable, terminal)"
| "count_phases (unavailable, terminal) (t # ts) =
     (case Phase (ticket_status t) of
        TicketExpired \<Rightarrow> count_phases (unavailable, terminal + 1) ts
      | TicketPending \<Rightarrow> count_phases (unavailable + 1, terminal) ts
      | _ \<Rightarrow> count_phases (unavailable, terminal) ts)"

definition order_status_of ::
  "'q order \<Rightarrow> 'q ticket list \<Rightarrow> time \<Rightarrow> string \<Rightarrow> string \<Rightarrow> order_status" where
  "order_status_of ord tickets now reason message =
     (let total = of_nat (length tickets) :: int32;
          available = of_nat (length (filterActiveTickets tickets)) :: int32;
          (unavailable, terminal) = count_phases (0, 0) tickets;
          ctype = (if reason = ''Failed'' then OrderFailure else OrderReady)
      in (order_status ord)\<lparr>
           StatusReplicas := Some total,
           AvailableReplicas := Some available,
           UnavailableReplicas := Some unavailable,
           TerminalReplicas := Some terminal,
           UpdatedReplicas := Some available,
           OrderObservedGeneration := Some (Generation (order_meta ord)),
           OrderConditions :=
             upsert_condition ctype ConditionTrue now reason message (OrderConditions (order_status ord))\<rparr>)"

definition updateOrderStatus ::
  "('q, 'w) client \<Rightarrow> 'q order \<Rightarrow> string \<Rightarrow> string \<Rightarrow> ('w, outcome) state" where
  "updateOrderStatus C ord reason message = do {
     r \<leftarrow> getOwnedTickets C ord;
     case r of
       Inl e \<Rightarrow> State_Monad.return (no_result, Some e)
     | Inr tickets \<Rightarrow> do {
         now \<leftarrow> TimeNow C;
         u \<leftarrow> UpdateOrderStatus C (ord\<lparr>order_status := order_status_of ord tickets now reason message\<rparr>);
         case u of
           Inl e \<Rightarrow> State_Monad.return (no_result, Some e)
         | Inr _ \<Rightarrow> State_Monad.return (no_result, None)
       }
   }"

definition Order_handleDeletion :: "('q, 'w) client \<Rightarrow> 'q order \<Rightarrow> ('w, outcome) state" where
  "Order_handleDeletion C ord = do {
     r \<leftarrow> deleteOwnedTickets C ord;
     case r of
       Inl e \<Rightarrow> State_Monad.return (no_result, Some e)
     | Inr _ \<Rightarrow> do {
         u \<leftarrow> UpdateOrder C (ord\<lparr>order_meta := RemoveFinalizer C (order_meta ord) OrderFinalizerName\<rparr>);
         case u of
           Inl e \<Rightarrow> State_Monad.return (no_result, Some e)
         | Inr _ \<Rightarrow> State_Monad.return (no_result, None)
       }
   }"

text \<open>
  \<open>Reconcile\<close> after the order is fetched. A panic in \<open>reconcileTickets\<close> unwinds past the
  status update.
\<close>

definition reconcile_order :: "('q, 'w) client \<Rightarrow> 'q order \<Rightarrow> ('w, outcome) state" where
  "reconcile_order C ord =
     (if DeletionTimestamp (order_meta ord) \<noteq> None then Order_handleDeletion C ord
      else if \<not> ContainsFinalizer C (order_meta ord) OrderFinalizerName then do {
        u \<leftarrow> UpdateOrder C (ord\<lparr>order_meta := AddFinalizer C (order_meta ord) OrderFinalizerName\<rparr>);
        case u of
          Inl e \<Rightarrow> State_Monad.return (no_result, Some e)
        | Inr _ \<Rightarrow> State_Monad.return (no_result\<lparr>Requeue := True\<rparr>, None)
      }
      else if Paused (order_spec ord) = Some True then
        updateOrderStatus C ord ''Paused'' ''Order is paused''
      else do {
        r \<leftarrow> reconcileTickets C ord;
        case r of
          Inl e \<Rightarrow>
            if is_panic e then State_Monad.return (no_result, Some e)
            else do {
              _ \<leftarrow> updateOrderStatus C ord ''Failed'' (''Failed to reconcile tickets: '' @ error_text e);
              State_Monad.return (no_result, Some e)
            }
        | Inr result \<Rightarrow> do {
            u \<leftarrow> updateOrderStatus C ord ''Ready'' ''Order is processing normally'';
            case snd u of
              Some e \<Rightarrow> State_Monad.return (no_result, Some e)
            | None \<Rightarrow> State_Monad.return (result, None)
          }
      })"

definition Order_Reconcile :: "('q, 'w) client \<Rightarrow> string \<Rightarrow> string \<Rightarrow> ('w, outcome) state" where
  "Order_Reconcile C ns nm = timed C ''order'' (do {
     r \<leftarrow> GetOrder C ns nm;
     case r of
       Inl e \<Rightarrow> if is_not_found e then State_Monad.return (no_result, None)
                else State_Monad.return (no_result, Some e)
     | Inr ord \<Rightarrow> reconcile_order C ord
   })"

section \<open>Scale-down as a function of the active list\<close>

text \<open>The tickets a scale-down deletes, in order.\<close>

definition claimed :: "'q ticket \<Rightarrow> bool" where
  "claimed t \<longleftrightarrow> Phase (ticket_status t) = TicketClaimed"

definition excess_victims :: "refresh_policy \<Rightarrow> nat \<Rightarrow> 'q ticket list \<Rightarrow> 'q ticket list" where
  "excess_victims policy n active =
     (case policy of
        AlwaysRefresh \<Rightarrow> take n (rev active)
      | OnClaimRefresh \<Rightarrow> take n (filter claimed (rev active))
      | _ \<Rightarrow> [])"

lemma map_rev_nth_take: "n \<le> length xs \<Longrightarrow> map (\<lambda>k. rev xs ! k) [0..<n] = take n (rev xs)"
  by (simp add: list_eq_iff_nth_eq)

lemma delete_claimed_victims:
  assumes "n < 2 ^ 31" "d \<le> n"
  shows "delete_claimed C (of_nat n) (of_nat d) ts = for_each (DeleteTicket C) (take (n - d) (filter claimed ts))"
  using assms(2)
proof (induction ts arbitrary: d)
  case (Cons t ts)
  have s: "sint (of_nat n :: int32) = int n" "sint (of_nat d :: int32) = int d"
    using assms(1) Cons.prems by (simp_all add: sint_int32_of_nat)
  show ?case
  proof (cases "d < n")
    case True
    then have "take (n - d) (filter claimed (t # ts)) =
        (if claimed t then t # take (n - Suc d) (filter claimed ts) else take (n - d) (filter claimed ts))"
      by (simp add: Suc_diff_Suc [symmetric])
    then show ?thesis
      using True s Cons.IH [of "Suc d"] Cons.IH [of d] by (simp add: claimed_def [symmetric] add.commute)
  qed (use s Cons.prems in simp)
qed simp

lemma handleExcessTickets_victims:
  assumes len: "length active < 2 ^ 31" and nonneg: "0 \<le> sint desired"
    and more: "sint desired < int (length active)"
  shows "handleExcessTickets C ord active desired =
     for_each (DeleteTicket C)
       (excess_victims (RefreshPolicy (order_spec ord)) (length active - nat (sint desired)) active)"
proof -
  define n where "n = length active - nat (sint desired)"
  have n: "int n = int (length active) - sint desired" "n \<le> length active" "0 < n" "n < 2 ^ 31"
    using len nonneg more by (auto simp: n_def)
  have excess: "sint (of_nat (length active) - desired) = int n"
    using sint_int32_diff [of "of_nat (length active)" desired] len nonneg n(1)
    by (simp add: sint_int32_of_nat)
  have excess': "of_nat (length active) - desired = (of_nat n :: int32)"
    using excess n(4) by (metis sint_int32_of_nat signed_word_eqI)
  have index: "(case go_index active (int (length active) - 1 - sint (of_nat k :: int32)) of
        Inl e \<Rightarrow> State_Monad.return (Inl e) | Inr t \<Rightarrow> DeleteTicket C t) = DeleteTicket C (rev active ! k)"
    if "k < n" for k
  proof -
    have k: "sint (of_nat k :: int32) = int k" "k < length active"
      using that n by (auto intro: sint_int32_upto)
    moreover have "nat (int (length active) - 1 - int k) = length active - Suc k"
      using k(2) by linarith
    ultimately show ?thesis by (simp add: go_index_def rev_nth)
  qed
  have "for_each (\<lambda>i :: int32. case go_index active (int (length active) - 1 - sint i) of
        Inl e \<Rightarrow> State_Monad.return (Inl e) | Inr t \<Rightarrow> DeleteTicket C t) (map of_nat [0..<n]) =
      for_each (DeleteTicket C) (map (\<lambda>k. rev active ! k) [0..<n])"
    unfolding for_each_map by (rule for_each_cong, rule index) simp
  moreover have "int32_upto (of_nat n) = map of_nat [0..<n]" "\<not> sint (of_nat n :: int32) \<le> 0"
    using n(3,4) by (simp_all add: int32_upto_def sint_int32_of_nat)
  ultimately show ?thesis
    using n(2) n(4) excess' delete_claimed_victims [of n 0 C "rev active"]
    by (simp add: handleExcessTickets_def Let_def excess_victims_def map_rev_nth_take
        n_def [symmetric] split: refresh_policy.split)
qed

text \<open>What is spared by a scale-down.\<close>

lemma excess_victims_subset: "set (excess_victims policy n active) \<subseteq> set active"
  by (auto simp: excess_victims_def split: refresh_policy.splits dest: in_set_takeD)

lemma distinct_excess_victims: "distinct (map key active) \<Longrightarrow> distinct (map key (excess_victims policy n active))"
proof -
  assume d: "distinct (map key active)"
  have "distinct (map key (take n ys))" if "distinct (map key ys)" for ys
    using that distinct_take [of "map key ys" n] by (simp add: take_map)
  moreover have "distinct (map key (rev active))" using d by (simp add: rev_map [symmetric])
  moreover from this have "distinct (map key (filter claimed (rev active)))" by (rule distinct_map_filter)
  ultimately show ?thesis by (simp add: excess_victims_def split: refresh_policy.split)
qed

section \<open>The set of stored tickets\<close>

text \<open>
  The keys of the tickets an order counts: stored in its namespace with its label, and not
  expired. \<open>owned_keys\<close> includes the expired ones.
\<close>

definition owned_keys :: "('w \<Rightarrow> object_key \<Rightarrow> 'q ticket option) \<Rightarrow> 'q order \<Rightarrow> 'w \<Rightarrow> object_key set" where
  "owned_keys view ord w = {k. \<exists>t. view w k = Some t \<and> selects (owned_options ord) (ticket_meta t)}"

definition active_keys :: "('w \<Rightarrow> object_key \<Rightarrow> 'q ticket option) \<Rightarrow> 'q order \<Rightarrow> 'w \<Rightarrow> object_key set" where
  "active_keys view ord w =
     {k. \<exists>t. view w k = Some t \<and> selects (owned_options ord) (ticket_meta t) \<and>
            Phase (ticket_status t) \<noteq> TicketExpired}"

text \<open>The active tickets not yet marked for deletion.\<close>

definition kept_keys :: "('w \<Rightarrow> object_key \<Rightarrow> 'q ticket option) \<Rightarrow> 'q order \<Rightarrow> 'w \<Rightarrow> object_key set" where
  "kept_keys view ord w =
     {k. \<exists>t. view w k = Some t \<and> selects (owned_options ord) (ticket_meta t) \<and>
            Phase (ticket_status t) \<noteq> TicketExpired \<and> DeletionTimestamp (ticket_meta t) = None}"

lemma ticket_labels_get [simp]:
  "gm_get (ticket_labels ord) order_label = Some (Name (order_meta ord))"
  "gm_get (ticket_labels ord) order_uid_label = Some (UID (order_meta ord))"
proof -
  have fold: "fold (\<lambda>(k, v). gm_put k v) kvs m \<noteq> None" if "m \<noteq> None" for kvs and m :: labels
    using that by (induction kvs arbitrary: m) (auto simp: gm_put_def)
  have put: "gm_put k v m \<noteq> None" if "m \<noteq> None" for k v and m :: labels
    using that by (simp add: gm_put_def)
  show "gm_get (ticket_labels ord) order_label = Some (Name (order_meta ord))"
    "gm_get (ticket_labels ord) order_uid_label = Some (UID (order_meta ord))"
    by (simp_all add: ticket_labels_def gm_get_put fold put order_label_def order_uid_label_def gm_make_def
        del: not_None_eq)
qed

lemma selects_new_ticket:
  "same_identity (ticket_meta (new_ticket ord i)) m \<Longrightarrow> selects (owned_options ord) m"
  by (simp add: same_identity_selects) (simp add: selects_def owned_options_def new_ticket_def)

definition new_key :: "'q order \<Rightarrow> int32 \<Rightarrow> object_key" where
  "new_key ord i = Key (Namespace (order_meta ord)) (ticket_name ord i)"

lemma ticket_name_inj: "ticket_name ord i = ticket_name ord j \<Longrightarrow> i = j"
  by (auto simp: ticket_name_def dest!: show_int_inj intro: signed_word_eqI)

text \<open>One pass over a listed set of tickets, with the \<open>int32\<close> count read as a number.\<close>

abbreviation requeue_5m :: "go_error + ctrl_result" where
  "requeue_5m \<equiv> Inr (no_result\<lparr>RequeueAfter := 5 * 60 * time_Second\<rparr>)"

lemma run_reconcileTickets:
  assumes l: "run_state (getOwnedTickets C ord) w = (Inr ts, v)"
    and n: "length (filterActiveTickets ts) = n" "n < 2 ^ 31"
  shows "run_state (reconcileTickets C ord) w =
    (if int n < sint (desired_replicas ord) then
       run_state (on_ok (for_each (\<lambda>i. createTicket C ord (of_nat (length ts) + i))
           (int32_upto (desired_replicas ord - of_nat n))) (\<lambda>_. State_Monad.return requeue_5m)) v
     else if int n > sint (desired_replicas ord) then
       run_state (on_ok (handleExcessTickets C ord (filterActiveTickets ts) (desired_replicas ord))
         (\<lambda>_. State_Monad.return requeue_5m)) v
     else (requeue_5m, v))"
proof -
  have count: "sint (of_nat n :: int32) = int n" using n(2) by (rule sint_int32_of_nat)
  show ?thesis
    unfolding reconcileTickets_def Let_def run_on_ok [of "getOwnedTickets C ord"] l n(1) prod.case sum.case count
    by simp
qed

context ticket_store
begin

lemma finite_keys [simp]:
  "finite (owned_keys view ord w)" "finite (active_keys view ord w)" "finite (kept_keys view ord w)"
  by (rule finite_subset [OF _ view_finite [of w]], auto simp: owned_keys_def active_keys_def kept_keys_def)+

lemma keys_view_cong:
  "view w' = view w \<Longrightarrow> owned_keys view ord w' = owned_keys view ord w"
  "view w' = view w \<Longrightarrow> active_keys view ord w' = active_keys view ord w"
  "view w' = view w \<Longrightarrow> kept_keys view ord w' = kept_keys view ord w"
  by (simp_all add: owned_keys_def active_keys_def kept_keys_def)

lemma listed_counts:
  assumes "run_state (getOwnedTickets C ord) w = (Inr ts, w')"
  shows "length ts = card (owned_keys view ord w)"
    "length (filterActiveTickets ts) = card (active_keys view ord w)"
  using length_filter_listed [OF assms [unfolded getOwnedTickets_def], of "\<lambda>_. True"]
    length_filter_listed [OF assms [unfolded getOwnedTickets_def], of "\<lambda>t. Phase (ticket_status t) \<noteq> TicketExpired"]
  by (simp_all add: owned_keys_def active_keys_def filterActiveTickets_def)

text \<open>
  A successful \<open>createTicket\<close> adds one key, the one of its index, to the active tickets of
  the order; a failed one leaves the stored tickets alone.
\<close>

lemma createTicket_ok:
  assumes "run_state (createTicket C ord i) w = (Inr (), w')"
  shows "\<exists>s. view w (new_key ord i) = None \<and> view w' = (view w)(new_key ord i \<mapsto> s) \<and>
     selects (owned_options ord) (ticket_meta s) \<and> Phase (ticket_status s) = NoPhase"
proof -
  obtain m where m: "SetControllerReference C ''Order'' (order_meta ord) (ticket_meta (new_ticket ord i)) = Inr m"
    using assms by (auto simp: createTicket_def Let_def split: sum.splits)
  define t where "t = (new_ticket ord i)\<lparr>ticket_meta := m\<rparr>"
  from assms m obtain t' v where c: "run_state (CreateTicket C t) w = (Inr t', v)"
    and w': "w' = snd (run_state (CounterInc C ''korder_tickets_total''
       [Namespace (order_meta ord), phase_string TicketPending]) v)"
    by (auto simp: createTicket_def Let_def t_def [symmetric] IncTicketsTotal_def
        IncReconciliationErrors_def split: sum.splits prod.splits)
  have id: "same_identity (ticket_meta (new_ticket ord i)) m"
    using set_reference_identity [OF m] .
  then have key: "ticket_key t = new_key ord i"
    by (simp add: t_def same_identity_def meta_key_def new_key_def new_ticket_def)
  from create_result [OF c] obtain s where s: "view w (ticket_key t) = None"
    "view v = (view w)(ticket_key t \<mapsto> s)" "same_identity (ticket_meta t) (ticket_meta s)"
    "Phase (ticket_status s) = NoPhase" by auto
  have "selects (owned_options ord) (ticket_meta s)"
    using s(3) by (intro selects_new_ticket [of ord i] same_identity_trans [OF id]) (simp add: t_def)
  with s key w' show ?thesis by (auto simp: counter_frame)
qed

lemma createTicket_error:
  assumes "run_state (createTicket C ord i) w = (Inl e, w')"
  shows "view w' = view w"
  using assms create_failure counter_frame
  by (auto simp: createTicket_def Let_def IncTicketsTotal_def IncReconciliationErrors_def
      split: sum.splits prod.splits) (metis snd_conv)+

lemma createTicket_active:
  assumes "run_state (createTicket C ord i) w = (Inr (), w')"
  shows "active_keys view ord w' = insert (new_key ord i) (active_keys view ord w)"
    "new_key ord i \<notin> active_keys view ord w"
  using createTicket_ok [OF assms] by (auto simp: active_keys_def)

lemma owned_insert:
  assumes "run_state (createTicket C ord i) w = (Inr (), w')"
  shows "owned_keys view ord w' = insert (new_key ord i) (owned_keys view ord w)"
  using createTicket_ok [OF assms] by (auto simp: owned_keys_def)

text \<open>The loop of creates, from any starting index.\<close>

lemma create_loop_ok:
  assumes "run_state (for_each (\<lambda>i. createTicket C ord (base + i)) is) w = (Inr (), w')"
  shows "card (active_keys view ord w') = card (active_keys view ord w) + length is"
proof -
  have "card (active_keys view ord w') = card (active_keys view ord w) + length is"
    if "run_state (for_each (\<lambda>i. createTicket C ord (base + i)) is) w = (Inr (), w')"
    using that
    by (rule for_each_ok_induct [where I = "\<lambda>n v. card (active_keys view ord v) = card (active_keys view ord w) + n"])
      (auto simp: createTicket_active)
  then show ?thesis using assms by blast
qed

lemma reconcileTickets_creates:
  assumes run: "run_state (reconcileTickets C ord) w = (Inr res, w')"
    and bound: "card (active_keys view ord w) < 2 ^ 31"
    and few: "int (card (active_keys view ord w)) \<le> sint (desired_replicas ord)"
  shows "int (card (active_keys view ord w')) = sint (desired_replicas ord)"
proof -
  let ?n = "card (active_keys view ord w)" and ?d = "desired_replicas ord"
  obtain r v where l: "run_state (getOwnedTickets C ord) w = (r, v)" by fastforce
  then obtain ts where r: "r = Inr ts"
    using run by (cases r) (simp_all add: reconcileTickets_def run_on_ok)
  note l = l [unfolded r]
  have active: "length (filterActiveTickets ts) = ?n" and v: "view v = view w"
    using listed_counts [OF l] list_frame l by (auto simp: getOwnedTickets_def)
  let ?loop = "for_each (\<lambda>i. createTicket C ord (of_nat (length ts) + i)) (int32_upto (?d - of_nat ?n))"
  obtain q u where loop: "run_state ?loop v = (q, u)" by fastforce
  note steps = run_reconcileTickets [OF l active bound, unfolded run, unfolded run_on_ok loop]
  show ?thesis
  proof (cases "int ?n < sint ?d")
    case True
    with steps have "q = Inr ()" "u = w'"
      by (cases q; simp)+
    with loop have "card (active_keys view ord w') = card (active_keys view ord v) + length (int32_upto (?d - of_nat ?n))"
      using create_loop_ok by simp
    moreover have "sint (?d - of_nat ?n) = sint ?d - int ?n"
      using sint_int32_diff [of ?d "of_nat ?n"] True sint_int32_of_nat [OF bound] by simp
    ultimately show ?thesis using True by (simp add: keys_view_cong [OF v] int32_upto_def)
  next
    case False
    with few have eq: "int ?n = sint ?d" by linarith
    with steps have "w' = v" by simp
    with eq show ?thesis by (simp add: keys_view_cong [OF v])
  qed
qed

end

section \<open>Scale-down\<close>

text \<open>
  \<open>gone_or_marked a b\<close>: a deletion turned the stored ticket \<open>a\<close> into \<open>b\<close>; it is gone or,
  where finalizers hold it, marked. \<open>cleared K w w'\<close>: between \<open>w\<close> and \<open>w'\<close> the tickets of
  \<open>K\<close> were deleted and no other ticket changed.
\<close>

definition gone_or_marked :: "'q ticket option \<Rightarrow> 'q ticket option \<Rightarrow> bool" where
  "gone_or_marked a b \<longleftrightarrow> b = None \<or>
     (\<exists>s s'. a = Some s \<and> b = Some s' \<and> DeletionTimestamp (ticket_meta s') \<noteq> None \<and>
        same_identity (ticket_meta s) (ticket_meta s') \<and> ticket_status s' = ticket_status s)"

definition cleared ::
  "('w \<Rightarrow> object_key \<Rightarrow> 'q ticket option) \<Rightarrow> object_key set \<Rightarrow> 'w \<Rightarrow> 'w \<Rightarrow> bool" where
  "cleared view K w w' \<longleftrightarrow>
     (\<forall>k. if k \<in> K then gone_or_marked (view w k) (view w' k) else view w' k = view w k)"

lemma gone_or_marked_trans: "gone_or_marked a b \<Longrightarrow> gone_or_marked b c \<Longrightarrow> gone_or_marked a c"
  unfolding gone_or_marked_def by (elim disjE exE conjE) (simp_all, metis same_identity_trans)

lemma cleared_refl [simp]: "view w' = view w \<Longrightarrow> cleared view {} w w'"
  by (simp add: cleared_def)

lemma cleared_trans:
  assumes "cleared view K w u" "cleared view L u v"
  shows "cleared view (K \<union> L) w v"
  unfolding cleared_def
proof
  fix k
  show "if k \<in> K \<union> L then gone_or_marked (view w k) (view v k) else view v k = view w k"
    using assms [unfolded cleared_def, THEN spec [of _ k]]
      gone_or_marked_trans [of "view w k" "view u k" "view v k"]
    by (cases "k \<in> K"; cases "k \<in> L") simp_all
qed

lemma cleared_kept:
  assumes "cleared view K w w'"
  shows "kept_keys view ord w' = kept_keys view ord w - K"
proof (rule set_eqI)
  fix k
  show "k \<in> kept_keys view ord w' \<longleftrightarrow> k \<in> kept_keys view ord w - K"
  proof (cases "k \<in> K")
    case True
    with assms show ?thesis by (auto simp: cleared_def kept_keys_def gone_or_marked_def dest!: spec [of _ k])
  next
    case False
    with assms show ?thesis by (simp add: cleared_def kept_keys_def)
  qed
qed

context ticket_store
begin

lemma delete_cleared:
  assumes "run_state (DeleteTicket C t) w = (r, w')"
  shows "\<exists>K \<subseteq> {ticket_key t}. cleared view K w w'"
    "r = Inr () \<Longrightarrow> cleared view {ticket_key t} w w'"
proof -
  have ok: "cleared view {ticket_key t} w w'" if "r = Inr ()"
    using delete_result [OF assms [unfolded that]] by (auto simp: cleared_def gone_or_marked_def)
  show "r = Inr () \<Longrightarrow> cleared view {ticket_key t} w w'" using ok .
  show "\<exists>K \<subseteq> {ticket_key t}. cleared view K w w'"
  proof (cases r)
    case (Inl e)
    with assms delete_failure have "view w' = view w" by simp
    then have "cleared view {} w w'" by simp
    then show ?thesis by blast
  qed (use ok in auto)
qed

text \<open>A loop of deletions: complete when it succeeds, partial when it fails.\<close>

lemma delete_loop_ok:
  assumes step: "\<And>t w w'. t \<in> set ts \<Longrightarrow> run_state (f t) w = (Inr (), w') \<Longrightarrow> cleared view {ticket_key t} w w'"
    and run: "run_state (for_each f ts) w = (Inr (), w')"
  shows "cleared view (ticket_key ` set ts) w w'"
  using assms
proof (induction ts arbitrary: w)
  case (Cons t ts)
  obtain r u where t: "run_state (f t) w = (r, u)" by fastforce
  with Cons.prems(2) have r: "r = Inr ()" and rest: "run_state (for_each f ts) u = (Inr (), w')"
    by (cases r; simp add: run_on_ok)+
  have "cleared view {ticket_key t} w u" using Cons.prems(1) t r by simp
  moreover have "cleared view (ticket_key ` set ts) u w'" using Cons.IH [OF _ rest] Cons.prems(1) by simp
  ultimately show ?case using cleared_trans by fastforce
qed simp

lemma delete_loop_any:
  assumes step: "\<And>t w w' r. t \<in> set ts \<Longrightarrow> run_state (f t) w = (r, w') \<Longrightarrow> \<exists>K \<subseteq> {ticket_key t}. cleared view K w w'"
    and run: "run_state (for_each f ts) w = (r, w')"
  shows "\<exists>K \<subseteq> ticket_key ` set ts. cleared view K w w'"
  using assms
proof (induction ts arbitrary: w)
  case Nil
  then have "cleared view {} w w'" by simp
  then show ?case by blast
next
  case (Cons t ts)
  obtain q u where t: "run_state (f t) w = (q, u)" by fastforce
  from Cons.prems(1) [OF _ t] obtain K where K: "K \<subseteq> {ticket_key t}" "cleared view K w u" by auto
  show ?case
  proof (cases q)
    case (Inl e)
    with t Cons.prems(2) have "w' = u" by (simp add: run_on_ok)
    with K show ?thesis by auto
  next
    case (Inr x)
    with t Cons.prems(2) have "run_state (for_each f ts) u = (r, w')" by (simp add: run_on_ok)
    from Cons.IH [OF _ this] Cons.prems(1) obtain L where "L \<subseteq> ticket_key ` set ts" "cleared view L u w'"
      by auto
    with K cleared_trans [OF K(2)] have "cleared view (K \<union> L) w w'" "K \<union> L \<subseteq> ticket_key ` set (t # ts)"
      by auto
    then show ?thesis by blast
  qed
qed

lemma reconcileTickets_scales_down:
  assumes run: "run_state (reconcileTickets C ord) w = (Inr res, w')"
    and bound: "card (active_keys view ord w) < 2 ^ 31"
    and d: "0 \<le> sint (desired_replicas ord)" "sint (desired_replicas ord) < int (card (active_keys view ord w))"
  shows "\<exists>ts. distinct (map ticket_key ts) \<and>
      set ts = {t. \<exists>k. view w k = Some t \<and> k \<in> active_keys view ord w} \<and>
      cleared view (ticket_key ` set (excess_victims (RefreshPolicy (order_spec ord))
        (card (active_keys view ord w) - nat (sint (desired_replicas ord))) ts)) w w'"
proof -
  let ?n = "card (active_keys view ord w)" and ?d = "desired_replicas ord"
  obtain r v where l: "run_state (getOwnedTickets C ord) w = (r, v)" by fastforce
  then obtain ts where r: "r = Inr ts"
    using run by (cases r) (simp_all add: reconcileTickets_def run_on_ok)
  note l = l [unfolded r]
  let ?as = "filterActiveTickets ts"
  have active: "length ?as = ?n" and v: "view v = view w"
    using listed_counts [OF l] list_frame l by (auto simp: getOwnedTickets_def)
  have spec: "distinct (map ticket_key ts)" "set ts = {t. \<exists>k. view w k = Some t \<and> selects (owned_options ord) (ticket_meta t)}"
    using list_result [OF l [unfolded getOwnedTickets_def]] by auto
  have as: "distinct (map ticket_key ?as)" "set ?as = {t. \<exists>k. view w k = Some t \<and> k \<in> active_keys view ord w}"
    using spec by (auto simp: filterActiveTickets_def active_keys_def distinct_map_filter)
  let ?loop = "for_each (DeleteTicket C) (excess_victims (RefreshPolicy (order_spec ord)) (?n - nat (sint ?d)) ?as)"
  obtain q u where loop: "run_state ?loop v = (q, u)" by fastforce
  have "run_state (handleExcessTickets C ord ?as ?d) v = (q, u)"
    using handleExcessTickets_victims [of ?as ?d C ord] active bound d loop by simp
  with run_reconcileTickets [OF l active bound, unfolded run] d have "q = Inr ()" "w' = u"
    by (cases q; simp add: run_on_ok)+
  with loop have "cleared view (ticket_key ` set (excess_victims (RefreshPolicy (order_spec ord)) (?n - nat (sint ?d)) ?as)) v w'"
    using delete_loop_ok delete_cleared(2) by metis
  with as show ?thesis unfolding cleared_def v by blast
qed

end

section \<open>Runs of the reconciler\<close>

context ticket_store
begin

lemma createTicket_taken:
  assumes "view w (new_key ord i) \<noteq> None"
  shows "\<exists>e w'. run_state (createTicket C ord i) w = (Inl e, w') \<and> view w' = view w"
proof -
  obtain r w' where run: "run_state (createTicket C ord i) w = (r, w')" by fastforce
  with assms createTicket_ok [of ord i w w'] obtain e where "r = Inl e" by (cases r) auto
  with run createTicket_error show ?thesis by blast
qed

lemma createTicket_keeps:
  assumes "run_state (createTicket C ord i) w = (r, w')" "view w k = Some t"
  shows "view w' k = Some t"
  using assms createTicket_ok [of ord i w w'] createTicket_error [of ord i w _ w']
  by (cases r) auto

lemma create_loop_keeps:
  "run_state (for_each (\<lambda>i. createTicket C ord (base + i)) is) w = (r, w') \<Longrightarrow> view w k = Some t \<Longrightarrow>
   view w' k = Some t"
proof (induction "is" arbitrary: w)
  case (Cons i "is")
  obtain q u where "run_state (createTicket C ord (base + i)) w = (q, u)" by fastforce
  with Cons createTicket_keeps [OF this] show ?case
    by (cases q) (auto simp: run_on_ok)
qed simp

lemma delete_claimed_any:
  "run_state (delete_claimed C excess deleted ts) w = (r, w') \<Longrightarrow>
   \<exists>K \<subseteq> ticket_key ` {t \<in> set ts. claimed t}. cleared view K w w'"
proof (induction ts arbitrary: deleted w)
  case Nil
  then have "cleared view {} w w'" by simp
  then show ?case by blast
next
  case (Cons t ts)
  let ?K = "ticket_key ` {u \<in> set (t # ts). claimed u}"
  show ?case
  proof (cases "sint deleted < sint excess \<and> claimed t")
    case False
    with Cons.prems consider "w' = w" | "run_state (delete_claimed C excess deleted ts) w = (r, w')"
      by (auto simp: claimed_def split: if_splits)
    then show ?thesis
    proof cases
      case 1
      then have "cleared view {} w w'" by simp
      then show ?thesis by blast
    next
      case 2
      from Cons.IH [OF this] obtain K
        where K: "K \<subseteq> ticket_key ` {t \<in> set ts. claimed t}" "cleared view K w w'" by (elim exE conjE)
      have "K \<subseteq> ?K" using K(1) by auto
      with K(2) show ?thesis by blast
    qed
  next
    case True
    obtain q u where d: "run_state (DeleteTicket C t) w = (q, u)" by fastforce
    from delete_cleared(1) [OF d] obtain K where K: "K \<subseteq> {ticket_key t}" "cleared view K w u" by auto
    have K': "K \<subseteq> ?K" using K(1) True by auto
    show ?thesis
    proof (cases q)
      case (Inl e)
      with d True Cons.prems have "w' = u" by (simp add: claimed_def run_on_ok)
      with K(2) K' show ?thesis by blast
    next
      case (Inr x)
      with d True Cons.prems have "run_state (delete_claimed C excess (deleted + 1) ts) u = (r, w')"
        by (simp add: claimed_def run_on_ok)
      from Cons.IH [OF this] obtain L
        where L: "L \<subseteq> ticket_key ` {t \<in> set ts. claimed t}" "cleared view L u w'" by blast
      have "K \<union> L \<subseteq> ?K" using K' L(1) by auto
      then show ?thesis using cleared_trans [OF K(2) L(2)] by blast
    qed
  qed
qed

lemma deleteOwnedTickets_cleared:
  assumes "run_state (deleteOwnedTickets C ord) w = (Inr (), w')"
  shows "cleared view (owned_keys view ord w) w w'"
proof -
  obtain r v where l: "run_state (getOwnedTickets C ord) w = (r, v)" by fastforce
  then obtain ts where "r = Inr ts"
    using assms by (cases r) (simp_all add: deleteOwnedTickets_def run_on_ok)
  note l = l [unfolded this]
  have v: "view v = view w"
    using list_frame l by (auto simp: getOwnedTickets_def)
  have keys: "ticket_key ` set ts = owned_keys view ord w"
    using list_result [OF l [unfolded getOwnedTickets_def]] view_key
    by (force simp: owned_keys_def image_iff)
  define f where "f = (\<lambda>t. do {
      r \<leftarrow> DeleteTicket C t;
      case r of Inl e \<Rightarrow> State_Monad.return (if is_not_found e then Inr () else Inl e)
      | Inr _ \<Rightarrow> State_Monad.return (Inr () :: go_error + unit) })"
  have step: "cleared view {ticket_key t} w w'" if "run_state (f t) w = (Inr (), w')" for t w w'
  proof -
    obtain q u where d: "run_state (DeleteTicket C t) w = (q, u)" by fastforce
    show ?thesis
    proof (cases q)
      case (Inl e)
      with d that have nf: "is_not_found e" "w' = u" by (auto simp: f_def split: if_splits)
      from delete_failure [OF d [unfolded Inl]] delete_not_found [OF d [unfolded Inl] nf(1)] nf(2)
      show ?thesis by (simp add: cleared_def gone_or_marked_def)
    next
      case (Inr x)
      with d that have "w' = u" by (simp add: f_def)
      with Inr delete_cleared(2) [OF d] show ?thesis by simp
    qed
  qed
  have "run_state (for_each f ts) v = (Inr (), w')"
    using assms l by (simp add: deleteOwnedTickets_def run_on_ok f_def)
  then have "cleared view (ticket_key ` set ts) v w'"
    by (rule delete_loop_ok [rotated]) (rule step)
  with keys v show ?thesis unfolding cleared_def v by simp
qed

lemma updateOrderStatus_frame: "view (snd (run_state (updateOrderStatus C ord reason message) w)) = view w"
proof -
  obtain r v where l: "run_state (getOwnedTickets C ord) w = (r, v)" by fastforce
  then have "view v = view w" using list_frame by (auto simp: getOwnedTickets_def)
  moreover have "view (snd (run_state (updateOrderStatus C ord reason message) w)) = view v"
    using l by (cases r) (auto simp: updateOrderStatus_def dest!: frame_rules split: prod.splits sum.splits)
  ultimately show ?thesis by simp
qed

end

text \<open>The server lets in the ticket that \<open>createTicket\<close> sends for an index.\<close>

definition lets_in :: "('q, 'w) client \<Rightarrow> ('w \<Rightarrow> 'q ticket \<Rightarrow> bool) \<Rightarrow> 'w \<Rightarrow> 'q order \<Rightarrow> int32 \<Rightarrow> bool" where
  "lets_in C admits w ord i \<longleftrightarrow>
     (\<forall>m. SetControllerReference C ''Order'' (order_meta ord) (ticket_meta (new_ticket ord i)) = Inr m \<longrightarrow>
        admits w ((new_ticket ord i)\<lparr>ticket_meta := m\<rparr>))"

context available_ticket_store
begin

lemma createTicket_available:
  assumes "view w (new_key ord i) = None" "lets_in C admits w ord i"
  shows "\<exists>w'. run_state (createTicket C ord i) w = (Inr (), w') \<and> (\<forall>t. admits w' t = admits w t)"
proof -
  from set_reference_available obtain m
    where m: "SetControllerReference C ''Order'' (order_meta ord) (ticket_meta (new_ticket ord i)) = Inr m" by blast
  let ?t = "(new_ticket ord i)\<lparr>ticket_meta := m\<rparr>"
  have "ticket_key ?t = new_key ord i"
    using same_identity_key [OF set_reference_identity [OF m]] by (simp add: meta_key_def new_key_def new_ticket_def)
  with assms m create_available [of w ?t] obtain t' v where v: "run_state (CreateTicket C ?t) w = (Inr t', v)"
    unfolding lets_in_def by metis
  obtain u w' where "run_state (IncTicketsTotal C (Namespace (order_meta ord)) (phase_string TicketPending)) v = (u, w')"
    by (meson prod.exhaust)
  then have "run_state (createTicket C ord i) w = (Inr (), w')" "\<forall>t. admits w' t = admits w t"
    using m v create_admits [OF v] counter_admits by (auto simp: createTicket_def Let_def IncTicketsTotal_def run_simps)
  then show ?thesis by blast
qed

lemma create_loop_available:
  assumes "distinct is" "\<And>i. i \<in> set is \<Longrightarrow> view w (new_key ord (base + i)) = None \<and> lets_in C admits w ord (base + i)"
  shows "\<exists>w'. run_state (for_each (\<lambda>i. createTicket C ord (base + i)) is) w = (Inr (), w')"
  using assms
proof (induction "is" arbitrary: w)
  case (Cons i "is")
  from Cons.prems(2) [of i] createTicket_available [of w ord "base + i"] obtain u
    where u: "run_state (createTicket C ord (base + i)) w = (Inr (), u)" and same: "\<forall>t. admits u t = admits w t"
    by fastforce
  have "view u (new_key ord (base + j)) = None \<and> lets_in C admits u ord (base + j)" if "j \<in> set is" for j
  proof -
    have "new_key ord (base + j) \<noteq> new_key ord (base + i)"
      using that Cons.prems(1) ticket_name_inj [of ord "base + j" "base + i"] by (auto simp: new_key_def)
    with createTicket_ok [OF u] Cons.prems(2) [of j] that same show ?thesis by (auto simp: lets_in_def)
  qed
  from Cons.IH [OF _ this] Cons.prems(1) u show ?case by (auto simp: run_on_ok)
qed simp

end

lemma distinct_int32_upto: "distinct (int32_upto n)"
proof -
  have "k < 2 ^ 31" if "k < nat (sint n)" for k
  proof -
    have "int k < 2 ^ 31" using that sint_int32_range(2) [of n] by linarith
    then show ?thesis by simp
  qed
  then show ?thesis
    by (auto simp: int32_upto_def distinct_map inj_on_def intro!: of_nat_inj_int32)
qed

context ticket_store
begin

lemma listed:
  assumes "run_state (getOwnedTickets C ord) w = (Inr ts, v)"
  shows "view v = view w"
    "set ts = {t. \<exists>k. view w k = Some t \<and> selects (owned_options ord) (ticket_meta t)}"
    "distinct (map ticket_key ts)"
  using list_frame list_result [OF assms [unfolded getOwnedTickets_def]] assms
  by (auto simp: getOwnedTickets_def)

text \<open>
  What a pass can change at all: with few active tickets it only creates, with too many it
  only deletes, and under \<open>OnClaim\<close> only claimed ones.
\<close>

lemma handleExcessTickets_spares:
  assumes "run_state (handleExcessTickets C ord active desired) w = (r, w')"
    and "view w k = Some t" and "k \<notin> ticket_key ` {t \<in> set active. claimed t}"
    and "RefreshPolicy (order_spec ord) \<noteq> AlwaysRefresh"
  shows "view w' k = Some t"
proof (cases "RefreshPolicy (order_spec ord) = OnClaimRefresh")
  case True
  consider "w' = w" | "run_state (delete_claimed C (of_nat (length active) - desired) 0 (rev active)) w = (r, w')"
    using assms(1) True by (auto simp: handleExcessTickets_def Let_def split: if_splits)
  then show ?thesis
  proof cases
    case 2
    from delete_claimed_any [OF this] obtain K
      where K: "K \<subseteq> ticket_key ` {t \<in> set (rev active). claimed t}" "cleared view K w w'" by (elim exE conjE)
    then have "k \<notin> K" using assms(3) by auto
    with K(2) assms(2) show ?thesis by (simp add: cleared_def)
  qed (use assms(2) in simp)
next
  case False
  with assms show ?thesis
    by (auto simp: handleExcessTickets_def Let_def split: if_splits refresh_policy.splits)
qed

lemma reconcileTickets_spares:
  assumes run: "run_state (reconcileTickets C ord) w = (r, w')"
    and bound: "card (active_keys view ord w) < 2 ^ 31"
    and k: "view w k = Some t"
    and spare: "int (card (active_keys view ord w)) \<le> sint (desired_replicas ord) \<or>
      RefreshPolicy (order_spec ord) \<noteq> AlwaysRefresh \<and> \<not> claimed t"
  shows "view w' k = Some t"
proof -
  let ?n = "card (active_keys view ord w)" and ?d = "desired_replicas ord"
  obtain q v where l: "run_state (getOwnedTickets C ord) w = (q, v)" by fastforce
  show ?thesis
  proof (cases q)
    case (Inl e)
    with l run k show ?thesis using list_frame by (auto simp: reconcileTickets_def run_on_ok getOwnedTickets_def)
  next
    case (Inr ts)
    note l = l [unfolded Inr]
    have active: "length (filterActiveTickets ts) = ?n" using listed_counts [OF l] by simp
    have k': "view v k = Some t" using k listed(1) [OF l] by simp
    note steps = run_reconcileTickets [OF l active bound, unfolded run]
    let ?loop = "for_each (\<lambda>i. createTicket C ord (of_nat (length ts) + i)) (int32_upto (?d - of_nat ?n))"
    let ?excess = "handleExcessTickets C ord (filterActiveTickets ts) ?d"
    consider (up) "int ?n < sint ?d" | (eq) "int ?n = sint ?d" | (down) "sint ?d < int ?n" by linarith
    then show ?thesis
    proof cases
      case up
      obtain p u where loop: "run_state ?loop v = (p, u)" by fastforce
      with up steps have "w' = u" by (cases p; simp add: run_on_ok)
      with create_loop_keeps [OF loop k'] show ?thesis by simp
    next
      case eq
      with steps k' show ?thesis by simp
    next
      case down
      obtain p u where excess: "run_state ?excess v = (p, u)" by fastforce
      with down steps have "w' = u" by (cases p; simp add: run_on_ok)
      moreover have "k \<notin> ticket_key ` {t \<in> set (filterActiveTickets ts). claimed t}"
      proof
        assume "k \<in> ticket_key ` {t \<in> set (filterActiveTickets ts). claimed t}"
        then obtain s where s: "claimed s" "s \<in> set ts" "k = ticket_key s"
          by (auto simp: filterActiveTickets_def)
        then obtain j where "view w j = Some s" using listed(2) [OF l] by auto
        with view_key s(3) k have "s = t" by fastforce
        with s(1) spare down show False by simp
      qed
      ultimately show ?thesis
        using handleExcessTickets_spares [OF excess k'] spare down by simp
    qed
  qed
qed

text \<open>When the first create fails, so does the pass, and the stored tickets stay.\<close>

lemma reconcileTickets_blocked:
  assumes bound: "card (active_keys view ord w) < 2 ^ 31"
    and few: "int (card (active_keys view ord w)) < sint (desired_replicas ord)"
    and fails: "\<And>ts v. run_state (getOwnedTickets C ord) w = (Inr ts, v) \<Longrightarrow>
      \<exists>e u. run_state (createTicket C ord (of_nat (card (owned_keys view ord w)))) v = (Inl e, u)"
  shows "\<exists>e w'. run_state (reconcileTickets C ord) w = (Inl e, w') \<and> view w' = view w"
proof -
  let ?n = "card (active_keys view ord w)" and ?d = "desired_replicas ord"
  obtain q v where l: "run_state (getOwnedTickets C ord) w = (q, v)" by fastforce
  show ?thesis
  proof (cases q)
    case (Inl e)
    with l show ?thesis using list_frame by (auto simp: reconcileTickets_def run_on_ok getOwnedTickets_def)
  next
    case (Inr ts)
    note l = l [unfolded Inr]
    have active: "length (filterActiveTickets ts) = ?n" and owned: "length ts = card (owned_keys view ord w)"
      using listed_counts [OF l] by simp_all
    have "sint (?d - of_nat ?n) = sint ?d - int ?n"
      using sint_int32_diff [of ?d "of_nat ?n"] few sint_int32_of_nat [OF bound] by simp
    then have "0 < nat (sint (?d - of_nat ?n))" using few by simp
    then obtain "is" where idx: "int32_upto (?d - of_nat ?n) = 0 # is"
      by (simp add: int32_upto_def upt_conv_Cons del: zero_less_nat_eq)
    from fails [OF l] createTicket_error listed(1) [OF l] owned
    obtain e u where "run_state (createTicket C ord (of_nat (length ts))) v = (Inl e, u)" "view u = view w" by metis
    with run_reconcileTickets [OF l active bound] few idx show ?thesis by (simp add: run_on_ok)
  qed
qed

lemma reconcileTickets_taken:
  assumes "card (active_keys view ord w) < 2 ^ 31"
    and "int (card (active_keys view ord w)) < sint (desired_replicas ord)"
    and "view w (new_key ord (of_nat (card (owned_keys view ord w)))) \<noteq> None"
  shows "\<exists>e w'. run_state (reconcileTickets C ord) w = (Inl e, w') \<and> view w' = view w"
proof (rule reconcileTickets_blocked [OF assms(1,2)])
  fix ts v assume "run_state (getOwnedTickets C ord) w = (Inr ts, v)"
  with listed(1) assms(3) createTicket_taken [of v ord "of_nat (card (owned_keys view ord w))"]
  show "\<exists>e u. run_state (createTicket C ord (of_nat (card (owned_keys view ord w)))) v = (Inl e, u)" by auto
qed

lemma reconcile_order_taken:
  assumes "card (active_keys view ord w) < 2 ^ 31"
    and "int (card (active_keys view ord w)) < sint (desired_replicas ord)"
    and "view w (new_key ord (of_nat (card (owned_keys view ord w)))) \<noteq> None"
    and "DeletionTimestamp (order_meta ord) = None" "ContainsFinalizer C (order_meta ord) OrderFinalizerName"
    and "Paused (order_spec ord) \<noteq> Some True"
  shows "\<exists>res e w'. run_state (reconcile_order C ord) w = ((res, Some e), w') \<and> view w' = view w"
proof -
  from reconcileTickets_taken [OF assms(1-3)] obtain e u
    where u: "run_state (reconcileTickets C ord) w = (Inl e, u)" "view u = view w" by blast
  let ?upd = "updateOrderStatus C ord ''Failed'' (''Failed to reconcile tickets: '' @ error_text e)"
  obtain x v where "run_state ?upd u = (x, v)" by fastforce
  with updateOrderStatus_frame [of ord "''Failed''" "''Failed to reconcile tickets: '' @ error_text e" u] u assms(4-6)
  show ?thesis by (cases "is_panic e") (auto simp: reconcile_order_def)
qed

lemma handleDeletion_cleared:
  assumes "run_state (Order_handleDeletion C ord) w = ((res, None), w')"
  shows "cleared view (owned_keys view ord w) w w'"
proof -
  obtain r u where d: "run_state (deleteOwnedTickets C ord) w = (r, u)" by fastforce
  show ?thesis
  proof (cases r)
    case (Inl e)
    with d assms show ?thesis by (simp add: Order_handleDeletion_def)
  next
    case (Inr x)
    with deleteOwnedTickets_cleared d have "cleared view (owned_keys view ord w) w u" by simp
    moreover have "view w' = view u"
      using assms d Inr
      by (auto simp: Order_handleDeletion_def dest!: frame_rules split: prod.splits sum.splits)
    ultimately show ?thesis by (simp add: cleared_def)
  qed
qed

lemma paused_frame:
  assumes "DeletionTimestamp (order_meta ord) = None" "Paused (order_spec ord) = Some True"
  shows "view (snd (run_state (reconcile_order C ord) w)) = view w"
  using assms updateOrderStatus_frame [of ord "''Paused''" "''Order is paused''" w]
  by (auto simp: reconcile_order_def dest!: frame_rules split: prod.splits sum.splits)

end

context available_ticket_store
begin

lemma reconcileTickets_available:
  assumes bound: "card (active_keys view ord w) < 2 ^ 31"
    and few: "int (card (active_keys view ord w)) \<le> sint (desired_replicas ord)"
    and free: "\<And>j. int j < sint (desired_replicas ord) - int (card (active_keys view ord w)) \<Longrightarrow>
         view w (new_key ord (of_nat (card (owned_keys view ord w) + j))) = None \<and>
         lets_in C admits w ord (of_nat (card (owned_keys view ord w) + j))"
  shows "\<exists>w'. run_state (reconcileTickets C ord) w = (requeue_5m, w') \<and>
     int (card (active_keys view ord w')) = sint (desired_replicas ord)"
proof -
  let ?n = "card (active_keys view ord w)" and ?d = "desired_replicas ord"
  from list_available obtain ts v where l: "run_state (getOwnedTickets C ord) w = (Inr ts, v)"
    unfolding getOwnedTickets_def by blast
  have active: "length (filterActiveTickets ts) = ?n" and owned: "length ts = card (owned_keys view ord w)"
    using listed_counts [OF l] by simp_all
  have diff: "sint (?d - of_nat ?n) = sint ?d - int ?n"
    using sint_int32_diff [of ?d "of_nat ?n"] few sint_int32_of_nat [OF bound] by simp
  have "\<exists>w'. run_state (for_each (\<lambda>i. createTicket C ord (of_nat (length ts) + i)) (int32_upto (?d - of_nat ?n))) v
      = (Inr (), w')"
  proof (rule create_loop_available)
    show "distinct (int32_upto (?d - of_nat ?n))" by (rule distinct_int32_upto)
    fix i assume "i \<in> set (int32_upto (?d - of_nat ?n))"
    then obtain j where "i = of_nat j" "int j < sint ?d - int ?n" by (auto simp: int32_upto_def diff)
    with free [of j] listed(1) [OF l] owned
    show "view v (new_key ord (of_nat (length ts) + i)) = None \<and> lets_in C admits v ord (of_nat (length ts) + i)"
      using list_admits l by (simp add: lets_in_def getOwnedTickets_def)
  qed
  then have "\<exists>w'. run_state (reconcileTickets C ord) w = (requeue_5m, w')"
    using run_reconcileTickets [OF l active bound] few by (auto simp: run_on_ok)
  with reconcileTickets_creates [OF _ bound few] show ?thesis by blast
qed

end

lemma count_phases_filter:
  "count_phases (u, x) ts =
     (u + of_nat (length (filter (\<lambda>t. Phase (ticket_status t) = TicketPending) ts)),
      x + of_nat (length (filter (\<lambda>t. Phase (ticket_status t) = TicketExpired) ts)))"
  by (induction ts arbitrary: u x) (auto split: ticket_phase.split)

definition unclaimed_keys :: "('w \<Rightarrow> object_key \<Rightarrow> 'q ticket option) \<Rightarrow> 'q order \<Rightarrow> 'w \<Rightarrow> object_key set" where
  "unclaimed_keys view ord w = {k \<in> active_keys view ord w. \<exists>t. view w k = Some t \<and> \<not> claimed t}"

lemma kept_keys_mem:
  "list_all (\<lambda>t. DeletionTimestamp (ticket_meta t) = None) (m_tickets w) \<Longrightarrow>
   kept_keys ticket_view ord w = active_keys ticket_view ord w"
  by (auto simp: kept_keys_def active_keys_def ticket_view_def store_find_def list_all_iff find_Some_iff)

context ticket_store
begin

lemma scale_down_count:
  assumes run: "run_state (reconcileTickets C ord) w = (Inr res, w')"
    and bound: "card (active_keys view ord w) < 2 ^ 31"
    and d: "0 \<le> sint (desired_replicas ord)" "sint (desired_replicas ord) < int (card (active_keys view ord w))"
    and unmarked: "kept_keys view ord w = active_keys view ord w"
  shows "card (kept_keys view ord w') =
    (case RefreshPolicy (order_spec ord) of
       AlwaysRefresh \<Rightarrow> nat (sint (desired_replicas ord))
     | OnClaimRefresh \<Rightarrow> max (nat (sint (desired_replicas ord))) (card (unclaimed_keys view ord w))
     | _ \<Rightarrow> card (active_keys view ord w))"
proof -
  let ?n = "card (active_keys view ord w)" and ?p = "RefreshPolicy (order_spec ord)"
  let ?d = "nat (sint (desired_replicas ord))"
  from reconcileTickets_scales_down [OF run bound d] obtain ts
    where ts: "distinct (map ticket_key ts)" "set ts = {t. \<exists>k. view w k = Some t \<and> k \<in> active_keys view ord w}"
      and clr: "cleared view (ticket_key ` set (excess_victims ?p (?n - ?d) ts)) w w'" by (elim exE conjE)
  let ?v = "excess_victims ?p (?n - ?d) ts"
  have keys: "ticket_key ` {t \<in> set ts. P t} = {k \<in> active_keys view ord w. \<exists>t. view w k = Some t \<and> P t}" for P
    using view_key unfolding ts(2) by (force simp: image_iff)
  have "ticket_key ` set ts = active_keys view ord w"
    using keys [of "\<lambda>_. True"] by (auto simp: active_keys_def)
  then have n: "length ts = ?n" using distinct_card [OF ts(1)] by simp
  have unclaimed: "length (filter (\<lambda>t. \<not> claimed t) ts) = card (unclaimed_keys view ord w)"
    using distinct_card [OF distinct_map_filter [OF ts(1)], of "\<lambda>t. \<not> claimed t"] keys [of "\<lambda>t. \<not> claimed t"]
    by (simp add: unclaimed_keys_def)
  have split: "length (filter claimed ts) + length (filter (\<lambda>t. \<not> claimed t) ts) = ?n"
    using sum_length_filter_compl [of claimed ts] n by simp
  have "ticket_key ` set ?v \<subseteq> active_keys view ord w"
    using excess_victims_subset [of ?p _ ts] keys [of "\<lambda>_. True"] by fastforce
  moreover have "card (ticket_key ` set ?v) = length ?v"
    using distinct_card [OF distinct_excess_victims [OF ts(1)]] by simp
  ultimately have "card (kept_keys view ord w') = ?n - length ?v"
    using cleared_kept [OF clr] unmarked by (simp add: card_Diff_subset finite_subset [OF _ finite_keys(2)])
  then show ?thesis
    using n d split unclaimed by (auto simp: excess_victims_def rev_filter [symmetric] min_def max_def split: refresh_policy.split)
qed

end

section \<open>Properties\<close>

text \<open>
  The runs the witnesses evaluate: an order \<open>web\<close> with a refresh policy and a replica
  count, and a world that holds its tickets, numbered by position, in given phases.
\<close>

definition blank_ticket_spec :: "'q ticket_spec" where
  "blank_ticket_spec = \<lparr>Lifecycle = None, Window = None, SchedulerName = None, PriorityClassName = None,
     Resources = None, NodeName = None, NodeSelector = None, Affinity = None, Tolerations = [],
     TopologySpreadConstraints = []\<rparr>"

definition sample_order :: "refresh_policy \<Rightarrow> int32 \<Rightarrow> unit order" where
  "sample_order policy n =
     \<lparr>order_meta = empty_meta\<lparr>Name := ''web'', Namespace := ''team'', UID := ''u1'',
                               Finalizers := [OrderFinalizerName]\<rparr>,
      order_spec = \<lparr>Paused = None, Replicas = Some n, RefreshPolicy = policy, MinReadySeconds = None,
                    Selector = None, Template = \<lparr>template_meta = empty_meta, template_spec = blank_ticket_spec\<rparr>\<rparr>,
      order_status = \<lparr>StatusReplicas = None, AvailableReplicas = None, UnavailableReplicas = None,
                      TerminalReplicas = None, UpdatedReplicas = None, OrderObservedGeneration = None,
                      CollisionCount = None, OrderConditions = []\<rparr>\<rparr>"

definition sample_world :: "(int32 \<times> ticket_phase) list \<Rightarrow> unit mem" where
  "sample_world ts = empty_mem\<lparr>m_tickets :=
     map (\<lambda>(i, p). (new_ticket (sample_order AlwaysRefresh 1) i)\<lparr>ticket_status := empty_ticket_status\<lparr>Phase := p\<rparr>\<rparr>) ts\<rparr>"

text \<open>Counting keys in the in-memory server.\<close>

lemma active_count_mem:
  "card (active_keys ticket_view ord w) =
     length (filterActiveTickets (store_list ticket_kind (owned_options ord) (m_tickets w)))"
  "card (owned_keys ticket_view ord w) =
     length (store_list ticket_kind (owned_options ord) (m_tickets w))"
  by (rule mem.listed_counts [symmetric, where w' = w], simp add: getOwnedTickets_def mem_client_def)+

text \<open>
  C1. Scaling up is exact. When an order has no more active tickets than it wants (and
  fewer than \<open>2^31\<close>), a pass that returns without error ends with exactly the wanted
  number, and every ticket stored before is still stored, unchanged.
\<close>

theorem scale_up_reaches_the_replica_count:
  assumes "ticket_store C view"
    and "run_state (reconcileTickets C ord) w = (Inr res, w')"
    and "card (active_keys view ord w) < 2 ^ 31"
    and "int (card (active_keys view ord w)) \<le> sint (desired_replicas ord)"
  shows "int (card (active_keys view ord w')) = sint (desired_replicas ord) \<and>
     (\<forall>k t. view w k = Some t \<longrightarrow> view w' k = Some t)"
  using ticket_store.reconcileTickets_creates [OF assms]
    ticket_store.reconcileTickets_spares [OF assms(1-3) _ disjI1 [OF assms(4)]] by blast

theorem scale_up_reaches_the_replica_count_witness:
  "card (active_keys ticket_view (sample_order AlwaysRefresh 3)
      (snd (run_state (reconcileTickets mem_client (sample_order AlwaysRefresh 3))
        (sample_world [(0, TicketReady), (1, TicketExpired)])))) = 3"
proof -
  let ?o = "sample_order AlwaysRefresh 3" and ?w = "sample_world [(0, TicketReady), (1, TicketExpired)]"
  have "fst (run_state (reconcileTickets mem_client ?o) ?w) = requeue_5m" by code_simp
  then have "run_state (reconcileTickets mem_client ?o) ?w =
      (requeue_5m, snd (run_state (reconcileTickets mem_client ?o) ?w))" by (rule run_eq_fst)
  moreover have "length (filterActiveTickets (store_list ticket_kind (owned_options ?o) (m_tickets ?w))) = 1"
    by code_simp
  moreover have "sint (desired_replicas ?o) = 3" by code_simp
  ultimately show ?thesis
    using scale_up_reaches_the_replica_count [OF mem.ticket_store_axioms, of ?o ?w]
    by (simp add: active_count_mem(1) [of ?o ?w])
qed

text \<open>
  C36. A taken name blocks an order. The first new ticket is numbered by the number of owned
  tickets; if that name is in use (a ticket in the middle of the sequence was deleted, say), the
  reconciliation of a live order that needs more tickets returns an error and leaves the
  stored tickets as they are, so the next one fails in the same way.
\<close>

theorem taken_name_blocks_scale_up:
  assumes "ticket_store C view"
    and "card (active_keys view ord w) < 2 ^ 31"
    and "int (card (active_keys view ord w)) < sint (desired_replicas ord)"
    and "view w (new_key ord (of_nat (card (owned_keys view ord w)))) \<noteq> None"
    and "DeletionTimestamp (order_meta ord) = None" "ContainsFinalizer C (order_meta ord) OrderFinalizerName"
    and "Paused (order_spec ord) \<noteq> Some True"
  shows "\<exists>res e w'. run_state (reconcile_order C ord) w = ((res, Some e), w') \<and> view w' = view w"
  using assms by (rule ticket_store.reconcile_order_taken)

theorem taken_name_blocks_scale_up_witness:
  "\<exists>res e w'. run_state (reconcile_order mem_client (sample_order OnClaimRefresh 3))
      (sample_world [(0, TicketReady), (2, TicketReady)]) = ((res, Some e), w') \<and>
    ticket_view w' = ticket_view (sample_world [(0, TicketReady), (2, TicketReady)])"
proof -
  let ?o = "sample_order OnClaimRefresh 3" and ?w = "sample_world [(0, TicketReady), (2, TicketReady)]"
  have count: "length (filterActiveTickets (store_list ticket_kind (owned_options ?o) (m_tickets ?w))) = 2"
    "length (store_list ticket_kind (owned_options ?o) (m_tickets ?w)) = 2" "sint (desired_replicas ?o) = 3"
    by code_simp+
  have "ticket_view ?w (new_key ?o (of_nat 2)) \<noteq> None" by code_simp
  moreover have "DeletionTimestamp (order_meta ?o) = None" "ContainsFinalizer mem_client (order_meta ?o) OrderFinalizerName"
    "Paused (order_spec ?o) \<noteq> Some True"
    by code_simp+
  ultimately show ?thesis
    using taken_name_blocks_scale_up [OF mem.ticket_store_axioms, of ?o ?w]
    unfolding active_count_mem(1) [of ?o ?w] active_count_mem(2) [of ?o ?w] count by simp
qed

text \<open>
  C2. Scaling down leaves the right number. If no active ticket is marked for deletion yet
  and there are too many, a pass that returns without error leaves unmarked: exactly
  the wanted number under \<open>Always\<close>; under \<open>OnClaim\<close> that number or, when fewer tickets are
  claimed than are in excess, all the unclaimed ones; and all of them under other policies.
\<close>

theorem scale_down_leaves_the_replica_count:
  assumes "ticket_store C view"
    and "run_state (reconcileTickets C ord) w = (Inr res, w')"
    and "card (active_keys view ord w) < 2 ^ 31"
    and "0 \<le> sint (desired_replicas ord)" "sint (desired_replicas ord) < int (card (active_keys view ord w))"
    and "kept_keys view ord w = active_keys view ord w"
  shows "card (kept_keys view ord w') =
    (case RefreshPolicy (order_spec ord) of
       AlwaysRefresh \<Rightarrow> nat (sint (desired_replicas ord))
     | OnClaimRefresh \<Rightarrow> max (nat (sint (desired_replicas ord))) (card (unclaimed_keys view ord w))
     | _ \<Rightarrow> card (active_keys view ord w))"
  using assms by (rule ticket_store.scale_down_count)

theorem scale_down_leaves_the_replica_count_witness:
  "card (kept_keys ticket_view (sample_order AlwaysRefresh 1) (snd (run_state
      (reconcileTickets mem_client (sample_order AlwaysRefresh 1))
      (sample_world [(0, TicketClaimed), (1, TicketReady), (2, TicketPending)])))) = 1"
proof -
  let ?o = "sample_order AlwaysRefresh 1" and ?w = "sample_world [(0, TicketClaimed), (1, TicketReady), (2, TicketPending)]"
  have count: "length (filterActiveTickets (store_list ticket_kind (owned_options ?o) (m_tickets ?w))) = 3"
    "sint (desired_replicas ?o) = 1" "RefreshPolicy (order_spec ?o) = AlwaysRefresh"
    by code_simp+
  have "fst (run_state (reconcileTickets mem_client ?o) ?w) = requeue_5m" by code_simp
  note run = run_eq_fst [OF this]
  have "list_all (\<lambda>t. DeletionTimestamp (ticket_meta t) = None) (m_tickets ?w)" by code_simp
  then have "kept_keys ticket_view ?o ?w = active_keys ticket_view ?o ?w" by (rule kept_keys_mem)
  with run show ?thesis
    using scale_down_leaves_the_replica_count [OF mem.ticket_store_axioms, OF run]
    unfolding active_count_mem(1) [of ?o ?w] count by simp
qed

text \<open>
  C20. Unclaimed capacity is safe from a scale-down. Under every policy but \<open>Always\<close>, a pass,
  whatever it returns, leaves every ticket that is not claimed exactly as it was.
\<close>

theorem only_always_deletes_unclaimed_tickets:
  assumes "ticket_store C view"
    and "run_state (reconcileTickets C ord) w = (r, w')"
    and "card (active_keys view ord w) < 2 ^ 31"
    and "RefreshPolicy (order_spec ord) \<noteq> AlwaysRefresh"
    and "view w k = Some t" "\<not> claimed t"
  shows "view w' k = Some t"
  by (rule ticket_store.reconcileTickets_spares [OF assms(1,2,3,5)]) (use assms(4,6) in simp)

theorem only_always_deletes_unclaimed_tickets_witness:
  "\<exists>t. ticket_view (snd (run_state (reconcileTickets mem_client (sample_order OnClaimRefresh 0))
      (sample_world [(0, TicketReady), (1, TicketClaimed)]))) (Key ''team'' ''web-0'') = Some t \<and> \<not> claimed t"
proof -
  let ?o = "sample_order OnClaimRefresh 0" and ?w = "sample_world [(0, TicketReady), (1, TicketClaimed)]"
  let ?t = "the (ticket_view ?w (Key ''team'' ''web-0''))"
  have "ticket_view ?w (Key ''team'' ''web-0'') = Some ?t" "\<not> claimed ?t"
    "length (filterActiveTickets (store_list ticket_kind (owned_options ?o) (m_tickets ?w))) = 2"
    "RefreshPolicy (order_spec ?o) = OnClaimRefresh"
    by code_simp+
  then show ?thesis
    using only_always_deletes_unclaimed_tickets [OF mem.ticket_store_axioms, of ?o ?w _ _ "Key ''team'' ''web-0''" ?t]
    by (intro exI [of _ ?t]) (simp add: active_count_mem(1) [of ?o ?w] prod_eq_iff)
qed

text \<open>
  C19. Deleting an order deletes its tickets. When the handling of a deleted order returns
  without error, each ticket the order owned is gone or marked for deletion, and no
  other ticket has changed.
\<close>

theorem order_deletion_clears_its_tickets:
  assumes "ticket_store C view"
    and "run_state (Order_handleDeletion C ord) w = ((res, None), w')"
  shows "if k \<in> owned_keys view ord w then gone_or_marked (view w k) (view w' k) else view w' k = view w k"
  using ticket_store.handleDeletion_cleared [OF assms] by (simp add: cleared_def)

theorem order_deletion_clears_its_tickets_witness:
  "\<forall>k. let ord = sample_order OnClaimRefresh 1;
         w = (sample_world [(0, TicketReady)])\<lparr>m_orders := [ord]\<rparr>;
         w' = snd (run_state (Order_handleDeletion mem_client ord) w) in
     if k \<in> owned_keys ticket_view ord w then gone_or_marked (ticket_view w k) (ticket_view w' k)
     else ticket_view w' k = ticket_view w k"
proof -
  let ?o = "sample_order OnClaimRefresh 1"
  let ?w = "(sample_world [(0, TicketReady)])\<lparr>m_orders := [?o]\<rparr>"
  have "fst (run_state (Order_handleDeletion mem_client ?o) ?w) = (no_result, None)" by code_simp
  from order_deletion_clears_its_tickets [OF mem.ticket_store_axioms, OF run_eq_fst [OF this]]
  show ?thesis unfolding Let_def by blast
qed

text \<open>
  C21. The published counts add up. For fewer than \<open>2^31\<close> tickets, available and terminal
  replicas sum to the replicas; terminal ones are the expired tickets, unavailable ones the
  pending tickets; the available ones include the unavailable.
\<close>

theorem order_status_counts_add_up:
  assumes "length tickets < 2 ^ 31"
  shows "\<exists>total available unavailable terminal.
      let s = order_status_of ord tickets now reason message in
      StatusReplicas s = Some total \<and> AvailableReplicas s = Some available \<and>
      UnavailableReplicas s = Some unavailable \<and> TerminalReplicas s = Some terminal \<and>
      sint total = int (length tickets) \<and> sint available + sint terminal = sint total \<and>
      sint terminal = int (length (filter (\<lambda>t. Phase (ticket_status t) = TicketExpired) tickets)) \<and>
      sint unavailable = int (length (filter (\<lambda>t. Phase (ticket_status t) = TicketPending) tickets)) \<and>
      sint unavailable \<le> sint available"
proof -
  let ?p = "filter (\<lambda>t. Phase (ticket_status t) = TicketPending) tickets"
  let ?e = "filter (\<lambda>t. Phase (ticket_status t) = TicketExpired) tickets"
  have sum: "length (filterActiveTickets tickets) + length ?e = length tickets"
    unfolding filterActiveTickets_def using sum_length_filter_compl [of _ tickets] by (simp add: add.commute)
  have sub: "length ?p \<le> length (filterActiveTickets tickets)"
    unfolding filterActiveTickets_def by (induction tickets) auto
  have small: "length ?p < 2 ^ 31" "length ?e < 2 ^ 31" "length (filterActiveTickets tickets) < 2 ^ 31"
    using assms sum sub by linarith+
  show ?thesis
    using sum sub
    by (simp add: order_status_of_def Let_def count_phases_filter sint_int32_of_nat [OF assms]
        sint_int32_of_nat [OF small(1)] sint_int32_of_nat [OF small(2)] sint_int32_of_nat [OF small(3)]
        flip: of_nat_add)
qed

theorem order_status_counts_add_up_witness:
  "\<exists>total available unavailable terminal.
      let tickets = m_tickets (sample_world [(0, TicketPending), (1, TicketExpired)]);
        s = order_status_of (sample_order OnClaimRefresh 1) tickets 0 ''Ready'' '''' in
      StatusReplicas s = Some total \<and> AvailableReplicas s = Some available \<and>
      UnavailableReplicas s = Some unavailable \<and> TerminalReplicas s = Some terminal \<and>
      sint available + sint terminal = sint total \<and> sint unavailable \<le> sint available"
proof -
  have "length (m_tickets (sample_world [(0, TicketPending), (1, TicketExpired)])) = 2" by code_simp
  then show ?thesis
    using order_status_counts_add_up [of "m_tickets (sample_world [(0, TicketPending), (1, TicketExpired)])"
        "sample_order OnClaimRefresh 1" 0 "''Ready''" "''''"]
    unfolding Let_def by fastforce
qed

text \<open>
  A recorded failure stays. Once an order carries a Failure condition with status True,
  no later status update, of success or of a new failure, changes it.
\<close>

theorem failure_condition_is_never_cleared:
  assumes "find_condition OrderFailure (OrderConditions (order_status ord)) = Some c"
    and "CondStatus c = ConditionTrue"
  shows "find_condition OrderFailure (OrderConditions (order_status_of ord tickets now reason message)) = Some c"
  using assms
  by (simp add: order_status_of_def Let_def split_beta find_upsert_condition find_upsert_condition_other)

theorem failure_condition_is_never_cleared_witness:
  "find_condition OrderFailure (OrderConditions (order_status_of
       ((sample_order OnClaimRefresh 1)\<lparr>order_status := order_status_of (sample_order OnClaimRefresh 1) [] 5 ''Failed'' ''boom''\<rparr>)
       [] 9 ''Ready'' ''Order is processing normally'')) =
     Some \<lparr>CondType = OrderFailure, CondStatus = ConditionTrue, LastTransitionTime = Some 5,
           CondReason = Some ''Failed'', CondMessage = Some ''boom''\<rparr>"
  by (rule failure_condition_is_never_cleared; code_simp)

end
