(* ===== verification/TicketController.thy ===== *)
theory TicketController
  imports MemApi GoTime
begin

text \<open>
  \<open>internal/controller/ticket_controller.go\<close>: the reconciler that takes a ticket through its
  phases and keeps a guardian pod, which holds the ticket's resources, while the ticket is
  ready. First the code, function by function; then what each handler does to the stored
  tickets and pods.
\<close>

section \<open>The code\<close>

definition TicketFinalizerName :: string where
  "TicketFinalizerName = ''korder.dev/ticket-finalizer''"

definition GuardianPodPrefix :: string where
  "GuardianPodPrefix = ''korder-guardian''"

text \<open>\<open>updateTicketStatus\<close>\<close>

definition ticket_status_of ::
  "'q ticket \<Rightarrow> ticket_phase \<Rightarrow> time \<Rightarrow> string \<Rightarrow> string \<Rightarrow> ticket_status" where
  "ticket_status_of ticket phase now reason message =
     (let ctype = (if phase = TicketExpired then TicketExpiring else TicketReadyCondition);
          cstatus = (if phase = TicketPending then ConditionFalse else ConditionTrue)
      in (ticket_status ticket)\<lparr>
           Phase := phase,
           TicketReason := Some reason,
           TicketMessage := Some message,
           TicketObservedGeneration := Some (Generation (ticket_meta ticket)),
           TicketConditions :=
             upsert_condition ctype cstatus now reason message (TicketConditions (ticket_status ticket))\<rparr>)"

definition updateTicketStatus ::
  "('q, 'w) client \<Rightarrow> 'q ticket \<Rightarrow> ticket_phase \<Rightarrow> string \<Rightarrow> string \<Rightarrow> ('w, outcome) state" where
  "updateTicketStatus C ticket phase reason message = do {
     now \<leftarrow> TimeNow C;
     u \<leftarrow> UpdateTicketStatus C (ticket\<lparr>ticket_status := ticket_status_of ticket phase now reason message\<rparr>);
     case u of
       Inl e \<Rightarrow> State_Monad.return (no_result, Some e)
     | Inr _ \<Rightarrow> State_Monad.return (no_result, None)
   }"

text \<open>The pod \<open>createGuardianPod\<close> builds, before the owner reference is set.\<close>

definition guardian_name :: "'q ticket \<Rightarrow> string" where
  "guardian_name ticket = GuardianPodPrefix @ ''-'' @ Name (ticket_meta ticket)"

definition default_requests :: "'q quantity_ops \<Rightarrow> 'q resource_requirements" where
  "default_requests Q =
     \<lparr>Requests = Some [(''cpu'', q_must_parse Q ''100m''), (''memory'', q_must_parse Q ''128Mi'')], Limits = None\<rparr>"

definition guardian_pod :: "'q quantity_ops \<Rightarrow> 'q ticket \<Rightarrow> 'q pod" where
  "guardian_pod Q ticket =
     (let s = ticket_spec ticket in
      \<lparr>pod_meta = empty_meta\<lparr>
         Name := guardian_name ticket,
         Namespace := Namespace (ticket_meta ticket),
         Labels := Some [(''korder.dev/ticket'', Name (ticket_meta ticket)),
                         (''korder.dev/ticket-uid'', UID (ticket_meta ticket)),
                         (''korder.dev/guardian'', ''true''),
                         (''korder.dev/component'', ''guardian-pod'')]\<rparr>,
       pod_spec = \<lparr>
         RestartPolicy = RestartPolicyAlways,
         Containers = [\<lparr>ContainerName = ''guardian'', Image = ''registry.k8s.io/pause:3.10'',
                         ContainerResources = deref_or (default_requests Q) (Resources s)\<rparr>],
         PodNodeName = deref_or '''' (NodeName s),
         PodSchedulerName = deref_or '''' (SchedulerName s),
         PodPriorityClassName = deref_or '''' (PriorityClassName s),
         PodNodeSelector = NodeSelector s,
         PodAffinity = Affinity s,
         PodTolerations = Tolerations s,
         PodTopologySpreadConstraints = TopologySpreadConstraints s\<rparr>,
       pod_phase = PodPhaseUnset\<rparr>)"

definition createGuardianPod ::
  "('q, 'w) client \<Rightarrow> 'q quantity_ops \<Rightarrow> 'q ticket \<Rightarrow> ('w, go_error + 'q pod) state" where
  "createGuardianPod C Q ticket =
     (let pod = guardian_pod Q ticket in
      case SetControllerReference C ''Ticket'' (ticket_meta ticket) (pod_meta pod) of
        Inl e \<Rightarrow> State_Monad.return (Inl e)
      | Inr m \<Rightarrow> CreatePod C (pod\<lparr>pod_meta := m\<rparr>))"

definition deleteGuardianPod :: "('q, 'w) client \<Rightarrow> 'q ticket \<Rightarrow> ('w, go_error + unit) state" where
  "deleteGuardianPod C ticket =
     (case GuardianPod (ticket_status ticket) of
        None \<Rightarrow> State_Monad.return (Inr ())
      | Some ref \<Rightarrow>
          (case go_split CHR ''/'' ref of
             [ns, nm] \<Rightarrow> do {
               r \<leftarrow> DeletePod C ns nm;
               case r of
                 Inl e \<Rightarrow> State_Monad.return (if is_not_found e then Inr () else Inl e)
               | Inr _ \<Rightarrow> State_Monad.return (Inr ())
             }
           | _ \<Rightarrow> State_Monad.return (Inl (Errorf (''invalid guardian pod format: '' @ ref)))))"

definition Ticket_handleDeletion :: "('q, 'w) client \<Rightarrow> 'q ticket \<Rightarrow> ('w, outcome) state" where
  "Ticket_handleDeletion C ticket = do {
     r \<leftarrow> deleteGuardianPod C ticket;
     case r of
       Inl e \<Rightarrow>
         State_Monad.return (if is_not_found e then (no_result, None) else (no_result\<lparr>Requeue := True\<rparr>, Some e))
     | Inr _ \<Rightarrow> do {
         u \<leftarrow> UpdateTicket C (ticket\<lparr>ticket_meta := RemoveFinalizer C (ticket_meta ticket) TicketFinalizerName\<rparr>);
         case u of
           Inl e \<Rightarrow>
             State_Monad.return (if is_not_found e then (no_result, None) else (no_result\<lparr>Requeue := True\<rparr>, Some e))
         | Inr _ \<Rightarrow> State_Monad.return (no_result, None)
       }
   }"

text \<open>
  \<open>handlePendingTicket\<close> up to the creation of the pod: the activation time, then the expiration time.
\<close>

definition set_activation :: "time \<Rightarrow> 'q ticket \<Rightarrow> 'q ticket" where
  "set_activation now ticket =
     (case ActivationTime (ticket_status ticket) of
        None \<Rightarrow> ticket\<lparr>ticket_status := (ticket_status ticket)\<lparr>ActivationTime := Some now\<rparr>\<rparr>
      | Some _ \<Rightarrow> ticket)"

definition set_expiration :: "'q ticket \<Rightarrow> go_error + 'q ticket" where
  "set_expiration ticket =
     (case (ExpirationTime (ticket_status ticket), Window (ticket_spec ticket)) of
        (None, Some win) \<Rightarrow>
          if Duration win \<noteq> '''' then
            (case ParseDuration (Duration win) of
               Inl e \<Rightarrow> Inl e
             | Inr d \<Rightarrow> Inr (ticket\<lparr>ticket_status := (ticket_status ticket)
                 \<lparr>ExpirationTime := map_option (\<lambda>t. t + d) (ActivationTime (ticket_status ticket))\<rparr>\<rparr>))
          else Inr ticket
      | _ \<Rightarrow> Inr ticket)"

text \<open>
  \<open>handlePendingTicket\<close> and \<open>handleReadyTicket\<close> call each other without a bound, so they take
  fuel, one unit per call; \<open>None\<close> means that it ran out.
\<close>

fun handlePendingTicket ::
    "nat \<Rightarrow> ('q, 'w) client \<Rightarrow> 'q quantity_ops \<Rightarrow> 'q ticket \<Rightarrow> ('w, outcome option) state"
  and handleReadyTicket ::
    "nat \<Rightarrow> ('q, 'w) client \<Rightarrow> 'q quantity_ops \<Rightarrow> 'q ticket \<Rightarrow> ('w, outcome option) state" where
  "handlePendingTicket 0 C Q ticket = State_Monad.return None"
| "handlePendingTicket (Suc n) C Q ticket = do {
     now \<leftarrow> TimeNow C;
     case set_expiration (set_activation now ticket) of
       Inl e \<Rightarrow> do {
         out \<leftarrow> updateTicketStatus C (set_activation now ticket) TicketPending ''Failed''
                  (''Invalid window duration: '' @ error_text e);
         State_Monad.return (Some out)
       }
     | Inr ticket \<Rightarrow> do {
         p \<leftarrow> createGuardianPod C Q ticket;
         case p of
           Inl e \<Rightarrow>
             if is_already_exists e then handleReadyTicket n C Q ticket
             else do {
               out \<leftarrow> updateTicketStatus C ticket TicketPending ''Failed''
                        (''Failed to create guardian pod: '' @ error_text e);
               State_Monad.return (Some out)
             }
         | Inr pod \<Rightarrow> do {
             out \<leftarrow> updateTicketStatus C
                      (ticket\<lparr>ticket_status := (ticket_status ticket)\<lparr>
                         Phase := TicketReady,
                         GuardianPod := Some (Namespace (pod_meta pod) @ ''/'' @ Name (pod_meta pod)),
                         BoundNode := Some (PodNodeName (pod_spec pod))\<rparr>\<rparr>)
                      TicketReady ''Activated'' ''Guardian pod created and ticket ready'';
             State_Monad.return (Some out)
           }
       }
   }"
| "handleReadyTicket 0 C Q ticket = State_Monad.return None"
| "handleReadyTicket (Suc n) C Q ticket =
     (let requeue = State_Monad.return (Some (no_result\<lparr>RequeueAfter := time_Second * 30\<rparr>, None)) in
      case GuardianPod (ticket_status ticket) of
        None \<Rightarrow> requeue
      | Some ref \<Rightarrow>
          (case go_split CHR ''/'' ref of
             [ns, nm] \<Rightarrow> do {
               g \<leftarrow> GetPod C ns nm;
               case g of
                 Inl e \<Rightarrow>
                   if is_not_found e then handlePendingTicket n C Q ticket
                   else State_Monad.return (Some (no_result, Some e))
               | Inr pod \<Rightarrow>
                   let node = PodNodeName (pod_spec pod);
                       ticket = (if node \<noteq> '''' \<and> BoundNode (ticket_status ticket) \<noteq> Some node
                                 then ticket\<lparr>ticket_status := (ticket_status ticket)\<lparr>BoundNode := Some node\<rparr>\<rparr>
                                 else ticket) in
                   if pod_phase pod = PodRunning then do {
                     out \<leftarrow> updateTicketStatus C ticket TicketReady ''Ready''
                              ''Guardian pod is running and ticket is ready'';
                     State_Monad.return (Some out)
                   }
                   else requeue
             }
           | _ \<Rightarrow> handlePendingTicket n C Q ticket))"

definition handleClaimedTicket :: "('q, 'w) client \<Rightarrow> 'q ticket \<Rightarrow> ('w, outcome) state" where
  "handleClaimedTicket C ticket = do {
     r \<leftarrow> deleteGuardianPod C ticket;
     case r of
       Inl e \<Rightarrow> State_Monad.return (no_result, Some e)
     | Inr _ \<Rightarrow>
         updateTicketStatus C (ticket\<lparr>ticket_status := (ticket_status ticket)\<lparr>GuardianPod := None\<rparr>\<rparr>)
           TicketClaimed ''Claimed'' ''Ticket claimed and guardian pod deleted''
   }"

text \<open>\<open>r.Delete(ctx, ticket)\<close> with its error check, in \<open>handleExpiredTicket\<close>.\<close>

definition delete_expired :: "('q, 'w) client \<Rightarrow> 'q ticket \<Rightarrow> ('w, outcome) state" where
  "delete_expired C ticket = do {
     d \<leftarrow> DeleteTicket C ticket;
     case d of
       Inl e \<Rightarrow> State_Monad.return (no_result, if is_not_found e then None else Some e)
     | Inr _ \<Rightarrow> State_Monad.return (no_result, None)
   }"

definition handleExpiredTicket :: "('q, 'w) client \<Rightarrow> 'q ticket \<Rightarrow> ('w, outcome) state" where
  "handleExpiredTicket C ticket = do {
     r \<leftarrow> deleteGuardianPod C ticket;
     case r of
       Inl e \<Rightarrow> State_Monad.return (no_result, Some e)
     | Inr _ \<Rightarrow>
         (case Lifecycle (ticket_spec ticket) of
            Some lc \<Rightarrow>
              if CleanupPolicy lc = DeleteCleanup then
                (case TTLSecondsAfterFinished lc of
                   Some ttl \<Rightarrow> do {
                     now \<leftarrow> TimeNow C;
                     let deleteTime = now + sint ttl * time_Second;
                     now2 \<leftarrow> TimeNow C;
                     if now2 > deleteTime then delete_expired C ticket
                     else do {
                       now3 \<leftarrow> TimeNow C;
                       State_Monad.return (no_result\<lparr>RequeueAfter := deleteTime - now3\<rparr>, None)
                     }
                   }
                 | None \<Rightarrow> delete_expired C ticket)
              else updateTicketStatus C ticket TicketExpired ''Expired'' ''Ticket expired and guardian pod deleted''
          | None \<Rightarrow>
              updateTicketStatus C ticket TicketExpired ''Expired'' ''Ticket expired and guardian pod deleted'')
   }"

definition handleExpiration :: "('q, 'w) client \<Rightarrow> 'q ticket \<Rightarrow> ('w, outcome) state" where
  "handleExpiration C ticket =
     (if Phase (ticket_status ticket) \<noteq> TicketExpired then
        updateTicketStatus C (ticket\<lparr>ticket_status := (ticket_status ticket)\<lparr>Phase := TicketExpired\<rparr>\<rparr>)
          TicketExpired ''Expired'' ''Ticket duration exceeded''
      else handleExpiredTicket C ticket)"

definition isTicketExpired :: "('q, 'w) client \<Rightarrow> 'q ticket \<Rightarrow> ('w, bool) state" where
  "isTicketExpired C ticket =
     (case ExpirationTime (ticket_status ticket) of
        None \<Rightarrow> State_Monad.return False
      | Some t \<Rightarrow> do { now \<leftarrow> TimeNow C; State_Monad.return (now > t) })"

definition some_outcome :: "('w, outcome) state \<Rightarrow> ('w, outcome option) state" where
  "some_outcome m = do { out \<leftarrow> m; State_Monad.return (Some out) }"

text \<open>\<open>Reconcile\<close> after the ticket is fetched.\<close>

definition reconcile_ticket ::
  "nat \<Rightarrow> ('q, 'w) client \<Rightarrow> 'q quantity_ops \<Rightarrow> 'q ticket \<Rightarrow> ('w, outcome option) state" where
  "reconcile_ticket n C Q ticket =
     (if DeletionTimestamp (ticket_meta ticket) \<noteq> None then some_outcome (Ticket_handleDeletion C ticket)
      else if \<not> ContainsFinalizer C (ticket_meta ticket) TicketFinalizerName then do {
        u \<leftarrow> UpdateTicket C (ticket\<lparr>ticket_meta := AddFinalizer C (ticket_meta ticket) TicketFinalizerName\<rparr>);
        case u of
          Inl e \<Rightarrow> State_Monad.return (Some (no_result, Some e))
        | Inr _ \<Rightarrow> State_Monad.return (Some (no_result\<lparr>Requeue := True\<rparr>, None))
      }
      else do {
        expired \<leftarrow> isTicketExpired C ticket;
        if expired then some_outcome (handleExpiration C ticket)
        else
          (case Phase (ticket_status ticket) of
             TicketPending \<Rightarrow> handlePendingTicket n C Q ticket
           | NoPhase \<Rightarrow> handlePendingTicket n C Q ticket
           | TicketReady \<Rightarrow> handleReadyTicket n C Q ticket
           | TicketClaimed \<Rightarrow> some_outcome (handleClaimedTicket C ticket)
           | TicketExpired \<Rightarrow> some_outcome (handleExpiredTicket C ticket)
           | OtherPhase _ \<Rightarrow> State_Monad.return (Some (no_result, None)))
      })"

definition Ticket_Reconcile ::
  "nat \<Rightarrow> ('q, 'w) client \<Rightarrow> 'q quantity_ops \<Rightarrow> string \<Rightarrow> string \<Rightarrow> ('w, outcome option) state" where
  "Ticket_Reconcile n C Q ns nm = timed C ''ticket'' (do {
     r \<leftarrow> GetTicket C ns nm;
     case r of
       Inl e \<Rightarrow> State_Monad.return (Some (no_result, if is_not_found e then None else Some e))
     | Inr ticket \<Rightarrow> reconcile_ticket n C Q ticket
   })"

section \<open>Effects of the handlers\<close>

text \<open>
  \<open>touches view k P w w'\<close>: between \<open>w\<close> and \<open>w'\<close> only the ticket \<open>k\<close> may have changed; it is
  gone, or its status is as before, or its new status satisfies \<open>P\<close>.
\<close>

definition touches ::
  "('w \<Rightarrow> object_key \<Rightarrow> 'q ticket option) \<Rightarrow> object_key \<Rightarrow> (ticket_status \<Rightarrow> bool) \<Rightarrow> 'w \<Rightarrow> 'w \<Rightarrow> bool" where
  "touches view k P w w' \<longleftrightarrow>
     (\<forall>j. j \<noteq> k \<longrightarrow> view w' j = view w j) \<and>
     (\<forall>s'. view w' k = Some s' \<longrightarrow>
        P (ticket_status s') \<or> (\<exists>s. view w k = Some s \<and> ticket_status s' = ticket_status s))"

lemma touches_refl: "view w' = view w \<Longrightarrow> touches view k P w w'"
  by (simp add: touches_def)

lemma touches_mono: "touches view k P w w' \<Longrightarrow> (\<And>s. P s \<Longrightarrow> Q s) \<Longrightarrow> touches view k Q w w'"
  by (auto simp: touches_def)

lemma touches_left: "view u = view w \<Longrightarrow> touches view k P u w' \<longleftrightarrow> touches view k P w w'"
  by (simp add: touches_def)

lemma touches_right: "view u = view w' \<Longrightarrow> touches view k P w u \<longleftrightarrow> touches view k P w w'"
  by (simp add: touches_def)

context ticket_server
begin

lemma server_frames:
  "run_state (TimeNow C) w = (n, w') \<Longrightarrow> view w' = view w \<and> pview w' = pview w"
  "run_state (HistogramObserve C hn ls d) w = (uu, w') \<Longrightarrow> view w' = view w \<and> pview w' = pview w"
  "run_state (GetTicket C ns nm) w = (rt, w') \<Longrightarrow> view w' = view w \<and> pview w' = pview w"
  "run_state (GetPod C ns nm) w = (rp, w') \<Longrightarrow> view w' = view w \<and> pview w' = pview w"
  by (rule conjI [OF frame_rules(3) pods_frame(4)] conjI [OF frame_rules(2) pods_frame(5)] get_ticket_frame
      conjI [OF tickets_frame(1) get_pod_frame]; assumption)+

text \<open>A status update writes one ticket, completely or not at all.\<close>

lemma updateTicketStatus_run:
  assumes "run_state (updateTicketStatus C t phase reason message) w = ((res, eo), w')"
  shows "res = no_result" "pview w' = pview w" "eo = Some e \<Longrightarrow> view w' = view w"
    "eo = None \<Longrightarrow> \<exists>now u s s'. run_state (TimeNow C) w = (now, u) \<and> view w (ticket_key t) = Some s \<and>
       view w' = (view w)(ticket_key t \<mapsto> s') \<and>
       ticket_status s' = stored_status (ticket_status_of t phase now reason message) \<and>
       ticket_spec s' = ticket_spec s \<and> (\<exists>v. ticket_meta s' = (ticket_meta s)\<lparr>ResourceVersion := v\<rparr>)"
proof -
  obtain now u where now: "run_state (TimeNow C) w = (now, u)" by fastforce
  let ?t = "t\<lparr>ticket_status := ticket_status_of t phase now reason message\<rparr>"
  obtain r v where upd: "run_state (UpdateTicketStatus C ?t) u = (r, v)" by fastforce
  note frames = server_frames(1) [OF now]
  have out: "w' = v" "res = no_result" "eo = (case r of Inl e \<Rightarrow> Some e | Inr _ \<Rightarrow> None)"
    using assms now upd by (cases r; simp add: updateTicketStatus_def)+
  show "res = no_result" by (rule out)
  show "pview w' = pview w" using frames pods_frame(2) [OF upd] out by simp
  show "eo = Some e \<Longrightarrow> view w' = view w"
    using out upd frames update_status_failure by (cases r) auto
  assume "eo = None"
  then obtain t' where "r = Inr t'" using out by (cases r) auto
  from update_status_result [OF upd [unfolded this]] frames out(1) now
  show "\<exists>now u s s'. run_state (TimeNow C) w = (now, u) \<and> view w (ticket_key t) = Some s \<and>
       view w' = (view w)(ticket_key t \<mapsto> s') \<and>
       ticket_status s' = stored_status (ticket_status_of t phase now reason message) \<and>
       ticket_spec s' = ticket_spec s \<and> (\<exists>v. ticket_meta s' = (ticket_meta s)\<lparr>ResourceVersion := v\<rparr>)"
    by auto
qed

lemma updateTicketStatus_touches:
  assumes "run_state (updateTicketStatus C t phase reason message) w = (out, w')"
  shows "touches view (ticket_key t) (\<lambda>s. \<exists>now. s = stored_status (ticket_status_of t phase now reason message)) w w'"
    "pview w' = pview w"
proof -
  obtain res eo where out: "out = (res, eo)" by (cases out)
  note run = updateTicketStatus_run [OF assms [unfolded out]]
  show "pview w' = pview w" by (rule run(2))
  show "touches view (ticket_key t) (\<lambda>s. \<exists>now. s = stored_status (ticket_status_of t phase now reason message)) w w'"
  proof (cases eo)
    case None
    from run(4) [OF None] show ?thesis by (auto simp: touches_def)
  next
    case (Some e)
    from run(3) [OF Some] show ?thesis by (rule touches_refl)
  qed
qed

lemma deleteGuardianPod_run:
  assumes "run_state (deleteGuardianPod C t) w = (r, w')"
  shows "view w' = view w"
    "r = Inr () \<Longrightarrow> GuardianPod (ticket_status t) = Some ref \<Longrightarrow>
       \<exists>ns nm. go_split CHR ''/'' ref = [ns, nm] \<and> (\<forall>k. k \<noteq> Key ns nm \<longrightarrow> pview w' k = pview w k) \<and>
         (\<forall>p. pview w' (Key ns nm) = Some p \<longrightarrow> DeletionTimestamp (pod_meta p) \<noteq> None)"
    "GuardianPod (ticket_status t) = None \<Longrightarrow> r = Inr () \<and> w' = w"
proof -
  consider (none) "GuardianPod (ticket_status t) = None"
    | (pair) ref ns nm where "GuardianPod (ticket_status t) = Some ref" "go_split CHR ''/'' ref = [ns, nm]"
    | (bad) ref where "GuardianPod (ticket_status t) = Some ref" "\<forall>ns nm. go_split CHR ''/'' ref \<noteq> [ns, nm]"
    by (cases "GuardianPod (ticket_status t)") auto
  note cases = this
  define d u where "d = (\<lambda>ns nm. fst (run_state (DeletePod C ns nm) w))"
    and "u = (\<lambda>ns nm. snd (run_state (DeletePod C ns nm) w))"
  then have d: "\<And>ns nm. run_state (DeletePod C ns nm) w = (d ns nm, u ns nm)"
    by simp
  have bad: "r = Inl (Errorf (''invalid guardian pod format: '' @ ref)) \<and> w' = w"
    if "GuardianPod (ticket_status t) = Some ref" "\<forall>ns nm. go_split CHR ''/'' ref \<noteq> [ns, nm]" for ref
    using that assms by (auto simp: deleteGuardianPod_def split: list.splits)
  have pair: "w' = u ns nm \<and> (r = Inr () \<longrightarrow> (case d ns nm of Inl e \<Rightarrow> is_not_found e | Inr _ \<Rightarrow> True))"
    if "GuardianPod (ticket_status t) = Some ref" "go_split CHR ''/'' ref = [ns, nm]" for ref ns nm
    using that assms d by (auto simp: deleteGuardianPod_def split: if_splits sum.splits)
  show "view w' = view w"
    by (rule cases) (use assms bad pair tickets_frame(3) [OF d] in \<open>auto simp: deleteGuardianPod_def\<close>)
  show "GuardianPod (ticket_status t) = None \<Longrightarrow> r = Inr () \<and> w' = w"
    using assms by (simp add: deleteGuardianPod_def)
  assume ok: "r = Inr ()" and ref: "GuardianPod (ticket_status t) = Some ref"
  with bad obtain ns nm where split: "go_split CHR ''/'' ref = [ns, nm]" by blast
  show "\<exists>ns nm. go_split CHR ''/'' ref = [ns, nm] \<and> (\<forall>k. k \<noteq> Key ns nm \<longrightarrow> pview w' k = pview w k) \<and>
         (\<forall>p. pview w' (Key ns nm) = Some p \<longrightarrow> DeletionTimestamp (pod_meta p) \<noteq> None)"
  proof (cases "d ns nm")
    case (Inl e)
    with pair [OF ref split] ok have "w' = u ns nm" "is_not_found e" by auto
    with Inl delete_pod_failure [OF d [of ns nm, unfolded Inl]] delete_pod_missing [OF d [of ns nm, unfolded Inl]] split
    show ?thesis by auto
  next
    case (Inr x)
    with pair [OF ref split] split delete_pod_result [OF d [of ns nm, unfolded Inr]] show ?thesis by auto
  qed
qed

lemma createGuardianPod_run:
  assumes "run_state (createGuardianPod C Q t) w = (r, w')"
  shows "view w' = view w"
    "r = Inr p \<Longrightarrow> pview w (Key (Namespace (ticket_meta t)) (guardian_name t)) = None \<and>
       pview w' = (pview w)(Key (Namespace (ticket_meta t)) (guardian_name t) \<mapsto> p) \<and>
       Namespace (pod_meta p) = Namespace (ticket_meta t) \<and> Name (pod_meta p) = guardian_name t"
    "r = Inl e \<Longrightarrow> pview w' = pview w"
    "r = Inl e \<Longrightarrow> is_already_exists e \<Longrightarrow> pview w (Key (Namespace (ticket_meta t)) (guardian_name t)) \<noteq> None"
proof -
  let ?p = "guardian_pod Q t"
  let ?ref = "SetControllerReference C ''Ticket'' (ticket_meta t) (pod_meta ?p)"
  have "view w' = view w \<and>
    (\<forall>p. r = Inr p \<longrightarrow> pview w (Key (Namespace (ticket_meta t)) (guardian_name t)) = None \<and>
       pview w' = (pview w)(Key (Namespace (ticket_meta t)) (guardian_name t) \<mapsto> p) \<and>
       Namespace (pod_meta p) = Namespace (ticket_meta t) \<and> Name (pod_meta p) = guardian_name t) \<and>
    (\<forall>e. r = Inl e \<longrightarrow> pview w' = pview w \<and>
       (is_already_exists e \<longrightarrow> pview w (Key (Namespace (ticket_meta t)) (guardian_name t)) \<noteq> None))"
  proof (cases ?ref)
    case (Inl e)
    with assms set_pod_reference_error [OF Inl] show ?thesis by (auto simp: createGuardianPod_def Let_def)
  next
    case (Inr m)
    let ?q = "?p\<lparr>pod_meta := m\<rparr>"
    have run: "run_state (CreatePod C ?q) w = (r, w')"
      using assms Inr by (simp add: createGuardianPod_def Let_def)
    have m: "Name m = guardian_name t" "Namespace m = Namespace (ticket_meta t)"
      using set_pod_reference_identity [OF Inr] by (simp_all add: same_identity_def guardian_pod_def Let_def)
    then have key: "meta_key (pod_meta ?q) = Key (Namespace (ticket_meta t)) (guardian_name t)"
      by (simp add: meta_key_def)
    show ?thesis
    proof (cases r)
      case (Inl e)
      show ?thesis
        using tickets_frame(2) [OF run] create_pod_failure [OF run [unfolded Inl]]
          create_pod_exists [OF run [unfolded Inl]] Inl unfolding key by simp
    next
      case (Inr p)
      show ?thesis
        using tickets_frame(2) [OF run] create_pod_result [OF run [unfolded Inr]] m Inr unfolding key
        by (simp add: same_identity_def)
    qed
  qed
  then show "view w' = view w"
    "r = Inr p \<Longrightarrow> pview w (Key (Namespace (ticket_meta t)) (guardian_name t)) = None \<and>
       pview w' = (pview w)(Key (Namespace (ticket_meta t)) (guardian_name t) \<mapsto> p) \<and>
       Namespace (pod_meta p) = Namespace (ticket_meta t) \<and> Name (pod_meta p) = guardian_name t"
    "r = Inl e \<Longrightarrow> pview w' = pview w"
    "r = Inl e \<Longrightarrow> is_already_exists e \<Longrightarrow> pview w (Key (Namespace (ticket_meta t)) (guardian_name t)) \<noteq> None"
    by blast+
qed

end

text \<open>The activation and expiration times change nothing else of a ticket.\<close>

lemma set_activation_simps [simp]:
  "ticket_meta (set_activation now t) = ticket_meta t" "ticket_spec (set_activation now t) = ticket_spec t"
  "Phase (ticket_status (set_activation now t)) = Phase (ticket_status t)"
  "GuardianPod (ticket_status (set_activation now t)) = GuardianPod (ticket_status t)"
  "ExpirationTime (ticket_status (set_activation now t)) = ExpirationTime (ticket_status t)"
  "ActivationTime (ticket_status (set_activation now t)) =
     Some (deref_or now (ActivationTime (ticket_status t)))"
  by (simp_all add: set_activation_def split: option.split)

lemma set_expiration_simps:
  assumes "set_expiration t = Inr t'"
  shows "ticket_meta t' = ticket_meta t" "ticket_spec t' = ticket_spec t"
    "Phase (ticket_status t') = Phase (ticket_status t)"
    "GuardianPod (ticket_status t') = GuardianPod (ticket_status t)"
    "ActivationTime (ticket_status t') = ActivationTime (ticket_status t)"
  using assms by (auto simp: set_expiration_def split: option.splits if_splits sum.splits)

text \<open>
  One call of each of the two handlers, with the rest of the recursion as a run: the ways
  it can go.
\<close>

lemma handlePendingTicket_cases:
  assumes "run_state (handlePendingTicket (Suc n) C Q t) w = (out, w')"
  obtains (invalid) now u e s where "run_state (TimeNow C) w = (now, u)"
      "set_expiration (set_activation now t) = Inl e"
      "run_state (updateTicketStatus C (set_activation now t) TicketPending ''Failed''
         (''Invalid window duration: '' @ error_text e)) u = (s, w')" "out = Some s"
  | (exists) now u t' e v where "run_state (TimeNow C) w = (now, u)"
      "set_expiration (set_activation now t) = Inr t'"
      "run_state (createGuardianPod C Q t') u = (Inl e, v)" "is_already_exists e"
      "run_state (handleReadyTicket n C Q t') v = (out, w')"
  | (failed) now u t' e v s where "run_state (TimeNow C) w = (now, u)"
      "set_expiration (set_activation now t) = Inr t'"
      "run_state (createGuardianPod C Q t') u = (Inl e, v)" "\<not> is_already_exists e"
      "run_state (updateTicketStatus C t' TicketPending ''Failed''
         (''Failed to create guardian pod: '' @ error_text e)) v = (s, w')" "out = Some s"
  | (created) now u t' p v s where "run_state (TimeNow C) w = (now, u)"
      "set_expiration (set_activation now t) = Inr t'"
      "run_state (createGuardianPod C Q t') u = (Inr p, v)"
      "run_state (updateTicketStatus C
         (t'\<lparr>ticket_status := (ticket_status t')\<lparr>Phase := TicketReady,
            GuardianPod := Some (Namespace (pod_meta p) @ ''/'' @ Name (pod_meta p)),
            BoundNode := Some (PodNodeName (pod_spec p))\<rparr>\<rparr>)
         TicketReady ''Activated'' ''Guardian pod created and ticket ready'') v = (s, w')" "out = Some s"
proof -
  obtain now u where now: "run_state (TimeNow C) w = (now, u)" by fastforce
  show ?thesis
  proof (cases "set_expiration (set_activation now t)")
    case (Inl e)
    obtain s v where "run_state (updateTicketStatus C (set_activation now t) TicketPending ''Failed''
         (''Invalid window duration: '' @ error_text e)) u = (s, v)" by fastforce
    with invalid [OF now Inl] assms now Inl show ?thesis by simp
  next
    case (Inr t')
    note t' = this
    obtain r v where create: "run_state (createGuardianPod C Q t') u = (r, v)" by fastforce
    show ?thesis
    proof (cases r)
      case (Inl e)
      show ?thesis
      proof (cases "is_already_exists e")
        case True
        from exists [OF now t' create [unfolded Inl] True] assms now t' create Inl True show ?thesis by simp
      next
        case False
        obtain s x where "run_state (updateTicketStatus C t' TicketPending ''Failed''
           (''Failed to create guardian pod: '' @ error_text e)) v = (s, x)" by fastforce
        with failed [OF now t' create [unfolded Inl] False] assms now t' create Inl False show ?thesis by simp
      qed
    next
      case (Inr p)
      obtain s x where upd: "run_state (updateTicketStatus C
         (t'\<lparr>ticket_status := (ticket_status t')\<lparr>Phase := TicketReady,
            GuardianPod := Some (Namespace (pod_meta p) @ ''/'' @ Name (pod_meta p)),
            BoundNode := Some (PodNodeName (pod_spec p))\<rparr>\<rparr>)
         TicketReady ''Activated'' ''Guardian pod created and ticket ready'') v = (s, x)" by fastforce
      show ?thesis
        by (rule created [OF now t' create [unfolded Inr]]) (use assms now t' create Inr upd in auto)
    qed
  qed
qed

lemma handleReadyTicket_cases:
  assumes "run_state (handleReadyTicket (Suc n) C Q t) w = (out, w')"
  obtains (requeue) "GuardianPod (ticket_status t) = None" "w' = w"
      "out = Some (no_result\<lparr>RequeueAfter := time_Second * 30\<rparr>, None)"
  | (malformed) ref where "GuardianPod (ticket_status t) = Some ref" "\<And>ns nm. go_split CHR ''/'' ref \<noteq> [ns, nm]"
      "run_state (handlePendingTicket n C Q t) w = (out, w')"
  | (missing) ref ns nm e u where "GuardianPod (ticket_status t) = Some ref" "go_split CHR ''/'' ref = [ns, nm]"
      "run_state (GetPod C ns nm) w = (Inl e, u)" "is_not_found e"
      "run_state (handlePendingTicket n C Q t) u = (out, w')"
  | (error) ref ns nm e where "GuardianPod (ticket_status t) = Some ref" "go_split CHR ''/'' ref = [ns, nm]"
      "run_state (GetPod C ns nm) w = (Inl e, w')" "\<not> is_not_found e" "out = Some (no_result, Some e)"
  | (running) ref ns nm p u t' b s where "GuardianPod (ticket_status t) = Some ref" "go_split CHR ''/'' ref = [ns, nm]"
      "run_state (GetPod C ns nm) w = (Inr p, u)" "pod_phase p = PodRunning"
      "t' = t\<lparr>ticket_status := (ticket_status t)\<lparr>BoundNode := b\<rparr>\<rparr>"
      "run_state (updateTicketStatus C t' TicketReady ''Ready'' ''Guardian pod is running and ticket is ready'') u = (s, w')"
      "out = Some s"
  | (waiting) ref ns nm p where "GuardianPod (ticket_status t) = Some ref" "go_split CHR ''/'' ref = [ns, nm]"
      "run_state (GetPod C ns nm) w = (Inr p, w')" "pod_phase p \<noteq> PodRunning"
      "out = Some (no_result\<lparr>RequeueAfter := time_Second * 30\<rparr>, None)"
proof (cases "GuardianPod (ticket_status t)")
  case None
  with requeue assms show ?thesis by (simp add: Let_def)
next
  case (Some ref)
  show ?thesis
  proof (cases "\<exists>ns nm. go_split CHR ''/'' ref = [ns, nm]")
    case False
    then have "run_state (handlePendingTicket n C Q t) w = (out, w')"
      using assms Some by (auto simp: Let_def split: list.splits)
    with malformed [OF Some] False show ?thesis by blast
  next
    case True
    then obtain ns nm where split: "go_split CHR ''/'' ref = [ns, nm]" by auto
    obtain g u where get: "run_state (GetPod C ns nm) w = (g, u)" by fastforce
    show ?thesis
    proof (cases g)
      case (Inl e)
      with error [OF Some split] missing [OF Some split] get assms Some split show ?thesis
        by (cases "is_not_found e") (simp_all add: Let_def)
    next
      case (Inr p)
      note get = get [unfolded Inr]
      let ?node = "PodNodeName (pod_spec p)"
      let ?t = "if ?node \<noteq> '''' \<and> BoundNode (ticket_status t) \<noteq> Some ?node
         then t\<lparr>ticket_status := (ticket_status t)\<lparr>BoundNode := Some ?node\<rparr>\<rparr> else t"
      let ?b = "if ?node \<noteq> '''' \<and> BoundNode (ticket_status t) \<noteq> Some ?node then Some ?node else BoundNode (ticket_status t)"
      show ?thesis
      proof (cases "pod_phase p = PodRunning")
        case False
        with waiting [OF Some split] get assms Some split show ?thesis by (simp add: Let_def)
      next
        case True
        obtain s x where upd: "run_state (updateTicketStatus C ?t TicketReady ''Ready''
            ''Guardian pod is running and ticket is ready'') u = (s, x)" by fastforce
        have t: "?t = t\<lparr>ticket_status := (ticket_status t)\<lparr>BoundNode := ?b\<rparr>\<rparr>" by simp
        have "x = w'" "out = Some s"
          using assms Some split get True upd by (simp_all add: Let_def)
        with running [OF Some split get True t] upd show ?thesis by blast
      qed
    qed
  qed
qed

section \<open>The phases of a ticket\<close>

text \<open>The phase changes one reconciliation may write.\<close>

inductive phase_step :: "ticket_phase \<Rightarrow> ticket_phase \<Rightarrow> bool" where
  stay: "phase_step p p"
| expire: "phase_step p TicketExpired"
| activate: "p \<in> {NoPhase, TicketPending, TicketReady} \<Longrightarrow> phase_step p TicketReady"
| fail: "p \<in> {NoPhase, TicketPending, TicketReady} \<Longrightarrow> phase_step p TicketPending"

inductive_cases phase_stepE: "phase_step p q"
inductive_simps phase_step_from [simp]:
  "phase_step TicketExpired q" "phase_step TicketClaimed q"

text \<open>Where a sequence of steps can lead.\<close>

lemma phase_steps_from_expired: "phase_step\<^sup>*\<^sup>* TicketExpired q \<Longrightarrow> q = TicketExpired"
  by (induction rule: rtranclp_induct) auto

lemma phase_steps_from_claimed: "phase_step\<^sup>*\<^sup>* TicketClaimed q \<Longrightarrow> q \<in> {TicketClaimed, TicketExpired}"
  by (induction rule: rtranclp_induct) auto

context ticket_server
begin

lemma status_update_touches:
  assumes "run_state (updateTicketStatus C t' p reason message) u = (s, w')"
    and "ticket_meta t' = ticket_meta t" and "view u = view w" and P: "\<And>s. Phase s = p \<Longrightarrow> P s"
  shows "touches view (ticket_key t) P w w'"
proof -
  have "touches view (ticket_key t) P u w'"
    using updateTicketStatus_touches(1) [OF assms(1)] unfolding assms(2)
    by (rule touches_mono) (auto simp: ticket_status_of_def Let_def intro: P)
  then show ?thesis unfolding touches_left [OF assms(3)] .
qed

lemma pending_ready_touches:
  "run_state (handlePendingTicket n C Q t) w = (out, w') \<Longrightarrow>
     touches view (ticket_key t) (\<lambda>s. Phase s \<in> {TicketPending, TicketReady}) w w'"
  "run_state (handleReadyTicket n C Q t) w = (out, w') \<Longrightarrow>
     touches view (ticket_key t) (\<lambda>s. Phase s \<in> {TicketPending, TicketReady}) w w'"
proof (induction n arbitrary: t w)
  case 0
  { case 1 then show ?case by (simp add: touches_refl) }
  { case 2 then show ?case by (simp add: touches_refl) }
next
  case (Suc n)
  { case 1
    then show ?case
    proof (cases rule: handlePendingTicket_cases)
      case (invalid now u e s)
      from server_frames(1) [OF invalid(1)] show ?thesis
        by (intro status_update_touches [OF invalid(3)]) auto
    next
      case (exists now u t' e v)
      have v: "view v = view w" using server_frames(1) createGuardianPod_run(1) exists by metis
      from Suc.IH(2) [OF exists(5)] set_expiration_simps(1) [OF exists(2)] show ?thesis
        unfolding touches_left [OF v] by simp
    next
      case (failed now u t' e v s)
      have "view v = view w" using server_frames(1) createGuardianPod_run(1) failed by metis
      with set_expiration_simps(1) [OF failed(2)] show ?thesis
        by (intro status_update_touches [OF failed(5)]) auto
    next
      case (created now u t' p v s)
      have "view v = view w" using server_frames(1) createGuardianPod_run(1) created by metis
      with set_expiration_simps(1) [OF created(2)] show ?thesis
        by (intro status_update_touches [OF created(4)]) auto
    qed }
  { case 2
    then show ?case
    proof (cases rule: handleReadyTicket_cases)
      case requeue
      then show ?thesis by (simp add: touches_refl)
    next
      case malformed
      from Suc.IH(1) [OF malformed(3)] show ?thesis .
    next
      case (missing ref ns nm e u)
      have u: "view u = view w" using server_frames(4) [OF missing(3)] by simp
      from Suc.IH(1) [OF missing(5)] show ?thesis unfolding touches_left [OF u] .
    next
      case error
      from server_frames(4) [OF error(3)] show ?thesis by (simp add: touches_refl)
    next
      case (running ref ns nm p u t' b s)
      with server_frames(4) [OF running(3)] show ?thesis
        by (intro status_update_touches [OF running(6)]) auto
    next
      case waiting
      from server_frames(4) [OF waiting(3)] show ?thesis by (simp add: touches_refl)
    qed }
qed

lemma claimed_touches:
  assumes "run_state (handleClaimedTicket C t) w = (out, w')"
  shows "touches view (ticket_key t) (\<lambda>s. Phase s = TicketClaimed) w w'"
proof -
  obtain r u where d: "run_state (deleteGuardianPod C t) w = (r, u)" by fastforce
  note u = deleteGuardianPod_run(1) [OF d]
  show ?thesis
  proof (cases r)
    case (Inl e)
    with assms d u show ?thesis by (auto simp: handleClaimedTicket_def intro!: touches_refl)
  next
    case (Inr x)
    then have "run_state (updateTicketStatus C (t\<lparr>ticket_status := (ticket_status t)\<lparr>GuardianPod := None\<rparr>\<rparr>)
        TicketClaimed ''Claimed'' ''Ticket claimed and guardian pod deleted'') u = (out, w')"
      using assms d by (simp add: handleClaimedTicket_def)
    then show ?thesis by (rule status_update_touches) (use u in auto)
  qed
qed

lemma delete_expired_touches:
  assumes "run_state (delete_expired C t) w = (out, w')"
  shows "touches view (ticket_key t) P w w'"
proof -
  obtain r u where d: "run_state (DeleteTicket C t) w = (r, u)" by fastforce
  then have "w' = u" using assms by (cases r) (auto simp: delete_expired_def)
  then show ?thesis
    using d delete_failure [of t w _ u] delete_result [of t w _ u]
    by (cases r) (auto simp: touches_def)
qed

lemma expired_touches:
  assumes "run_state (handleExpiredTicket C t) w = (out, w')"
  shows "touches view (ticket_key t) (\<lambda>s. Phase s = TicketExpired) w w'"
proof -
  obtain r u where d: "run_state (deleteGuardianPod C t) w = (r, u)" by fastforce
  note u = deleteGuardianPod_run(1) [OF d]
  let ?upd = "updateTicketStatus C t TicketExpired ''Expired'' ''Ticket expired and guardian pod deleted''"
  obtain o1 w1 where upd: "run_state ?upd u = (o1, w1)" by fastforce
  obtain now u1 where n1: "run_state (TimeNow C) u = (now, u1)" by fastforce
  obtain now2 u2 where n2: "run_state (TimeNow C) u1 = (now2, u2)" by fastforce
  obtain now3 u3 where n3: "run_state (TimeNow C) u2 = (now3, u3)" by fastforce
  have v: "view u1 = view w" "view u2 = view w" "view u3 = view w"
    using server_frames(1) [OF n1] server_frames(1) [OF n2] server_frames(1) [OF n3] u by simp_all
  consider "view w' = view w" | "(out, w') = (o1, w1)" | "run_state (delete_expired C t) u = (out, w')"
    | "run_state (delete_expired C t) u2 = (out, w')"
  proof (cases r)
    case (Inl e)
    with assms d u show ?thesis by (auto simp: handleExpiredTicket_def intro: that)
  next
    case (Inr x)
    show ?thesis
    proof (cases "\<exists>lc. Lifecycle (ticket_spec t) = Some lc \<and> CleanupPolicy lc = DeleteCleanup")
      case False
      with assms d Inr upd show ?thesis
        by (auto simp: handleExpiredTicket_def intro: that split: option.splits)
    next
      case True
      with assms d Inr n1 n2 n3 v show ?thesis
        by (auto simp: handleExpiredTicket_def Let_def intro: that split: option.splits if_splits)
    qed
  qed
  then show ?thesis
  proof cases
    case 1
    then show ?thesis by (rule touches_refl)
  next
    case 2
    from upd have "touches view (ticket_key t) (\<lambda>s. Phase s = TicketExpired) w w1"
      by (rule status_update_touches) (use u in auto)
    with 2 show ?thesis by simp
  next
    case 3
    from delete_expired_touches [OF this] show ?thesis unfolding touches_left [OF u] .
  next
    case 4
    from delete_expired_touches [OF this] show ?thesis unfolding touches_left [OF v(2)] .
  qed
qed

lemma update_ticket_touches:
  assumes "run_state (UpdateTicket C t) w = (r, w')"
  shows "touches view (ticket_key t) P w w'"
  using assms update_ticket_failure [of t w _ w'] update_ticket_result [of t w _ w']
  by (cases r) (auto simp: touches_def)

end

end
