(* ===== verification/TicketLifecycle.thy ===== *)
theory TicketLifecycle
  imports TicketController
begin

text \<open>
  What the ticket reconciler guarantees: which phases can follow which, when the two mutually
  recursive handlers return, that a ready ticket has its guardian pod and a claimed one has
  given it up, what expiry and the TTL do, and the two situations in which the reconciler
  makes no progress.
\<close>

section \<open>Runs of a live ticket\<close>

text \<open>The expiry check, with the clock reading it makes.\<close>

definition expired_at :: "'q ticket \<Rightarrow> time \<Rightarrow> bool" where
  "expired_at t now \<longleftrightarrow> (\<exists>e. ExpirationTime (ticket_status t) = Some e \<and> now > e)"

definition live :: "('q, 'w) client \<Rightarrow> 'q ticket \<Rightarrow> bool" where
  "live C t \<longleftrightarrow> DeletionTimestamp (ticket_meta t) = None \<and> ContainsFinalizer C (ticket_meta t) TicketFinalizerName"

text \<open>What \<open>Reconcile\<close> does with a live ticket after the expiry check.\<close>

definition dispatch ::
  "nat \<Rightarrow> ('q, 'w) client \<Rightarrow> 'q quantity_ops \<Rightarrow> 'q ticket \<Rightarrow> bool \<Rightarrow> ('w, outcome option) state" where
  "dispatch n C Q t expired =
     (if expired then some_outcome (handleExpiration C t)
      else case Phase (ticket_status t) of
             TicketPending \<Rightarrow> handlePendingTicket n C Q t
           | NoPhase \<Rightarrow> handlePendingTicket n C Q t
           | TicketReady \<Rightarrow> handleReadyTicket n C Q t
           | TicketClaimed \<Rightarrow> some_outcome (handleClaimedTicket C t)
           | TicketExpired \<Rightarrow> some_outcome (handleExpiredTicket C t)
           | OtherPhase _ \<Rightarrow> State_Monad.return (Some (no_result, None)))"

lemma run_some_outcome:
  "run_state (some_outcome m) w = (Some (fst (run_state m w)), snd (run_state m w))"
  by (simp add: some_outcome_def split: prod.split)

lemma reconcile_ticket_live:
  assumes "run_state (reconcile_ticket n C Q t) w = (out, w')" "live C t"
  shows "\<exists>b u. run_state (isTicketExpired C t) w = (b, u) \<and> run_state (dispatch n C Q t b) u = (out, w')"
  using assms by (cases "run_state (isTicketExpired C t) w") (simp add: reconcile_ticket_def live_def dispatch_def)

lemma reconcile_ticket_live':
  assumes "run_state (isTicketExpired C t) w = (b, u)" "live C t"
  shows "run_state (reconcile_ticket n C Q t) w = run_state (dispatch n C Q t b) u"
  using assms by (simp add: reconcile_ticket_def live_def dispatch_def)

definition slash_free :: "'q ticket \<Rightarrow> bool" where
  "slash_free t \<longleftrightarrow> CHR ''/'' \<notin> set (Namespace (ticket_meta t)) \<and> CHR ''/'' \<notin> set (Name (ticket_meta t))"

definition guardian_key :: "'q ticket \<Rightarrow> object_key" where
  "guardian_key t = Key (Namespace (ticket_meta t)) (guardian_name t)"

definition guardian_ref :: "'q ticket \<Rightarrow> string" where
  "guardian_ref t = Namespace (ticket_meta t) @ ''/'' @ guardian_name t"

lemma guardian_ref_split:
  "slash_free t \<Longrightarrow> go_split CHR ''/'' (guardian_ref t) = [Namespace (ticket_meta t), guardian_name t]"
  by (simp add: guardian_ref_def slash_free_def go_split_append_sep go_split_no_sep guardian_name_def
      GuardianPodPrefix_def)

lemma guardian_meta_cong:
  "ticket_meta t' = ticket_meta t \<Longrightarrow> guardian_key t' = guardian_key t"
  "ticket_meta t' = ticket_meta t \<Longrightarrow> guardian_ref t' = guardian_ref t"
  "ticket_meta t' = ticket_meta t \<Longrightarrow> slash_free t' = slash_free t"
  by (simp_all add: guardian_key_def guardian_ref_def guardian_name_def slash_free_def)

text \<open>A window the activation can read.\<close>

definition window_ok :: "'q ticket \<Rightarrow> bool" where
  "window_ok t \<longleftrightarrow>
     (case Window (ticket_spec t) of
        None \<Rightarrow> True
      | Some win \<Rightarrow> Duration win = '''' \<or> (case ParseDuration (Duration win) of Inl _ \<Rightarrow> False | Inr _ \<Rightarrow> True))"

lemma window_ok_expiration: "window_ok t \<Longrightarrow> \<exists>t'. set_expiration (set_activation now t) = Inr t'"
  by (auto simp: window_ok_def set_expiration_def split: option.splits sum.splits)

text \<open>A guardian reference the controller wrote, or none.\<close>

definition own_guardian :: "'q ticket \<Rightarrow> bool" where
  "own_guardian t \<longleftrightarrow> slash_free t \<and> (\<forall>ref. GuardianPod (ticket_status t) = Some ref \<longrightarrow> ref = guardian_ref t)"

text \<open>A stored ticket whose guardian reference leads to a pod.\<close>

definition guarded :: "('w \<Rightarrow> object_key \<Rightarrow> 'q pod option) \<Rightarrow> 'w \<Rightarrow> 'q ticket \<Rightarrow> bool" where
  "guarded pview w s \<longleftrightarrow>
     (\<exists>ref ns nm p. GuardianPod (ticket_status s) = Some ref \<and> go_split CHR ''/'' ref = [ns, nm] \<and>
        pview w (Key ns nm) = Some p)"

context ticket_server
begin

lemma isTicketExpired_run:
  assumes "run_state (isTicketExpired C t) w = (b, u)"
  shows "view u = view w" "pview u = pview w" "b = expired_at t (fst (run_state (TimeNow C) w))"
  using assms server_frames(1) [of w "fst (run_state (TimeNow C) w)" "snd (run_state (TimeNow C) w)"]
  by (cases "run_state (TimeNow C) w"; auto simp: isTicketExpired_def expired_at_def split: option.splits)+

lemma handleExpiration_touches:
  assumes "run_state (handleExpiration C t) w = (out, w')"
  shows "touches view (ticket_key t) (\<lambda>s. Phase s = TicketExpired) w w'"
proof (cases "Phase (ticket_status t) = TicketExpired")
  case True
  with assms show ?thesis by (intro expired_touches [of t w out]) (simp add: handleExpiration_def)
next
  case False
  then have "run_state (updateTicketStatus C (t\<lparr>ticket_status := (ticket_status t)\<lparr>Phase := TicketExpired\<rparr>\<rparr>)
      TicketExpired ''Expired'' ''Ticket duration exceeded'') w = (out, w')"
    using assms by (simp add: handleExpiration_def)
  then show ?thesis by (rule status_update_touches) auto
qed

lemma dispatch_touches:
  assumes "run_state (dispatch n C Q t b) u = (out, w')"
  shows "touches view (ticket_key t) (\<lambda>s. phase_step (Phase (ticket_status t)) (Phase s)) u w'"
proof (cases b)
  case True
  have "touches view (ticket_key t) (\<lambda>s. Phase s = TicketExpired) u w'"
    using assms True by (intro handleExpiration_touches [of t u "fst (run_state (handleExpiration C t) u)"])
      (auto simp: dispatch_def run_some_outcome)
  then show ?thesis by (rule touches_mono) (simp add: phase_step.expire)
next
  case False
  have active: ?thesis
    if "run_state (handlePendingTicket n C Q t) u = (out, w') \<or> run_state (handleReadyTicket n C Q t) u = (out, w')"
      "Phase (ticket_status t) \<in> {NoPhase, TicketPending, TicketReady}"
  proof -
    from that(1) have "touches view (ticket_key t) (\<lambda>s. Phase s \<in> {TicketPending, TicketReady}) u w'"
      by (elim disjE) (rule pending_ready_touches, assumption)+
    then show ?thesis
      by (rule touches_mono) (use that(2) in \<open>auto intro: phase_step.activate phase_step.fail\<close>)
  qed
  show ?thesis
  proof (cases "Phase (ticket_status t)")
    case NoPhase
    with assms False show ?thesis by (intro active) (simp_all add: dispatch_def)
  next
    case TicketPending
    with assms False show ?thesis by (intro active) (simp_all add: dispatch_def)
  next
    case TicketReady
    with assms False show ?thesis by (intro active) (simp_all add: dispatch_def)
  next
    case TicketClaimed
    then have "touches view (ticket_key t) (\<lambda>s. Phase s = TicketClaimed) u w'"
      using assms False by (intro claimed_touches [of t u "fst (run_state (handleClaimedTicket C t) u)"])
        (auto simp: dispatch_def run_some_outcome)
    then show ?thesis by (rule touches_mono) (simp add: TicketClaimed)
  next
    case TicketExpired
    then have "touches view (ticket_key t) (\<lambda>s. Phase s = TicketExpired) u w'"
      using assms False by (intro expired_touches [of t u "fst (run_state (handleExpiredTicket C t) u)"])
        (auto simp: dispatch_def run_some_outcome)
    then show ?thesis by (rule touches_mono) (simp add: TicketExpired)
  next
    case OtherPhase
    with assms False show ?thesis by (auto simp: dispatch_def intro: touches_refl)
  qed
qed

lemma reconcile_ticket_touches:
  assumes "run_state (reconcile_ticket n C Q t) w = (out, w')"
  shows "touches view (ticket_key t) (\<lambda>s. phase_step (Phase (ticket_status t)) (Phase s)) w w'"
    (is "touches _ _ ?P _ _")
proof -
  consider (live) "live C t" | (deleted) "DeletionTimestamp (ticket_meta t) \<noteq> None"
    | (fresh) "DeletionTimestamp (ticket_meta t) = None" "\<not> ContainsFinalizer C (ticket_meta t) TicketFinalizerName"
    unfolding live_def by blast
  then show ?thesis
  proof cases
    case live
    then obtain b u where "run_state (isTicketExpired C t) w = (b, u)" "run_state (dispatch n C Q t b) u = (out, w')"
      using reconcile_ticket_live [OF assms] by blast
    with dispatch_touches isTicketExpired_run(1) [of t w b u] show ?thesis by (metis touches_left)
  next
    case deleted
    let ?t = "t\<lparr>ticket_meta := RemoveFinalizer C (ticket_meta t) TicketFinalizerName\<rparr>"
    obtain r u where d: "run_state (deleteGuardianPod C t) w = (r, u)" by fastforce
    obtain q v where upd: "run_state (UpdateTicket C ?t) u = (q, v)" by fastforce
    have "w' = u \<or> w' = v"
      using assms deleted d upd
      by (cases r; cases q; auto simp: reconcile_ticket_def Ticket_handleDeletion_def some_outcome_def split: if_splits)
    moreover have "ticket_key ?t = ticket_key t"
      using same_identity_key [OF finalizer_identity(2)] by simp
    ultimately show ?thesis
      using update_ticket_touches [OF upd, of ?P] touches_left [OF deleteGuardianPod_run(1) [OF d]]
        touches_refl [OF deleteGuardianPod_run(1) [OF d]] by auto
  next
    case fresh
    let ?t = "t\<lparr>ticket_meta := AddFinalizer C (ticket_meta t) TicketFinalizerName\<rparr>"
    obtain q v where upd: "run_state (UpdateTicket C ?t) w = (q, v)" by fastforce
    have "w' = v"
      using assms fresh upd by (cases q) (auto simp: reconcile_ticket_def)
    moreover have "ticket_key ?t = ticket_key t"
      using same_identity_key [OF finalizer_identity(1)] by simp
    ultimately show ?thesis
      using update_ticket_touches [OF upd, of ?P] by simp
  qed
qed

text \<open>One reconciliation by name.\<close>

lemma Ticket_Reconcile_step:
  assumes "run_state (Ticket_Reconcile n C Q ns nm) w = (out, w')"
  shows "j \<noteq> Key ns nm \<Longrightarrow> view w' j = view w j"
    "view w' (Key ns nm) = Some s' \<Longrightarrow>
       \<exists>s. view w (Key ns nm) = Some s \<and> phase_step (Phase (ticket_status s)) (Phase (ticket_status s'))"
proof -
  obtain a u where start: "run_state (TimeNow C) w = (a, u)" by fastforce
  obtain r v where get: "run_state (GetTicket C ns nm) u = (r, v)" by fastforce
  have v: "view v = view w" using server_frames(1) [OF start] server_frames(3) [OF get] by simp
  define body where "body = (case r of Inl e \<Rightarrow> State_Monad.return (Some (no_result, if is_not_found e then None else Some e))
     | Inr ticket \<Rightarrow> reconcile_ticket n C Q ticket)"
  obtain o1 x where body: "run_state body v = (o1, x)" by fastforce
  obtain z y where stop: "run_state (TimeNow C) x = (z, y)" by fastforce
  have "w' = snd (run_state (ObserveReconciliationDuration C ''ticket'' ''success'' (z - a)) y)"
    using assms start get body stop
    by (auto simp: Ticket_Reconcile_def timed_def body_def split: prod.splits sum.splits)
  then have w': "view w' = view x"
    using server_frames(1) [OF stop] server_frames(2) by (metis ObserveReconciliationDuration_def prod.collapse)
  have "touches view (Key ns nm) (\<lambda>s'. \<exists>s. view w (Key ns nm) = Some s \<and>
      phase_step (Phase (ticket_status s)) (Phase s')) v x"
  proof (cases r)
    case (Inl e)
    with body show ?thesis by (auto simp: body_def intro: touches_refl)
  next
    case (Inr t)
    then have t: "view w (Key ns nm) = Some t"
      using get get_ticket_result server_frames(1) [OF start] by metis
    then have "ticket_key t = Key ns nm" by (rule view_key)
    with reconcile_ticket_touches [of n Q t v o1 x] body Inr t show ?thesis
      by (auto simp: body_def intro: touches_mono)
  qed
  then show "j \<noteq> Key ns nm \<Longrightarrow> view w' j = view w j"
    "view w' (Key ns nm) = Some s' \<Longrightarrow>
       \<exists>s. view w (Key ns nm) = Some s \<and> phase_step (Phase (ticket_status s)) (Phase (ticket_status s'))"
    unfolding touches_def v w' using phase_step.stay by auto
qed

end

text \<open>Any sequence of reconciliations, of any tickets, with any outcomes.\<close>

fun reconcile_all ::
  "('q, 'w) client \<Rightarrow> 'q quantity_ops \<Rightarrow> (nat \<times> string \<times> string) list \<Rightarrow> ('w, unit) state" where
  "reconcile_all C Q [] = State_Monad.return ()"
| "reconcile_all C Q ((n, ns, nm) # rs) = do {
     _ \<leftarrow> Ticket_Reconcile n C Q ns nm;
     reconcile_all C Q rs
   }"

context ticket_server
begin

lemma reconcile_all_steps:
  assumes "run_state (reconcile_all C Q rs) w = (u, w')" and "view w' k = Some s'"
  shows "\<exists>s. view w k = Some s \<and> phase_step\<^sup>*\<^sup>* (Phase (ticket_status s)) (Phase (ticket_status s'))"
  using assms
proof (induction rs arbitrary: w)
  case Nil
  then show ?case by simp
next
  case (Cons r rs)
  obtain n ns nm where r: "r = (n, ns, nm)" by (cases r)
  obtain out v where step: "run_state (Ticket_Reconcile n C Q ns nm) w = (out, v)" by fastforce
  with Cons.prems r have "run_state (reconcile_all C Q rs) v = (u, w')" by simp
  from Cons.IH [OF this Cons.prems(2)] obtain s
    where s: "view v k = Some s" "phase_step\<^sup>*\<^sup>* (Phase (ticket_status s)) (Phase (ticket_status s'))" by blast
  show ?case
  proof (cases "k = Key ns nm")
    case True
    with Ticket_Reconcile_step(2) [OF step] s show ?thesis
      by (metis converse_rtranclp_into_rtranclp)
  next
    case False
    with Ticket_Reconcile_step(1) [OF step] s show ?thesis by metis
  qed
qed

text \<open>
  The two handlers that call each other: with a guardian reference of the controller's own
  making, two or three calls are enough.
\<close>

lemma pending_returns:
  assumes "run_state (handlePendingTicket (Suc (Suc n)) C Q t) w = (out, w')" "own_guardian t"
  shows "out \<noteq> None"
  using assms(1)
proof (cases rule: handlePendingTicket_cases)
  case (exists now u t' e v)
  note t' = set_expiration_simps [OF exists(2)]
  have there: "pview v (guardian_key t) \<noteq> None"
    using createGuardianPod_run(3,4) [OF exists(3)] exists(4) t'(1)
    by (simp add: guardian_key_def guardian_name_def)
  have own: "GuardianPod (ticket_status t') = Some ref \<Longrightarrow>
      go_split CHR ''/'' ref = [Namespace (ticket_meta t), guardian_name t]" for ref
    using assms(2) guardian_ref_split [of t] t'(4) by (auto simp: own_guardian_def)
  show ?thesis
    using exists(5)
  proof (cases rule: handleReadyTicket_cases)
    case (missing ref ns nm e u)
    with own [OF missing(1)] get_pod_missing [OF missing(3,4)] there show ?thesis
      by (simp add: guardian_key_def)
  qed (use own in auto)
qed simp_all

lemma ready_returns:
  assumes "run_state (handleReadyTicket (Suc (Suc (Suc n))) C Q t) w = (out, w')" "own_guardian t"
  shows "out \<noteq> None"
  using assms(1)
proof (cases rule: handleReadyTicket_cases)
  case malformed
  from pending_returns [OF malformed(3) assms(2)] show ?thesis .
next
  case missing
  from pending_returns [OF missing(5) assms(2)] show ?thesis .
qed simp_all

lemma reconcile_ticket_returns:
  assumes "own_guardian t" "3 \<le> n"
  shows "\<exists>out w'. run_state (reconcile_ticket n C Q t) w = (Some out, w')"
proof -
  obtain m where n: "n = Suc (Suc (Suc m))" using assms(2) that [of "n - 3"] by simp
  obtain out w' where run: "run_state (reconcile_ticket n C Q t) w = (out, w')" by fastforce
  have "out \<noteq> None"
  proof (cases "live C t")
    case True
    from reconcile_ticket_live [OF run True] obtain b u
      where d: "run_state (dispatch n C Q t b) u = (out, w')" by blast
    have pend: ?thesis if "run_state (handlePendingTicket n C Q t) u = (out, w')"
      using pending_returns [of "Suc m" Q t u out w'] that assms(1) n by simp
    have ready: ?thesis if "run_state (handleReadyTicket n C Q t) u = (out, w')"
      using ready_returns [of m Q t u out w'] that assms(1) n by simp
    show ?thesis
      using d pend ready
      by (cases b; cases "Phase (ticket_status t)") (auto simp: dispatch_def run_some_outcome)
  next
    case False
    with run show ?thesis
      by (auto simp: reconcile_ticket_def live_def run_some_outcome split: if_splits prod.splits sum.splits)
  qed
  with run show ?thesis by auto
qed

text \<open>A ticket written Ready is guarded.\<close>

lemma pending_ready_guarded:
  "run_state (handlePendingTicket n C Q t) w = (out, w') \<Longrightarrow> slash_free t \<Longrightarrow>
     view w' = view w \<or> (\<exists>s. view w' (ticket_key t) = Some s \<and> (Phase (ticket_status s) = TicketReady \<longrightarrow> guarded pview w' s))"
  "run_state (handleReadyTicket n C Q t) w = (out, w') \<Longrightarrow> slash_free t \<Longrightarrow>
     view w' = view w \<or> (\<exists>s. view w' (ticket_key t) = Some s \<and> (Phase (ticket_status s) = TicketReady \<longrightarrow> guarded pview w' s))"
proof (induction n arbitrary: t w)
  case 0
  { case 1 then show ?case by simp }
  { case 2 then show ?case by simp }
next
  case (Suc n)
  have written: "view w' = view w \<or> (\<exists>s. view w' (ticket_key t) = Some s \<and>
      (Phase (ticket_status s) = TicketReady \<longrightarrow> guarded pview w' s))"
    if upd: "run_state (updateTicketStatus C t' p reason message) u = (s, w')" "ticket_meta t' = ticket_meta t"
      and u: "view u = view w"
      and g: "p = TicketReady \<Longrightarrow> guarded pview u t'"
    for t t' p reason message u s w
  proof (cases s)
    case (Pair res eo)
    note run = updateTicketStatus_run [OF upd(1) [unfolded Pair]]
    show ?thesis
    proof (cases eo)
      case None
      from run(4) [OF this] obtain now x where x: "view w' (ticket_key t) = Some x"
        "ticket_status x = stored_status (ticket_status_of t' p now reason message)" using upd(2) by auto
      then have "Phase (ticket_status x) = p" "GuardianPod (ticket_status x) = GuardianPod (ticket_status t')"
        by (simp_all add: ticket_status_of_def Let_def)
      with x(1) g run(2) show ?thesis by (auto simp: guarded_def)
    next
      case (Some e)
      from run(3) [OF this] u show ?thesis by simp
    qed
  qed
  { case 1
    from 1(1) show ?case
    proof (cases rule: handlePendingTicket_cases)
      case (invalid now u e s)
      from server_frames(1) [OF invalid(1)] show ?thesis by (intro written [OF invalid(3)]) auto
    next
      case (exists now u t' e v)
      have v: "view v = view w" using server_frames(1) createGuardianPod_run(1) exists by metis
      note t' = set_expiration_simps(1) [OF exists(2)]
      from Suc.IH(2) [OF exists(5)] 1(2) v t' show ?thesis by (simp add: slash_free_def)
    next
      case (failed now u t' e v s)
      have "view v = view w" using server_frames(1) createGuardianPod_run(1) failed by metis
      with set_expiration_simps(1) [OF failed(2)] show ?thesis by (intro written [OF failed(5)]) auto
    next
      case (created now u t' p v s)
      have v: "view v = view w" using server_frames(1) createGuardianPod_run(1) created by metis
      note t' = set_expiration_simps(1) [OF created(2)]
      have "guarded pview v (t'\<lparr>ticket_status := (ticket_status t')\<lparr>Phase := TicketReady,
            GuardianPod := Some (Namespace (pod_meta p) @ ''/'' @ Name (pod_meta p)),
            BoundNode := Some (PodNodeName (pod_spec p))\<rparr>\<rparr>)"
        using createGuardianPod_run(2) [OF created(3) refl] guardian_ref_split [OF 1(2)] t'
        by (simp add: guarded_def guardian_ref_def guardian_name_def)
      with v t' show ?thesis by (intro written [OF created(4)]) auto
    qed }
  { case 2
    from 2(1) show ?case
    proof (cases rule: handleReadyTicket_cases)
      case malformed
      from Suc.IH(1) [OF malformed(3) 2(2)] show ?thesis .
    next
      case (missing ref ns nm e u)
      from Suc.IH(1) [OF missing(5) 2(2)] server_frames(4) [OF missing(3)] show ?thesis by simp
    next
      case error
      from server_frames(4) [OF error(3)] show ?thesis by simp
    next
      case (running ref ns nm p u t' b s)
      have "guarded pview u t'"
        using running(1,2,5) get_pod_result [OF running(3)] server_frames(4) [OF running(3)]
        by (simp add: guarded_def)
      with running(5) server_frames(4) [OF running(3)] show ?thesis by (intro written [OF running(6)]) auto
    next
      case waiting
      from server_frames(4) [OF waiting(3)] show ?thesis by simp
    qed simp }
qed

lemma reconcile_ticket_guarded:
  assumes run: "run_state (reconcile_ticket n C Q t) w = (out, w')" and live: "live C t" and sf: "slash_free t"
    and stored: "view w (ticket_key t) = Some t" and s: "view w' (ticket_key t) = Some s"
    and ready: "Phase (ticket_status s) = TicketReady"
  shows "ticket_status s = ticket_status t \<or> guarded pview w' s"
proof -
  from reconcile_ticket_live [OF run live] obtain b u
    where u: "run_state (isTicketExpired C t) w = (b, u)" and d: "run_state (dispatch n C Q t b) u = (out, w')" by blast
  have vu: "view u = view w" by (rule isTicketExpired_run(1) [OF u])
  have unchanged: ?thesis if "touches view (ticket_key t) (\<lambda>s. Phase s \<noteq> TicketReady) u w'"
    using that s ready stored vu by (auto simp: touches_def)
  have active: ?thesis
    if "run_state (handlePendingTicket n C Q t) u = (out, w') \<or> run_state (handleReadyTicket n C Q t) u = (out, w')"
  proof -
    from that have "view w' = view u \<or> (\<exists>s. view w' (ticket_key t) = Some s \<and>
        (Phase (ticket_status s) = TicketReady \<longrightarrow> guarded pview w' s))"
      by (elim disjE) (rule pending_ready_guarded [OF _ sf], assumption)+
    with s ready stored vu show ?thesis by auto
  qed
  show ?thesis
  proof (cases b)
    case True
    then have "run_state (handleExpiration C t) u = (fst (run_state (handleExpiration C t) u), w')"
      using d by (auto simp: dispatch_def run_some_outcome)
    from handleExpiration_touches [OF this] show ?thesis
      by (intro unchanged) (auto intro: touches_mono)
  next
    case False
    show ?thesis
    proof (cases "Phase (ticket_status t)")
      case TicketClaimed
      then have "run_state (handleClaimedTicket C t) u = (fst (run_state (handleClaimedTicket C t) u), w')"
        using d False by (auto simp: dispatch_def run_some_outcome)
      from claimed_touches [OF this] show ?thesis by (intro unchanged) (auto intro: touches_mono)
    next
      case TicketExpired
      then have "run_state (handleExpiredTicket C t) u = (fst (run_state (handleExpiredTicket C t) u), w')"
        using d False by (auto simp: dispatch_def run_some_outcome)
      from expired_touches [OF this] show ?thesis by (intro unchanged) (auto intro: touches_mono)
    next
      case OtherPhase
      with d False stored s vu show ?thesis by (auto simp: dispatch_def)
    qed (use d False active in \<open>simp_all add: dispatch_def\<close>)
  qed
qed

end

context ticket_server
begin

text \<open>A claimed ticket gives up its guardian.\<close>

lemma handleClaimedTicket_ok:
  assumes "run_state (handleClaimedTicket C t) w = ((res, None), w')"
  shows "\<exists>s. view w' (ticket_key t) = Some s \<and> Phase (ticket_status s) = TicketClaimed \<and>
      GuardianPod (ticket_status s) = None \<and> BoundNode (ticket_status s) = BoundNode (ticket_status t) \<and>
      ClaimedPod (ticket_status s) = ClaimedPod (ticket_status t)"
    "GuardianPod (ticket_status t) = Some ref \<Longrightarrow>
      \<exists>ns nm. go_split CHR ''/'' ref = [ns, nm] \<and> (\<forall>k. k \<noteq> Key ns nm \<longrightarrow> pview w' k = pview w k) \<and>
        (\<forall>p. pview w' (Key ns nm) = Some p \<longrightarrow> DeletionTimestamp (pod_meta p) \<noteq> None)"
proof -
  obtain r u where d: "run_state (deleteGuardianPod C t) w = (r, u)" by fastforce
  have r: "r = Inr ()" using assms d by (cases r) (auto simp: handleClaimedTicket_def)
  then have upd: "run_state (updateTicketStatus C (t\<lparr>ticket_status := (ticket_status t)\<lparr>GuardianPod := None\<rparr>\<rparr>)
      TicketClaimed ''Claimed'' ''Ticket claimed and guardian pod deleted'') u = ((res, None), w')"
    using assms d by (simp add: handleClaimedTicket_def)
  note run = updateTicketStatus_run [OF upd]
  from run(4) show "\<exists>s. view w' (ticket_key t) = Some s \<and> Phase (ticket_status s) = TicketClaimed \<and>
      GuardianPod (ticket_status s) = None \<and> BoundNode (ticket_status s) = BoundNode (ticket_status t) \<and>
      ClaimedPod (ticket_status s) = ClaimedPod (ticket_status t)"
    by (auto simp: ticket_status_of_def Let_def)
  show "GuardianPod (ticket_status t) = Some ref \<Longrightarrow>
      \<exists>ns nm. go_split CHR ''/'' ref = [ns, nm] \<and> (\<forall>k. k \<noteq> Key ns nm \<longrightarrow> pview w' k = pview w k) \<and>
        (\<forall>p. pview w' (Key ns nm) = Some p \<longrightarrow> DeletionTimestamp (pod_meta p) \<noteq> None)"
    using deleteGuardianPod_run(2) [OF d r] run(2) by simp
qed

lemma reconcile_claimed_ok:
  assumes run: "run_state (reconcile_ticket n C Q t) w = (Some (res, None), w')" and live: "live C t"
    and claimed: "Phase (ticket_status t) = TicketClaimed"
    and unexpired: "\<not> expired_at t (fst (run_state (TimeNow C) w))"
  shows "\<exists>s. view w' (ticket_key t) = Some s \<and> Phase (ticket_status s) = TicketClaimed \<and>
      GuardianPod (ticket_status s) = None \<and> BoundNode (ticket_status s) = BoundNode (ticket_status t) \<and>
      ClaimedPod (ticket_status s) = ClaimedPod (ticket_status t)"
    "GuardianPod (ticket_status t) = Some ref \<Longrightarrow>
      \<exists>ns nm. go_split CHR ''/'' ref = [ns, nm] \<and> (\<forall>k. k \<noteq> Key ns nm \<longrightarrow> pview w' k = pview w k) \<and>
        (\<forall>p. pview w' (Key ns nm) = Some p \<longrightarrow> DeletionTimestamp (pod_meta p) \<noteq> None)"
proof -
  from reconcile_ticket_live [OF run live] obtain b u
    where u: "run_state (isTicketExpired C t) w = (b, u)"
      and d: "run_state (dispatch n C Q t b) u = (Some (res, None), w')" by blast
  have "\<not> b" using isTicketExpired_run(3) [OF u] unexpired by simp
  then have "run_state (handleClaimedTicket C t) u = ((res, None), w')"
    using d claimed by (auto simp: dispatch_def run_some_outcome prod_eq_iff)
  note ok = handleClaimedTicket_ok [OF this]
  show "\<exists>s. view w' (ticket_key t) = Some s \<and> Phase (ticket_status s) = TicketClaimed \<and>
      GuardianPod (ticket_status s) = None \<and> BoundNode (ticket_status s) = BoundNode (ticket_status t) \<and>
      ClaimedPod (ticket_status s) = ClaimedPod (ticket_status t)" by (rule ok(1))
  show "GuardianPod (ticket_status t) = Some ref \<Longrightarrow>
      \<exists>ns nm. go_split CHR ''/'' ref = [ns, nm] \<and> (\<forall>k. k \<noteq> Key ns nm \<longrightarrow> pview w' k = pview w k) \<and>
        (\<forall>p. pview w' (Key ns nm) = Some p \<longrightarrow> DeletionTimestamp (pod_meta p) \<noteq> None)"
    using ok(2) isTicketExpired_run(2) [OF u] by simp
qed

text \<open>An expired ticket with a positive TTL is never deleted.\<close>

lemma handleExpiredTicket_ttl:
  assumes run: "run_state (handleExpiredTicket C t) w = (out, w')"
    and lc: "Lifecycle (ticket_spec t) = Some lc" "CleanupPolicy lc = DeleteCleanup"
      "TTLSecondsAfterFinished lc = Some ttl" "0 < sint ttl"
    and clock: "\<And>v n v' n' v''. run_state (TimeNow C) v = (n, v') \<Longrightarrow> run_state (TimeNow C) v' = (n', v'') \<Longrightarrow>
        n' - n \<le> time_Second"
  shows "view w' = view w"
proof -
  obtain r u where d: "run_state (deleteGuardianPod C t) w = (r, u)" by fastforce
  note u = deleteGuardianPod_run(1) [OF d]
  obtain now u1 where n1: "run_state (TimeNow C) u = (now, u1)" by fastforce
  obtain now2 u2 where n2: "run_state (TimeNow C) u1 = (now2, u2)" by fastforce
  obtain now3 u3 where n3: "run_state (TimeNow C) u2 = (now3, u3)" by fastforce
  have "time_Second * 1 \<le> time_Second * sint ttl"
    using lc(4) by (intro mult_left_mono) (auto simp: time_Second_def)
  then have "\<not> now2 > now + sint ttl * time_Second"
    using clock [OF n1 n2] by (simp add: mult.commute)
  then have "w' = u \<or> w' = u3"
    using run d n1 n2 n3 lc by (cases r) (auto simp: handleExpiredTicket_def Let_def)
  then show ?thesis
    using u server_frames(1) [OF n1] server_frames(1) [OF n2] server_frames(1) [OF n3] by auto
qed

lemma reconcile_expired_ttl:
  assumes run: "run_state (reconcile_ticket n C Q t) w = (out, w')" and live: "live C t"
    and ph: "Phase (ticket_status t) = TicketExpired"
    and lc: "Lifecycle (ticket_spec t) = Some lc" "CleanupPolicy lc = DeleteCleanup"
      "TTLSecondsAfterFinished lc = Some ttl" "0 < sint ttl"
    and clock: "\<And>v n v' n' v''. run_state (TimeNow C) v = (n, v') \<Longrightarrow> run_state (TimeNow C) v' = (n', v'') \<Longrightarrow>
        n' - n \<le> time_Second"
  shows "view w' = view w"
proof -
  from reconcile_ticket_live [OF run live] obtain b u
    where u: "run_state (isTicketExpired C t) w = (b, u)" and d: "run_state (dispatch n C Q t b) u = (out, w')" by blast
  have "run_state (handleExpiredTicket C t) u = (fst (run_state (handleExpiredTicket C t) u), w')"
    using d ph by (cases b) (auto simp: dispatch_def run_some_outcome handleExpiration_def)
  from handleExpiredTicket_ttl [OF this lc clock] isTicketExpired_run(1) [OF u] show ?thesis by simp
qed

text \<open>Expiry is recorded, before anything is cleaned up.\<close>

lemma reconcile_expires:
  assumes run: "run_state (reconcile_ticket n C Q t) w = (Some (res, None), w')" and live: "live C t"
    and expired: "expired_at t (fst (run_state (TimeNow C) w))" and ph: "Phase (ticket_status t) \<noteq> TicketExpired"
  shows "pview w' = pview w \<and> (\<exists>s. view w' (ticket_key t) = Some s \<and> Phase (ticket_status s) = TicketExpired \<and>
      GuardianPod (ticket_status s) = GuardianPod (ticket_status t))"
proof -
  from reconcile_ticket_live [OF run live] obtain b u
    where u: "run_state (isTicketExpired C t) w = (b, u)"
      and d: "run_state (dispatch n C Q t b) u = (Some (res, None), w')" by blast
  have b using isTicketExpired_run(3) [OF u] expired by simp
  then have "run_state (updateTicketStatus C (t\<lparr>ticket_status := (ticket_status t)\<lparr>Phase := TicketExpired\<rparr>\<rparr>)
      TicketExpired ''Expired'' ''Ticket duration exceeded'') u = ((res, None), w')"
    using d ph by (simp add: dispatch_def run_some_outcome handleExpiration_def prod_eq_iff)
  from updateTicketStatus_run(2,4) [OF this] isTicketExpired_run(2) [OF u] show ?thesis
    by (auto simp: ticket_status_of_def Let_def)
qed

text \<open>The first activation fixes both times.\<close>

lemma reconcile_activates:
  assumes run: "run_state (reconcile_ticket n C Q t) w = (out, w')" and live: "live C t"
    and new: "Phase (ticket_status t) = NoPhase" "GuardianPod (ticket_status t) = None"
      "ActivationTime (ticket_status t) = None" "ExpirationTime (ticket_status t) = None"
    and win: "Window (ticket_spec t) = Some win" "ParseDuration (Duration win) = Inr d"
    and stored: "view w (ticket_key t) = Some t"
    and s: "view w' (ticket_key t) = Some s" "Phase (ticket_status s) = TicketReady"
  shows "ActivationTime (ticket_status s) = Some (to_second (fst (run_state (TimeNow C) w))) \<and>
      ExpirationTime (ticket_status s) = Some (to_second (fst (run_state (TimeNow C) w) + d)) \<and>
      GuardianPod (ticket_status s) = Some (guardian_ref t) \<and>
      pview w (guardian_key t) = None \<and> (\<exists>p. pview w' (guardian_key t) = Some p)"
proof -
  from reconcile_ticket_live [OF run live] obtain b u
    where u: "run_state (isTicketExpired C t) w = (b, u)" and d: "run_state (dispatch n C Q t b) u = (out, w')" by blast
  note frame = isTicketExpired_run(1,2) [OF u]
  have nonempty: "Duration win \<noteq> ''''"
    using win(2) by (auto simp: ParseDuration_def Let_def)
  have "\<not> b" using isTicketExpired_run(3) [OF u] new(4) by (simp add: expired_at_def)
  with d new(1) have pend: "run_state (handlePendingTicket n C Q t) u = (out, w')" by (simp add: dispatch_def)
  then obtain m where n: "n = Suc m"
    using s stored frame new(1) by (cases n) auto
  from pend [unfolded n] show ?thesis
  proof (cases rule: handlePendingTicket_cases)
    case (invalid now v e x)
    with win new(4) nonempty show ?thesis by (auto simp: set_expiration_def)
  next
    case (exists now v t' e v')
    have "view v' = view w" using server_frames(1) createGuardianPod_run(1) exists frame by metis
    moreover have "view w' = view v'"
      using exists(5) set_expiration_simps(4) [OF exists(2)] new(2) by (cases m) auto
    ultimately show ?thesis using s stored new(1) by simp
  next
    case (failed now v t' e v' x)
    have "view v' = view w" using server_frames(1) createGuardianPod_run(1) failed frame by metis
    then have "touches view (ticket_key t) (\<lambda>s. Phase s = TicketPending) w w'"
      using set_expiration_simps(1) [OF failed(2)] by (intro status_update_touches [OF failed(5)]) auto
    with s(1) have "Phase (ticket_status s) = TicketPending \<or>
        (\<exists>x. view w (ticket_key t) = Some x \<and> ticket_status s = ticket_status x)"
      unfolding touches_def by blast
    with s(2) stored new(1) show ?thesis by (elim disjE exE conjE) simp_all
  next
    case (created now v t' p v' x)
    obtain res eo where x: "x = (res, eo)" by (cases x)
    have "u = w" using u new(4) by (simp add: isTicketExpired_def)
    with created(1) have reading: "fst (run_state (TimeNow C) w) = now" by simp
    have v': "view v' = view w" using server_frames(1) createGuardianPod_run(1) created frame by metis
    have pv: "pview v = pview w" using server_frames(1) [OF created(1)] frame by simp
    note t' = set_expiration_simps [OF created(2)]
    have exp: "ExpirationTime (ticket_status t') = Some (now + d)"
      using created(2) win new(3,4) nonempty by (auto simp: set_expiration_def)
    note run = updateTicketStatus_run [OF created(4) [unfolded x]]
    have "eo = None"
    proof (cases eo)
      case (Some e)
      from run(3) [OF this] v' s stored new(1) show ?thesis by simp
    qed
    from run(4) [OF this] s(1) t'(1) obtain clock where
      st: "ticket_status s = stored_status (ticket_status_of (t'\<lparr>ticket_status := (ticket_status t')\<lparr>Phase := TicketReady,
            GuardianPod := Some (Namespace (pod_meta p) @ ''/'' @ Name (pod_meta p)),
            BoundNode := Some (PodNodeName (pod_spec p))\<rparr>\<rparr>) TicketReady clock ''Activated''
            ''Guardian pod created and ticket ready'')" by auto
    have key: "Key (Namespace (ticket_meta t')) (guardian_name t') = guardian_key t"
      using t'(1) by (simp add: guardian_key_def guardian_name_def)
    note pod = createGuardianPod_run(2) [OF created(3) refl, unfolded key]
    show ?thesis
      using st exp t' new(3) pod pv run(2) key
      by (simp add: reading ticket_status_of_def Let_def guardian_ref_def guardian_name_def)
  qed
qed

end

context available_ticket_server
begin

lemma createGuardianPod_taken:
  assumes "pview w (guardian_key t) \<noteq> None"
  shows "\<exists>e w'. run_state (createGuardianPod C Q t) w = (Inl e, w') \<and> is_already_exists e \<and>
      view w' = view w \<and> pview w' = pview w"
proof -
  from set_pod_reference_available obtain m where
    m: "SetControllerReference C ''Ticket'' (ticket_meta t) (pod_meta (guardian_pod Q t)) = Inr m" by blast
  let ?p = "(guardian_pod Q t)\<lparr>pod_meta := m\<rparr>"
  have "meta_key (pod_meta ?p) = guardian_key t"
    using set_pod_reference_identity [OF m]
    by (simp add: same_identity_def guardian_pod_def Let_def meta_key_def guardian_key_def)
  with assms create_pod_taken [of w ?p] obtain e w' where c: "run_state (CreatePod C ?p) w = (Inl e, w')" "is_already_exists e"
    by auto
  then have "run_state (createGuardianPod C Q t) w = (Inl e, w')"
    using m by (simp add: createGuardianPod_def Let_def)
  with c create_pod_failure [OF c(1)] tickets_frame(2) [OF c(1)] show ?thesis by blast
qed

lemma pending_exists:
  assumes "window_ok t" "pview w (guardian_key t) \<noteq> None"
  shows "\<exists>t' v. run_state (handlePendingTicket (Suc n) C Q t) w = run_state (handleReadyTicket n C Q t') v \<and>
      ticket_meta t' = ticket_meta t \<and> ticket_spec t' = ticket_spec t \<and>
      GuardianPod (ticket_status t') = GuardianPod (ticket_status t) \<and> view v = view w \<and> pview v = pview w"
proof -
  obtain now u where now: "run_state (TimeNow C) w = (now, u)" by fastforce
  from window_ok_expiration [OF assms(1)] obtain t' where t': "set_expiration (set_activation now t) = Inr t'" by blast
  note simps = set_expiration_simps [OF t']
  from createGuardianPod_taken [of u t' Q] assms(2) server_frames(1) [OF now] simps(1) obtain e v
    where "run_state (createGuardianPod C Q t') u = (Inl e, v)" "is_already_exists e" "view v = view u" "pview v = pview u"
    by (auto simp: guardian_key_def guardian_name_def)
  with now t' simps server_frames(1) [OF now] show ?thesis
    by (intro exI [of _ t'] exI [of _ v]) simp
qed

text \<open>A ticket whose guardian exists but was not recorded waits for ever.\<close>

lemma unrecorded_guardian_waits:
  assumes live: "live C t" and ph: "Phase (ticket_status t) \<in> {NoPhase, TicketPending}"
    and g: "GuardianPod (ticket_status t) = None" "ExpirationTime (ticket_status t) = None"
    and "window_ok t" "pview w (guardian_key t) \<noteq> None" "2 \<le> n"
  shows "\<exists>w'. run_state (reconcile_ticket n C Q t) w = (Some (no_result\<lparr>RequeueAfter := time_Second * 30\<rparr>, None), w') \<and>
      view w' = view w \<and> pview w' = pview w"
proof -
  obtain m where n: "n = Suc (Suc m)" using assms(7) that [of "n - 2"] by simp
  have "run_state (isTicketExpired C t) w = (False, w)" using g(2) by (simp add: isTicketExpired_def)
  from reconcile_ticket_live' [OF this live] ph
  have "run_state (reconcile_ticket n C Q t) w = run_state (handlePendingTicket n C Q t) w"
    by (auto simp: dispatch_def)
  with pending_exists [OF assms(5,6), of "Suc m" Q] g(1) n show ?thesis by auto
qed

text \<open>
  A reference that leads nowhere, beside a guardian that exists: the two handlers call each
  other for ever.
\<close>

lemma dangling_diverges:
  assumes "GuardianPod (ticket_status t) = Some ref"
    and "\<And>ns nm. go_split CHR ''/'' ref = [ns, nm] \<Longrightarrow> pview w (Key ns nm) = None"
    and "window_ok t" "pview w (guardian_key t) \<noteq> None"
  shows "fst (run_state (handlePendingTicket n C Q t) w) = None \<and> fst (run_state (handleReadyTicket n C Q t) w) = None"
  using assms
proof (induction n arbitrary: t w)
  case (Suc n)
  from pending_exists [OF Suc.prems(3,4), of n Q] obtain t' v
    where t': "run_state (handlePendingTicket (Suc n) C Q t) w = run_state (handleReadyTicket n C Q t') v"
      "ticket_meta t' = ticket_meta t" "ticket_spec t' = ticket_spec t"
      "GuardianPod (ticket_status t') = Some ref" "pview v = pview w" using Suc.prems(1) by auto
  have "guardian_key t' = guardian_key t" "window_ok t'"
    using guardian_meta_cong(1) [OF t'(2)] t'(3) Suc.prems(3) by (simp_all add: window_ok_def)
  with Suc.IH [of t' v] Suc.prems t' have pend: "fst (run_state (handlePendingTicket (Suc n) C Q t) w) = None" by simp
  have "fst (run_state (handleReadyTicket (Suc n) C Q t) w) = None"
  proof (cases "\<exists>ns nm. go_split CHR ''/'' ref = [ns, nm]")
    case True
    then obtain ns nm where split: "go_split CHR ''/'' ref = [ns, nm]" by auto
    with Suc.prems(2) get_pod_absent obtain e u where get: "run_state (GetPod C ns nm) w = (Inl e, u)" "is_not_found e"
      by blast
    have "pview u = pview w" using server_frames(4) [OF get(1)] by simp
    with Suc.IH [of t u] Suc.prems get split show ?thesis by (simp add: Let_def)
  next
    case False
    then have "run_state (handleReadyTicket (Suc n) C Q t) w = run_state (handlePendingTicket n C Q t) w"
      using Suc.prems(1) by (auto simp: Let_def split: list.splits)
    with Suc.IH [of t w] Suc.prems show ?thesis by simp
  qed
  with pend show ?case by blast
qed simp

end

section \<open>Properties\<close>

text \<open>
  The ticket the witnesses reconcile, with a window of an hour and a TTL of a minute, and a
  world that holds it and some pods of its namespace.
\<close>

definition sample_quantities :: "unit quantity_ops" where
  "sample_quantities = \<lparr>q_zero = (), q_add = (\<lambda>_ _. ()), q_sub = (\<lambda>_ _. ()), q_cmp = (\<lambda>_ _. 0),
     q_equal = (\<lambda>_ _. True), q_sign = (\<lambda>_. 0), q_is_zero = (\<lambda>_. True),
     q_value = (\<lambda>_. 0), q_set = (\<lambda>_ _. ()), q_format = (\<lambda>_. DecimalSI), q_new = (\<lambda>_ _. ()),
     q_must_parse = (\<lambda>_. ()), q_show = (\<lambda>_. ''0''), q_show_list = (\<lambda>_. '''')\<rparr>"

definition sample_ticket :: "ticket_status \<Rightarrow> unit ticket" where
  "sample_ticket status =
     \<lparr>ticket_meta = empty_meta\<lparr>Name := ''web-0'', Namespace := ''team'', UID := ''u2'',
                                Finalizers := [TicketFinalizerName]\<rparr>,
      ticket_spec = \<lparr>Lifecycle = Some \<lparr>TTLSecondsAfterFinished = Some 60, CleanupPolicy = DeleteCleanup\<rparr>,
        Window = Some \<lparr>StartTime = None, TimeZone = None, Duration = ''1h''\<rparr>, SchedulerName = None,
        PriorityClassName = None, Resources = None, NodeName = None, NodeSelector = None, Affinity = None,
        Tolerations = [], TopologySpreadConstraints = []\<rparr>,
      ticket_status = status\<rparr>"

definition sample_pod :: "string \<Rightarrow> unit pod" where
  "sample_pod nm = (guardian_pod sample_quantities (sample_ticket empty_ticket_status))
     \<lparr>pod_meta := empty_meta\<lparr>Name := nm, Namespace := ''team''\<rparr>, pod_phase := PodRunning\<rparr>"

definition ticket_world :: "ticket_status \<Rightarrow> string list \<Rightarrow> unit mem" where
  "ticket_world status pods =
     empty_mem\<lparr>m_tickets := [sample_ticket status], m_pods := map sample_pod pods, m_clock := 10 ^ 9\<rparr>"

abbreviation sample_reconcile :: "nat \<Rightarrow> ticket_status \<Rightarrow> string list \<Rightarrow> outcome option \<times> unit mem" where
  "sample_reconcile n status pods \<equiv>
     run_state (reconcile_ticket n mem_client sample_quantities (sample_ticket status)) (ticket_world status pods)"

text \<open>
  C3. Claimed and expired tickets are never handed out again. After any sequence of
  reconciliations of any tickets, a ticket that was claimed is gone, claimed or expired, and one that
  was expired is gone or expired; no ticket appears that was not there.
\<close>

theorem claimed_and_expired_tickets_never_return:
  assumes "ticket_server C view pview"
    and "run_state (reconcile_all C Q rs) w = (u, w')" and "view w' k = Some s'"
  shows "\<exists>s. view w k = Some s \<and>
     (Phase (ticket_status s) = TicketClaimed \<longrightarrow> Phase (ticket_status s') \<in> {TicketClaimed, TicketExpired}) \<and>
     (Phase (ticket_status s) = TicketExpired \<longrightarrow> Phase (ticket_status s') = TicketExpired)"
proof -
  from ticket_server.reconcile_all_steps [OF assms] obtain s
    where "view w k = Some s" "phase_step\<^sup>*\<^sup>* (Phase (ticket_status s)) (Phase (ticket_status s'))" by blast
  then show ?thesis
    using phase_steps_from_claimed [of "Phase (ticket_status s')"] phase_steps_from_expired [of "Phase (ticket_status s')"]
    by auto
qed

theorem claimed_and_expired_tickets_never_return_witness:
  "\<exists>s'. ticket_view (snd (run_state (reconcile_all mem_client sample_quantities
        [(3, ''team'', ''web-0''), (3, ''team'', ''other''), (3, ''team'', ''web-0'')])
      (ticket_world (empty_ticket_status\<lparr>Phase := TicketClaimed\<rparr>) []))) (Key ''team'' ''web-0'') = Some s' \<and>
     Phase (ticket_status s') \<in> {TicketClaimed, TicketExpired}"
proof -
  let ?w = "ticket_world (empty_ticket_status\<lparr>Phase := TicketClaimed\<rparr>) []"
  let ?r = "run_state (reconcile_all mem_client sample_quantities
        [(3, ''team'', ''web-0''), (3, ''team'', ''other''), (3, ''team'', ''web-0'')]) ?w"
  have "ticket_view (snd ?r) (Key ''team'' ''web-0'') \<noteq> None" by code_simp
  then obtain s' where s': "ticket_view (snd ?r) (Key ''team'' ''web-0'') = Some s'" by blast
  have w: "map_option (\<lambda>s. Phase (ticket_status s)) (ticket_view ?w (Key ''team'' ''web-0'')) = Some TicketClaimed"
    by code_simp
  have "?r = (fst ?r, snd ?r)" by (rule prod.collapse [symmetric])
  from claimed_and_expired_tickets_never_return [OF memp.ticket_server_axioms, OF this s'] w s' show ?thesis by auto
qed

text \<open>
  C15. The handlers of a pending and of a ready ticket, which call each other without a bound,
  return: for a ticket whose guardian reference, if any, is the one the controller writes, a
  reconciliation ends after at most three calls of the two.
\<close>

theorem reconciliation_returns:
  assumes "ticket_server C view pview" and "own_guardian t" and "3 \<le> n"
  shows "\<exists>out w'. run_state (reconcile_ticket n C Q t) w = (Some out, w')"
  using assms by (rule ticket_server.reconcile_ticket_returns)

theorem reconciliation_returns_witness:
  "\<exists>out w'. sample_reconcile 3 (empty_ticket_status\<lparr>Phase := TicketReady,
      GuardianPod := Some ''team/korder-guardian-web-0''\<rparr>) [] = (Some out, w')"
proof (rule reconciliation_returns [OF memp.ticket_server_axioms])
  let ?t = "sample_ticket (empty_ticket_status\<lparr>Phase := TicketReady, GuardianPod := Some ''team/korder-guardian-web-0''\<rparr>)"
  have "slash_free ?t" "GuardianPod (ticket_status ?t) = Some (guardian_ref ?t)" by code_simp+
  then show "own_guardian ?t" by (simp add: own_guardian_def)
qed simp

text \<open>
  C39. For other references they may not. When the recorded guardian reference is malformed or
  names a missing pod while the pod the controller would create exists, no amount of fuel is
  enough: the two handlers call each other for ever.
\<close>

theorem dangling_reference_recurses_forever:
  assumes "available_ticket_server C view pview" and "live C t"
    and "Phase (ticket_status t) = TicketReady" "ExpirationTime (ticket_status t) = None"
    and "GuardianPod (ticket_status t) = Some ref"
    and "\<And>ns nm. go_split CHR ''/'' ref = [ns, nm] \<Longrightarrow> pview w (Key ns nm) = None"
    and "window_ok t" "pview w (guardian_key t) \<noteq> None"
  shows "fst (run_state (reconcile_ticket n C Q t) w) = None"
proof -
  have "run_state (isTicketExpired C t) w = (False, w)" using assms(4) by (simp add: isTicketExpired_def)
  from reconcile_ticket_live' [OF this assms(2)] assms(3) show ?thesis
    using available_ticket_server.dangling_diverges [OF assms(1,5-8)] by (simp add: dispatch_def)
qed

theorem dangling_reference_recurses_forever_witness:
  "\<forall>n. fst (sample_reconcile n (empty_ticket_status\<lparr>Phase := TicketReady, GuardianPod := Some ''team/old''\<rparr>)
      [''korder-guardian-web-0'']) = None"
proof (rule allI, rule dangling_reference_recurses_forever [OF memp.available_ticket_server_axioms])
  let ?s = "empty_ticket_status\<lparr>Phase := TicketReady, GuardianPod := Some ''team/old''\<rparr>"
  show "live mem_client (sample_ticket ?s)" "Phase (ticket_status (sample_ticket ?s)) = TicketReady"
    "ExpirationTime (ticket_status (sample_ticket ?s)) = None"
    "GuardianPod (ticket_status (sample_ticket ?s)) = Some ''team/old''"
    "window_ok (sample_ticket ?s)"
    "pod_view (ticket_world ?s [''korder-guardian-web-0'']) (guardian_key (sample_ticket ?s)) \<noteq> None"
    by code_simp+
  fix ns nm
  assume "go_split CHR ''/'' ''team/old'' = [ns, nm]"
  moreover have "go_split CHR ''/'' ''team/old'' = [''team'', ''old'']"
    "pod_view (ticket_world ?s [''korder-guardian-web-0'']) (Key ''team'' ''old'') = None" by code_simp+
  ultimately show "pod_view (ticket_world ?s [''korder-guardian-web-0'']) (Key ns nm) = None" by simp
qed

text \<open>
  C14. A ticket that a reconciliation moves to Ready has a guardian: its recorded reference reads
  back as the namespace and name of a stored pod. (For Kubernetes names, which have no slash.)
\<close>

theorem ready_tickets_have_their_guardian:
  assumes "ticket_server C view pview"
    and "run_state (reconcile_ticket n C Q t) w = (out, w')" and "live C t" and "slash_free t"
    and "view w (ticket_key t) = Some t" and "view w' (ticket_key t) = Some s"
    and "Phase (ticket_status s) = TicketReady" and "ticket_status s \<noteq> ticket_status t"
  shows "\<exists>ref ns nm p. GuardianPod (ticket_status s) = Some ref \<and> go_split CHR ''/'' ref = [ns, nm] \<and>
     pview w' (Key ns nm) = Some p"
  using ticket_server.reconcile_ticket_guarded [OF assms(1-7)] assms(8) by (simp add: guarded_def)

theorem ready_tickets_have_their_guardian_witness:
  "\<exists>s ref ns nm p. ticket_view (snd (sample_reconcile 3 empty_ticket_status [])) (Key ''team'' ''web-0'') = Some s \<and>
     GuardianPod (ticket_status s) = Some ref \<and> go_split CHR ''/'' ref = [ns, nm] \<and>
     pod_view (snd (sample_reconcile 3 empty_ticket_status [])) (Key ns nm) = Some p"
proof -
  let ?t = "sample_ticket empty_ticket_status" and ?r = "sample_reconcile 3 empty_ticket_status []"
  have "map_option (\<lambda>s. Phase (ticket_status s)) (ticket_view (snd ?r) (Key ''team'' ''web-0'')) = Some TicketReady"
    by code_simp
  then obtain s where s: "ticket_view (snd ?r) (Key ''team'' ''web-0'') = Some s" "Phase (ticket_status s) = TicketReady"
    by auto
  have t: "ticket_key ?t = Key ''team'' ''web-0''" "Phase (ticket_status ?t) = NoPhase" "live mem_client ?t" "slash_free ?t"
    by code_simp+
  have "ticket_status s \<noteq> ticket_status ?t"
  proof
    assume "ticket_status s = ticket_status ?t"
    with s(2) t(2) show False by simp
  qed
  moreover have "ticket_view (ticket_world empty_ticket_status []) (ticket_key ?t) = Some ?t"
    by (simp add: ticket_view_def store_find_def ticket_world_def)
  ultimately have "\<exists>ref ns nm p. GuardianPod (ticket_status s) = Some ref \<and> go_split CHR ''/'' ref = [ns, nm] \<and>
     pod_view (snd ?r) (Key ns nm) = Some p"
    using ready_tickets_have_their_guardian [OF memp.ticket_server_axioms, of 3 sample_quantities ?t
      "ticket_world empty_ticket_status []" "fst ?r" "snd ?r" s] s t by auto
  then show ?thesis using s(1) by blast
qed

text \<open>
  C12. Activation fixes the window. When a new ticket with a readable window is moved to Ready, its
  activation time is the reading of the clock at the start of the reconciliation and its
  expiration time lies the window's duration later (both to the second the API keeps), and its
  own guardian pod, which was not there before, was created.
\<close>

theorem activation_sets_the_window:
  assumes "ticket_server C view pview"
    and "run_state (reconcile_ticket n C Q t) w = (out, w')" and "live C t"
    and "Phase (ticket_status t) = NoPhase" "GuardianPod (ticket_status t) = None"
      "ActivationTime (ticket_status t) = None" "ExpirationTime (ticket_status t) = None"
    and "Window (ticket_spec t) = Some win" "ParseDuration (Duration win) = Inr d"
    and "view w (ticket_key t) = Some t"
    and "view w' (ticket_key t) = Some s" "Phase (ticket_status s) = TicketReady"
  shows "ActivationTime (ticket_status s) = Some (to_second (fst (run_state (TimeNow C) w))) \<and>
      ExpirationTime (ticket_status s) = Some (to_second (fst (run_state (TimeNow C) w) + d)) \<and>
      GuardianPod (ticket_status s) = Some (guardian_ref t) \<and>
      pview w (guardian_key t) = None \<and> (\<exists>p. pview w' (guardian_key t) = Some p)"
  using assms by (rule ticket_server.reconcile_activates)

theorem activation_sets_the_window_witness:
  "\<exists>s. ticket_view (snd (sample_reconcile 3 empty_ticket_status [])) (Key ''team'' ''web-0'') = Some s \<and>
     ActivationTime (ticket_status s) = Some (to_second (m_clock (ticket_world empty_ticket_status []))) \<and>
     ExpirationTime (ticket_status s) = Some (to_second (m_clock (ticket_world empty_ticket_status []) + 3600000000000))"
proof -
  let ?t = "sample_ticket empty_ticket_status" and ?r = "sample_reconcile 3 empty_ticket_status []"
  have "map_option (\<lambda>s. Phase (ticket_status s)) (ticket_view (snd ?r) (Key ''team'' ''web-0'')) = Some TicketReady"
    by code_simp
  then obtain s where s: "ticket_view (snd ?r) (Key ''team'' ''web-0'') = Some s" "Phase (ticket_status s) = TicketReady"
    by auto
  have t: "ticket_key ?t = Key ''team'' ''web-0''" "live mem_client ?t"
    "Window (ticket_spec ?t) = Some \<lparr>StartTime = None, TimeZone = None, Duration = ''1h''\<rparr>"
    "ParseDuration (Duration \<lparr>StartTime = None, TimeZone = None, Duration = ''1h''\<rparr>) = Inr 3600000000000"
    "Phase (ticket_status ?t) = NoPhase" "GuardianPod (ticket_status ?t) = None"
    "ActivationTime (ticket_status ?t) = None" "ExpirationTime (ticket_status ?t) = None"
    by code_simp+
  have clock: "fst (run_state (TimeNow mem_client) v) = m_clock v" for v :: "unit mem" by (simp add: mem_client_def)
  have "ticket_view (ticket_world empty_ticket_status []) (ticket_key ?t) = Some ?t"
    by (simp add: ticket_view_def store_find_def ticket_world_def)
  with activation_sets_the_window [OF memp.ticket_server_axioms, of 3 sample_quantities ?t
      "ticket_world empty_ticket_status []" "fst ?r" "snd ?r" _ _ s, OF _ t(2,5-8,3,4)] s(1) t(1)
  have "ActivationTime (ticket_status s) = Some (to_second (m_clock (ticket_world empty_ticket_status [])))"
    "ExpirationTime (ticket_status s) = Some (to_second (m_clock (ticket_world empty_ticket_status []) + 3600000000000))"
    using s(2) by (auto simp: clock)
  with s(1) show ?thesis by blast
qed

text \<open>
  Claiming releases the reservation. When a claimed, unexpired ticket is reconciled without
  error, its stored status has no guardian reference, and the pod it named is gone or
  marked for deletion, with all other pods as they were.
\<close>

theorem claimed_tickets_release_their_guardian:
  assumes "ticket_server C view pview"
    and "run_state (reconcile_ticket n C Q t) w = (Some (res, None), w')" and "live C t"
    and "Phase (ticket_status t) = TicketClaimed" and "\<not> expired_at t (fst (run_state (TimeNow C) w))"
    and "GuardianPod (ticket_status t) = Some ref"
  shows "\<exists>s ns nm. view w' (ticket_key t) = Some s \<and> Phase (ticket_status s) = TicketClaimed \<and>
     GuardianPod (ticket_status s) = None \<and> go_split CHR ''/'' ref = [ns, nm] \<and>
     (\<forall>k. k \<noteq> Key ns nm \<longrightarrow> pview w' k = pview w k) \<and>
     (\<forall>p. pview w' (Key ns nm) = Some p \<longrightarrow> DeletionTimestamp (pod_meta p) \<noteq> None)"
  using ticket_server.reconcile_claimed_ok [OF assms(1-5)] assms(6) by blast

theorem claimed_tickets_release_their_guardian_witness:
  "\<exists>s. ticket_view (snd (sample_reconcile 3 (empty_ticket_status\<lparr>Phase := TicketClaimed,
        GuardianPod := Some ''team/korder-guardian-web-0''\<rparr>) [''korder-guardian-web-0''])) (Key ''team'' ''web-0'') = Some s \<and>
     GuardianPod (ticket_status s) = None"
proof -
  let ?s = "empty_ticket_status\<lparr>Phase := TicketClaimed, GuardianPod := Some ''team/korder-guardian-web-0''\<rparr>"
  let ?t = "sample_ticket ?s" and ?r = "sample_reconcile 3 ?s [''korder-guardian-web-0'']"
  have "fst ?r = Some (no_result, None)" by code_simp
  then have run: "?r = (Some (no_result, None), snd ?r)" by (rule run_eq_fst)
  have t: "ticket_key ?t = Key ''team'' ''web-0''" "live mem_client ?t" "Phase (ticket_status ?t) = TicketClaimed"
    "GuardianPod (ticket_status ?t) = Some ''team/korder-guardian-web-0''" "ExpirationTime (ticket_status ?t) = None"
    by code_simp+
  have "\<not> expired_at ?t now" for now using t(5) by (simp add: expired_at_def)
  from claimed_tickets_release_their_guardian [OF memp.ticket_server_axioms, OF run t(2,3) this t(4)] t(1)
  show ?thesis by auto
qed

text \<open>
  C27. Expiry is recorded first. A live ticket whose expiration time has passed and that is not
  marked expired yet becomes Expired in one reconciliation, with its guardian pod and its
  reference to it still there; they are cleaned up by the next one.
\<close>

theorem expiry_is_recorded_before_cleanup:
  assumes "ticket_server C view pview"
    and "run_state (reconcile_ticket n C Q t) w = (Some (res, None), w')" and "live C t"
    and "expired_at t (fst (run_state (TimeNow C) w))" and "Phase (ticket_status t) \<noteq> TicketExpired"
  shows "pview w' = pview w \<and> (\<exists>s. view w' (ticket_key t) = Some s \<and> Phase (ticket_status s) = TicketExpired \<and>
      GuardianPod (ticket_status s) = GuardianPod (ticket_status t))"
  using assms by (rule ticket_server.reconcile_expires)

theorem expiry_is_recorded_before_cleanup_witness:
  "\<exists>s. ticket_view (snd (sample_reconcile 3 (empty_ticket_status\<lparr>Phase := TicketReady,
        GuardianPod := Some ''team/g'', ExpirationTime := Some 5\<rparr>) [''g''])) (Key ''team'' ''web-0'') = Some s \<and>
     Phase (ticket_status s) = TicketExpired"
proof -
  let ?s = "empty_ticket_status\<lparr>Phase := TicketReady, GuardianPod := Some ''team/g'', ExpirationTime := Some 5\<rparr>"
  let ?t = "sample_ticket ?s" and ?r = "sample_reconcile 3 ?s [''g'']"
  have "fst ?r = Some (no_result, None)" by code_simp
  then have run: "?r = (Some (no_result, None), snd ?r)" by (rule run_eq_fst)
  have t: "ticket_key ?t = Key ''team'' ''web-0''" "live mem_client ?t" "Phase (ticket_status ?t) = TicketReady"
    "ExpirationTime (ticket_status ?t) = Some 5" "fst (run_state (TimeNow mem_client) (ticket_world ?s [''g''])) = 10 ^ 9"
    by code_simp+
  from t(4,5) have "expired_at ?t (fst (run_state (TimeNow mem_client) (ticket_world ?s [''g''])))"
    by (simp add: expired_at_def)
  from expiry_is_recorded_before_cleanup [OF memp.ticket_server_axioms, OF run t(2) this] t(1,3)
  show ?thesis by auto
qed

text \<open>
  C40. A TTL keeps an expired ticket for ever. An expired ticket with cleanup policy Delete and a TTL of at
  least a second is never deleted, however long ago it expired: each reconciliation counts the TTL
  from its own start. (Two successive clock readings are taken to be at most a second
  apart.)
\<close>

theorem ttl_is_never_reached:
  assumes "ticket_server C view pview"
    and "run_state (reconcile_ticket n C Q t) w = (out, w')" and "live C t"
    and "Phase (ticket_status t) = TicketExpired"
    and "Lifecycle (ticket_spec t) = Some lc" "CleanupPolicy lc = DeleteCleanup"
      "TTLSecondsAfterFinished lc = Some ttl" "0 < sint ttl"
    and "\<And>v n v' n' v''. run_state (TimeNow C) v = (n, v') \<Longrightarrow> run_state (TimeNow C) v' = (n', v'') \<Longrightarrow>
        n' - n \<le> time_Second"
  shows "view w' = view w"
  using assms by (rule ticket_server.reconcile_expired_ttl)

theorem ttl_is_never_reached_witness:
  "ticket_view (snd (sample_reconcile 3 (empty_ticket_status\<lparr>Phase := TicketExpired, ExpirationTime := Some 5\<rparr>) [])) =
   ticket_view (ticket_world (empty_ticket_status\<lparr>Phase := TicketExpired, ExpirationTime := Some 5\<rparr>) [])"
proof -
  let ?s = "empty_ticket_status\<lparr>Phase := TicketExpired, ExpirationTime := Some 5\<rparr>"
  let ?t = "sample_ticket ?s" and ?r = "sample_reconcile 3 ?s []"
  let ?lc = "\<lparr>TTLSecondsAfterFinished = Some 60, CleanupPolicy = DeleteCleanup\<rparr>"
  have t: "live mem_client ?t" "Phase (ticket_status ?t) = TicketExpired" "Lifecycle (ticket_spec ?t) = Some ?lc"
    "CleanupPolicy ?lc = DeleteCleanup" "TTLSecondsAfterFinished ?lc = Some 60" "0 < sint (60 :: int32)"
    by code_simp+
  have clock: "n' - n \<le> time_Second"
    if "run_state (TimeNow mem_client) v = (n, v')" "run_state (TimeNow mem_client) v' = (n', v'')"
    for v v' v'' :: "unit mem" and n n'
    using that by (auto simp: mem_client_def time_Second_def)
  have "?r = (fst ?r, snd ?r)" by (rule prod.collapse [symmetric])
  from ttl_is_never_reached [OF memp.ticket_server_axioms, OF this t clock] show ?thesis by simp
qed

text \<open>
  An unrecorded guardian strands a ticket. If the guardian pod exists but the ticket's status does not
  name it (a status update failed after the pod was created, say), every reconciliation of the
  pending ticket changes nothing and asks to come back in thirty seconds.
\<close>

theorem unrecorded_guardian_strands_the_ticket:
  assumes "available_ticket_server C view pview" and "live C t"
    and "Phase (ticket_status t) \<in> {NoPhase, TicketPending}"
    and "GuardianPod (ticket_status t) = None" "ExpirationTime (ticket_status t) = None"
    and "window_ok t" "pview w (guardian_key t) \<noteq> None" "2 \<le> n"
  shows "\<exists>w'. run_state (reconcile_ticket n C Q t) w = (Some (no_result\<lparr>RequeueAfter := time_Second * 30\<rparr>, None), w') \<and>
      view w' = view w \<and> pview w' = pview w"
  using assms by (rule available_ticket_server.unrecorded_guardian_waits)

theorem unrecorded_guardian_strands_the_ticket_witness:
  "\<exists>w'. sample_reconcile 3 (empty_ticket_status\<lparr>Phase := TicketPending\<rparr>) [''korder-guardian-web-0''] =
      (Some (no_result\<lparr>RequeueAfter := time_Second * 30\<rparr>, None), w') \<and>
     ticket_view w' = ticket_view (ticket_world (empty_ticket_status\<lparr>Phase := TicketPending\<rparr>) [''korder-guardian-web-0''])"
proof -
  let ?s = "empty_ticket_status\<lparr>Phase := TicketPending\<rparr>"
  let ?t = "sample_ticket ?s"
  have t: "live mem_client ?t" "GuardianPod (ticket_status ?t) = None" "ExpirationTime (ticket_status ?t) = None"
    "window_ok ?t" "pod_view (ticket_world ?s [''korder-guardian-web-0'']) (guardian_key ?t) \<noteq> None"
    by code_simp+
  have "Phase (ticket_status ?t) \<in> {NoPhase, TicketPending}" by (simp add: sample_ticket_def)
  from unrecorded_guardian_strands_the_ticket [OF memp.available_ticket_server_axioms, OF t(1) this t(2-5), of 3]
  show ?thesis by auto
qed

end
