(* ===== verification/PodWebhook.thy ===== *)
theory PodWebhook
  imports TicketLifecycle
begin

text \<open>
  \<open>internal/webhook/v1/pod_webhook.go\<close>: the admission webhook that binds a pod asking for
  capacity to a ready ticket (\<open>Default\<close>) and checks the binding afterwards
  (\<open>ValidateCreate\<close>). First the code, function by function; then the choice of the ticket,
  the effect of a binding, and how the two halves of the webhook agree.
\<close>

section \<open>The code\<close>

definition TicketRequestAnnotation :: string where "TicketRequestAnnotation = ''korder.dev/ticket-request''"
definition TicketClaimedAnnotation :: string where "TicketClaimedAnnotation = ''korder.dev/ticket-claimed''"
definition TicketNodeAnnotation :: string where "TicketNodeAnnotation = ''korder.dev/ticket-node''"
definition TicketGroupAnnotation :: string where "TicketGroupAnnotation = ''korder.dev/ticket-group''"

text \<open>\<open>m[k]\<close> on a map of strings: the empty string when the key or the map is missing.\<close>

definition gm_at :: "labels \<Rightarrow> string \<Rightarrow> string" where
  "gm_at m k = deref_or '''' (gm_get m k)"

subsection \<open>TicketHelper\<close>

definition getSpecificTicket ::
  "('q, 'w) client \<Rightarrow> string \<Rightarrow> string \<Rightarrow> ('w, go_error + 'q ticket) state" where
  "getSpecificTicket C ns ticketName = do {
     r \<leftarrow> GetTicket C ns ticketName;
     case r of
       Inl e \<Rightarrow> State_Monad.return (Inl e)
     | Inr ticket \<Rightarrow>
         State_Monad.return
           (if Phase (ticket_status ticket) = TicketReady \<and> BoundNode (ticket_status ticket) \<noteq> None
            then Inr ticket
            else Inl (Errorf (''ticket '' @ ticketName @ '' is not available for claiming (phase: '' @
                   phase_string (Phase (ticket_status ticket)) @ '')'')))
   }"

text \<open>The loop over the pairs of a selector, in \<open>findTicketsBySelector\<close>: other pairs are skipped.\<close>

definition parse_pair :: "string \<Rightarrow> labels \<Rightarrow> labels" where
  "parse_pair pair ls =
     (case go_split CHR ''='' (go_trim_space pair) of
        [k, v] \<Rightarrow> gm_put (go_trim_space k) (go_trim_space v) ls
      | _ \<Rightarrow> ls)"

definition selector_labels :: "string \<Rightarrow> labels" where
  "selector_labels s = fold parse_pair (go_split CHR '','' s) gm_make"

definition findTicketsBySelector ::
  "('q, 'w) client \<Rightarrow> 'q pod \<Rightarrow> string \<Rightarrow> ('w, go_error + 'q ticket list) state" where
  "findTicketsBySelector C pod selectorStr =
     (let ls = selector_labels selectorStr in
      if gm_len ls = 0 then State_Monad.return (Inl (Errorf (''invalid selector format: '' @ selectorStr)))
      else ListTickets C \<lparr>InNamespace = Some (Namespace (pod_meta pod)), MatchingLabels = gm_list ls,
             MatchingLabelsSelector = None\<rparr>)"

definition in_group :: "string \<Rightarrow> 'q ticket \<Rightarrow> bool" where
  "in_group groupName ticket \<longleftrightarrow> gm_get (Annotations (ticket_meta ticket)) TicketGroupAnnotation = Some groupName"

definition findTicketsByGroup ::
  "('q, 'w) client \<Rightarrow> 'q pod \<Rightarrow> string \<Rightarrow> ('w, go_error + 'q ticket list) state" where
  "findTicketsByGroup C pod groupName = do {
     r \<leftarrow> ListTickets C \<lparr>InNamespace = Some (Namespace (pod_meta pod)), MatchingLabels = [],
            MatchingLabelsSelector = None\<rparr>;
     case r of
       Inl e \<Rightarrow> State_Monad.return (Inl e)
     | Inr tickets \<Rightarrow> State_Monad.return (Inr (filter (in_group groupName) tickets))
   }"

definition specific_list ::
  "('q, 'w) client \<Rightarrow> string \<Rightarrow> string \<Rightarrow> ('w, go_error + 'q ticket list) state" where
  "specific_list C ns ticketName = do {
     r \<leftarrow> getSpecificTicket C ns ticketName;
     case r of
       Inl e \<Rightarrow> State_Monad.return (Inl e)
     | Inr ticket \<Rightarrow> State_Monad.return (Inr [ticket])
   }"

definition FindTicketsByRequest ::
  "('q, 'w) client \<Rightarrow> 'q pod \<Rightarrow> string \<Rightarrow> ('w, go_error + 'q ticket list) state" where
  "FindTicketsByRequest C pod ticketRequest =
     (let ns = Namespace (pod_meta pod) in
      case go_cut_prefix ticketRequest ''name:'' of
        Some nm \<Rightarrow>
          (let nm = go_trim_space nm in
           if nm = '''' then State_Monad.return (Inl (Errorf ''empty ticket name in 'name:' format''))
           else specific_list C ns nm)
      | None \<Rightarrow>
          (case go_cut_prefix ticketRequest ''selector:'' of
             Some sel \<Rightarrow>
               (let sel = go_trim_space sel in
                if sel = '''' then State_Monad.return (Inl (Errorf ''empty selector in 'selector:' format''))
                else findTicketsBySelector C pod sel)
           | None \<Rightarrow>
               (case go_cut_prefix ticketRequest ''group:'' of
                  Some grp \<Rightarrow>
                    (let grp = go_trim_space grp in
                     if grp = '''' then State_Monad.return (Inl (Errorf ''empty group name in 'group:' format''))
                     else findTicketsByGroup C pod grp)
                | None \<Rightarrow> specific_list C ns ticketRequest)))"

definition checkResourceCompatibility :: "'q ticket \<Rightarrow> bool" where
  "checkResourceCompatibility ticket =
     (case Resources (ticket_spec ticket) of
        None \<Rightarrow> True
      | Some r \<Rightarrow> Requests r \<noteq> None \<or> Limits r \<noteq> None)"

definition checkNodeSelectorCompatibility :: "'q pod \<Rightarrow> 'q ticket \<Rightarrow> bool" where
  "checkNodeSelectorCompatibility pod ticket =
     (if PodNodeSelector (pod_spec pod) \<noteq> None \<and> NodeSelector (ticket_spec ticket) \<noteq> None
      then list_all (\<lambda>(k, v). gm_get (NodeSelector (ticket_spec ticket)) k = Some v)
             (gm_list (PodNodeSelector (pod_spec pod)))
      else True)"

definition checkAffinityCompatibility :: bool where
  "checkAffinityCompatibility = True"

definition calculateCompatibilityScore :: "'q pod \<Rightarrow> 'q ticket \<Rightarrow> int" where
  "calculateCompatibilityScore pod ticket =
     (if BoundNode (ticket_status ticket) \<noteq> None then 10 else 0) +
     (if checkResourceCompatibility ticket then 20 else 0) +
     (if checkNodeSelectorCompatibility pod ticket then 15 else 0) +
     (if checkAffinityCompatibility then 10 else 0)"

definition claimable :: "'q ticket \<Rightarrow> bool" where
  "claimable ticket \<longleftrightarrow> Phase (ticket_status ticket) = TicketReady \<and> BoundNode (ticket_status ticket) \<noteq> None"

fun select_best :: "'q pod \<Rightarrow> 'q ticket option \<Rightarrow> int \<Rightarrow> 'q ticket list \<Rightarrow> 'q ticket option" where
  "select_best pod best bestScore [] = best"
| "select_best pod best bestScore (t # ts) =
     (if \<not> claimable t then select_best pod best bestScore ts
      else
        let score = calculateCompatibilityScore pod t in
        if score > bestScore then select_best pod (Some t) score ts
        else select_best pod best bestScore ts)"

definition selectBestTicket :: "'q pod \<Rightarrow> 'q ticket list \<Rightarrow> 'q ticket option" where
  "selectBestTicket pod tickets = select_best pod None (- 1) tickets"

definition FindAvailableTicket ::
  "('q, 'w) client \<Rightarrow> 'q pod \<Rightarrow> string \<Rightarrow> ('w, go_error + 'q ticket option) state" where
  "FindAvailableTicket C pod ticketRequest = do {
     r \<leftarrow> FindTicketsByRequest C pod ticketRequest;
     case r of
       Inl e \<Rightarrow> State_Monad.return (Inl e)
     | Inr tickets \<Rightarrow> State_Monad.return (Inr (selectBestTicket pod tickets))
   }"

definition valid_pair :: "string \<Rightarrow> bool" where
  "valid_pair pair \<longleftrightarrow>
     (case go_split CHR ''='' (go_trim_space pair) of
        [k, v] \<Rightarrow> go_trim_space k \<noteq> '''' \<and> go_trim_space v \<noteq> ''''
      | _ \<Rightarrow> False)"

definition validateSelectorFormat :: "string \<Rightarrow> go_error + unit" where
  "validateSelectorFormat s =
     (if list_all valid_pair (go_split CHR '','' s) then Inr ()
      else Inl (Errorf (''invalid selector format: '' @ s @ '' (expected key=value pairs separated by commas)'')))"

definition ValidateTicketRequest :: "string \<Rightarrow> go_error + unit" where
  "ValidateTicketRequest ticketRequest =
     (case go_cut_prefix ticketRequest ''name:'' of
        Some nm \<Rightarrow> if go_trim_space nm = '''' then Inl (Errorf ''empty ticket name in 'name:' format'') else Inr ()
      | None \<Rightarrow>
          (case go_cut_prefix ticketRequest ''selector:'' of
             Some sel \<Rightarrow>
               (let sel = go_trim_space sel in
                if sel = '''' then Inl (Errorf ''empty selector in 'selector:' format'')
                else validateSelectorFormat sel)
           | None \<Rightarrow>
               (case go_cut_prefix ticketRequest ''group:'' of
                  Some grp \<Rightarrow> if go_trim_space grp = '''' then Inl (Errorf ''empty group name in 'group:' format'') else Inr ()
                | None \<Rightarrow> Inr ())))"

definition ValidateClaimedTicketBelongsToRequest ::
  "('q, 'w) client \<Rightarrow> 'q pod \<Rightarrow> string \<Rightarrow> string \<Rightarrow> ('w, go_error option) state" where
  "ValidateClaimedTicketBelongsToRequest C pod ticketClaimed ticketRequest = do {
     r \<leftarrow> FindTicketsByRequest C pod ticketRequest;
     case r of
       Inl e \<Rightarrow> State_Monad.return (Some e)
     | Inr tickets \<Rightarrow>
         State_Monad.return
           (if list_ex (\<lambda>t. Name (ticket_meta t) = ticketClaimed) tickets then None
            else Some (Errorf (''claimed ticket '' @ ticketClaimed @ '' does not match ticket-request '' @ ticketRequest)))
   }"

subsection \<open>PodCustomDefaulter\<close>

definition isGuardianPod :: "'q pod \<Rightarrow> bool" where
  "isGuardianPod pod \<longleftrightarrow> gm_at (Labels (pod_meta pod)) ''korder.dev/guardian'' = ''true''"

definition requestsTicketBinding :: "'q pod \<Rightarrow> bool" where
  "requestsTicketBinding pod \<longleftrightarrow> gm_at (Annotations (pod_meta pod)) TicketRequestAnnotation \<noteq> ''''"

definition findAvailableTicket :: "('q, 'w) client \<Rightarrow> 'q pod \<Rightarrow> ('w, go_error + 'q ticket option) state" where
  "findAvailableTicket C pod =
     (let ticketRequest = gm_at (Annotations (pod_meta pod)) TicketRequestAnnotation in
      if ticketRequest \<noteq> '''' then FindAvailableTicket C pod ticketRequest
      else State_Monad.return (Inr None))"

text \<open>
  The pod as \<open>bindPodToTicket\<close> leaves it, and the ticket it writes. The pod is changed before
  the write, so it stays changed when the write fails.
\<close>

definition made :: "labels \<Rightarrow> labels" where
  "made m = (case m of None \<Rightarrow> gm_make | Some _ \<Rightarrow> m)"

definition bound_pod :: "'q pod \<Rightarrow> 'q ticket \<Rightarrow> string \<Rightarrow> 'q pod" where
  "bound_pod pod ticket node =
     pod\<lparr>pod_spec := (pod_spec pod)\<lparr>PodNodeName := node\<rparr>,
         pod_meta := (pod_meta pod)\<lparr>Annotations :=
           gm_put TicketClaimedAnnotation (Name (ticket_meta ticket))
             (gm_put TicketNodeAnnotation node (made (Annotations (pod_meta pod))))\<rparr>\<rparr>"

definition claimed_ticket :: "'q pod \<Rightarrow> 'q ticket \<Rightarrow> time \<Rightarrow> 'q ticket" where
  "claimed_ticket pod ticket now =
     ticket\<lparr>ticket_status := (ticket_status ticket)\<lparr>
       Phase := TicketClaimed,
       ClaimedTime := Some now,
       ClaimedPod := Some (Namespace (pod_meta pod) @ ''/'' @ Name (pod_meta pod))\<rparr>\<rparr>"

definition bindPodToTicket ::
  "('q, 'w) client \<Rightarrow> 'q pod \<Rightarrow> 'q ticket \<Rightarrow> ('w, 'q pod \<times> go_error option) state" where
  "bindPodToTicket C pod ticket =
     (case BoundNode (ticket_status ticket) of
        None \<Rightarrow> State_Monad.return (pod, Some nil_pointer)
      | Some node \<Rightarrow> do {
          now \<leftarrow> TimeNow C;
          r \<leftarrow> UpdateTicketStatus C (claimed_ticket pod ticket now);
          State_Monad.return (bound_pod pod ticket node,
            case r of Inl e \<Rightarrow> Some (Wrapped ''failed to update ticket status: '' e) | Inr _ \<Rightarrow> None)
        })"

text \<open>\<open>Default\<close>: the pod afterwards and the error, which only a panic can be.\<close>

definition Pod_Default :: "('q, 'w) client \<Rightarrow> 'q pod \<Rightarrow> ('w, 'q pod \<times> go_error option) state" where
  "Pod_Default C pod =
     (if isGuardianPod pod then State_Monad.return (pod, None)
      else if \<not> requestsTicketBinding pod then State_Monad.return (pod, None)
      else do {
        r \<leftarrow> findAvailableTicket C pod;
        case r of
          Inl e \<Rightarrow> State_Monad.return (pod, None)
        | Inr None \<Rightarrow> State_Monad.return (pod, None)
        | Inr (Some ticket) \<Rightarrow> do {
            b \<leftarrow> bindPodToTicket C pod ticket;
            case b of (pod', err) \<Rightarrow>
              State_Monad.return (pod', case err of None \<Rightarrow> None | Some e \<Rightarrow> if is_panic e then Some e else None)
          }
      })"

subsection \<open>PodCustomValidator\<close>

type_synonym admission = "string list \<times> go_error option"

definition validateTicketAnnotations :: "('q, 'w) client \<Rightarrow> 'q pod \<Rightarrow> ('w, admission) state" where
  "validateTicketAnnotations C pod =
     (let ticketRequest = gm_at (Annotations (pod_meta pod)) TicketRequestAnnotation;
          ticketClaimed = gm_at (Annotations (pod_meta pod)) TicketClaimedAnnotation in
      if ticketClaimed \<noteq> '''' \<and> ticketRequest = '''' then
        State_Monad.return ([], Some (Errorf ''ticket-claimed annotation cannot exist without ticket-request annotation''))
      else if ticketClaimed = '''' then State_Monad.return ([], None)
      else
        case ValidateTicketRequest ticketRequest of
          Inl e \<Rightarrow> State_Monad.return ([], Some e)
        | Inr _ \<Rightarrow> do {
            e \<leftarrow> ValidateClaimedTicketBelongsToRequest C pod ticketClaimed ticketRequest;
            State_Monad.return ([], e)
          })"

definition Pod_ValidateCreate :: "('q, 'w) client \<Rightarrow> 'q pod \<Rightarrow> ('w, admission) state" where
  "Pod_ValidateCreate C pod =
     (if isGuardianPod pod then State_Monad.return ([], None) else validateTicketAnnotations C pod)"

definition Pod_ValidateUpdate :: "'q pod \<Rightarrow> 'q pod \<Rightarrow> admission" where
  "Pod_ValidateUpdate old new = ([], None)"

definition Pod_ValidateDelete :: "'q pod \<Rightarrow> admission" where
  "Pod_ValidateDelete pod = ([], None)"

section \<open>The choice of the ticket\<close>

lemma select_best_find:
  "select_best pod best s ts =
     (if \<exists>t \<in> set ts. claimable t \<and> calculateCompatibilityScore pod t > s
      then find (\<lambda>t. claimable t \<and> (\<forall>u \<in> set ts. claimable u \<longrightarrow>
             calculateCompatibilityScore pod u \<le> calculateCompatibilityScore pod t)) ts
      else best)"
proof (induction ts arbitrary: best s)
  case (Cons t ts)
  let ?score = "calculateCompatibilityScore pod"
  let ?max = "\<lambda>us v. claimable v \<and> (\<forall>u \<in> set us. claimable u \<longrightarrow> ?score u \<le> ?score v)"
  have drop: "find (?max (t # ts)) ts = find (?max ts) ts"
    if "\<not> claimable t \<or> (\<exists>u \<in> set ts. claimable u \<and> ?score u \<ge> ?score t)"
  proof (rule find_cong [OF refl])
    fix v assume "v \<in> set ts"
    show "?max (t # ts) v = ?max ts v" using that by (auto intro: order_trans)
  qed
  consider "\<not> claimable t" | "claimable t" "?score t > s" | "claimable t" "?score t \<le> s" by linarith
  then show ?case
  proof cases
    case 1
    with Cons show ?thesis by auto
  next
    case 2
    have ex: "\<exists>v \<in> set (t # ts). claimable v \<and> ?score v > s" using 2 by auto
    show ?thesis
    proof (cases "\<exists>u \<in> set ts. claimable u \<and> ?score u > ?score t")
      case True
      then have "\<not> ?max (t # ts) t" by (auto simp: not_le)
      then have "find (?max (t # ts)) (t # ts) = find (?max (t # ts)) ts"
        by (simp only: find.simps if_False)
      also have "\<dots> = find (?max ts) ts" using True by (intro drop disjI2) (auto intro: less_imp_le)
      also have "\<dots> = select_best pod best s (t # ts)" using 2 True Cons by (simp add: Let_def)
      finally show ?thesis using ex by simp
    next
      case False
      then have "?max (t # ts) t" using 2 by (auto simp: not_less)
      then have "find (?max (t # ts)) (t # ts) = Some t"
        unfolding find.simps by (rule if_P)
      moreover have "select_best pod best s (t # ts) = Some t" using 2 False Cons by (auto simp: Let_def)
      ultimately show ?thesis using ex by simp
    qed
  next
    case 3
    show ?thesis
    proof (cases "\<exists>u \<in> set ts. claimable u \<and> ?score u > s")
      case True
      then have ex: "\<exists>v \<in> set (t # ts). claimable v \<and> ?score v > s" by auto
      from True obtain u where u: "u \<in> set ts" "claimable u" "?score u > ?score t" using 3 by force
      then have "\<not> ?max (t # ts) t" by (auto simp: not_le)
      then have "find (?max (t # ts)) (t # ts) = find (?max (t # ts)) ts"
        by (simp only: find.simps if_False)
      also have "\<dots> = find (?max ts) ts" using u by (intro drop disjI2) (auto intro: less_imp_le)
      also have "\<dots> = select_best pod best s (t # ts)" using 3 True Cons by (simp add: Let_def)
      finally show ?thesis using ex by simp
    next
      case False
      with 3 Cons show ?thesis by (auto simp: Let_def)
    qed
  qed
qed simp

lemma score_bounds:
  "0 \<le> calculateCompatibilityScore pod t" "calculateCompatibilityScore pod t \<le> 55"
  "claimable t \<Longrightarrow> 20 \<le> calculateCompatibilityScore pod t"
  by (simp_all add: calculateCompatibilityScore_def claimable_def checkAffinityCompatibility_def)

lemma selectBestTicket_find:
  "selectBestTicket pod ts =
     find (\<lambda>t. claimable t \<and> (\<forall>u \<in> set ts. claimable u \<longrightarrow>
       calculateCompatibilityScore pod u \<le> calculateCompatibilityScore pod t)) ts"
proof -
  have "- 1 < calculateCompatibilityScore pod t" for t using score_bounds(1) [of pod t] by linarith
  then show ?thesis by (auto simp: selectBestTicket_def select_best_find find_None_iff find_None_iff2)
qed

lemma selectBestTicket_Some:
  "selectBestTicket pod ts = Some t \<Longrightarrow> t \<in> set ts \<and> claimable t"
  by (auto simp: selectBestTicket_find find_Some_iff)

section \<open>What a request finds\<close>

lemma FindTicketsByRequest_cases:
  obtains (invalid) e where "FindTicketsByRequest C pod r = State_Monad.return (Inl e)"
  | (specific) nm where "FindTicketsByRequest C pod r = specific_list C (Namespace (pod_meta pod)) nm"
  | (selector) s where "FindTicketsByRequest C pod r = findTicketsBySelector C pod s"
  | (group) g where "FindTicketsByRequest C pod r = findTicketsByGroup C pod g"
proof -
  have "(\<exists>e. FindTicketsByRequest C pod r = State_Monad.return (Inl e)) \<or>
      (\<exists>nm. FindTicketsByRequest C pod r = specific_list C (Namespace (pod_meta pod)) nm) \<or>
      (\<exists>s. FindTicketsByRequest C pod r = findTicketsBySelector C pod s) \<or>
      (\<exists>g. FindTicketsByRequest C pod r = findTicketsByGroup C pod g)"
    unfolding FindTicketsByRequest_def Let_def by (simp split: option.split) blast
  then show ?thesis using that by blast
qed

context ticket_server
begin

lemma getSpecificTicket_run:
  assumes "run_state (getSpecificTicket C ns nm) w = (r, u)"
  shows "view u = view w \<and> pview u = pview w"
    "r = Inr t \<Longrightarrow> view w (Key ns nm) = Some t \<and> claimable t"
proof -
  obtain g v where g: "run_state (GetTicket C ns nm) w = (g, v)" by fastforce
  have "u = v" "r = Inr t \<Longrightarrow> g = Inr t \<and> claimable t" for t
    using assms g by (cases g; auto simp: getSpecificTicket_def claimable_def split: if_splits)+
  with server_frames(3) [OF g] get_ticket_result g
  show "view u = view w \<and> pview u = pview w" "r = Inr t \<Longrightarrow> view w (Key ns nm) = Some t \<and> claimable t"
    by auto
qed

lemma FindTicketsByRequest_run:
  assumes "run_state (FindTicketsByRequest C pod req) w = (r, u)"
  shows "view u = view w \<and> pview u = pview w"
    "r = Inr ts \<Longrightarrow> t \<in> set ts \<Longrightarrow> view w (ticket_key t) = Some t \<and> Namespace (ticket_meta t) = Namespace (pod_meta pod)"
proof -
  let ?ns = "Namespace (pod_meta pod)"
  have listed: "view u = view w \<and> pview u = pview w \<and>
      (\<forall>ts. r = Inr ts \<longrightarrow> (\<forall>t \<in> set ts. view w (ticket_key t) = Some t \<and> Namespace (ticket_meta t) = ?ns))"
    if "run_state (ListTickets C opts) w = (r, u)" "InNamespace opts = Some ?ns" for opts u and r :: "go_error + 'q ticket list"
  proof -
    note l = that
    have "view w (ticket_key t) = Some t \<and> Namespace (ticket_meta t) = ?ns" if r: "r = Inr ts" "t \<in> set ts" for ts t
    proof -
      from list_result [OF l(1) [unfolded r(1)]] r(2) obtain k
        where k: "view w k = Some t" "selects opts (ticket_meta t)" by blast
      with view_key [OF k(1)] l(2) show ?thesis by (simp add: selects_def)
    qed
    with list_frame [OF l(1)] list_pods_frame [OF l(1)] show ?thesis by blast
  qed
  have "view u = view w \<and> pview u = pview w \<and>
      (\<forall>ts. r = Inr ts \<longrightarrow> (\<forall>t \<in> set ts. view w (ticket_key t) = Some t \<and> Namespace (ticket_meta t) = ?ns))"
  proof (cases C pod req rule: FindTicketsByRequest_cases)
    case (invalid e)
    with assms show ?thesis by auto
  next
    case (specific nm)
    obtain g v where g: "run_state (getSpecificTicket C ?ns nm) w = (g, v)" by fastforce
    have "u = v" "\<And>ts. r = Inr ts \<Longrightarrow> \<exists>t. g = Inr t \<and> ts = [t]"
      using assms g specific by (cases g; auto simp: specific_list_def)+
    moreover have "view w (ticket_key t) = Some t \<and> Namespace (ticket_meta t) = ?ns" if "g = Inr t" for t
      using getSpecificTicket_run(2) [OF g that] view_key [of w "Key ?ns nm" t] by (simp add: meta_key_def)
    ultimately show ?thesis using getSpecificTicket_run(1) [OF g] by fastforce
  next
    case (selector s)
    with assms listed show ?thesis
      by (auto simp: findTicketsBySelector_def Let_def split: if_splits)
  next
    case (group g)
    let ?opts = "\<lparr>InNamespace = Some ?ns, MatchingLabels = [], MatchingLabelsSelector = None\<rparr>"
    obtain l v where l: "run_state (ListTickets C ?opts) w = (l, v)" by fastforce
    have "u = v" "\<And>ts. r = Inr ts \<Longrightarrow> \<exists>us. l = Inr us \<and> ts = filter (in_group g) us"
      using assms l group by (cases l; auto simp: findTicketsByGroup_def)+
    with listed [OF l] show ?thesis by fastforce
  qed
  then show "view u = view w \<and> pview u = pview w"
    "r = Inr ts \<Longrightarrow> t \<in> set ts \<Longrightarrow> view w (ticket_key t) = Some t \<and> Namespace (ticket_meta t) = ?ns"
    by blast+
qed

lemma findAvailableTicket_run:
  assumes "run_state (findAvailableTicket C pod) w = (r, u)"
  shows "view u = view w \<and> pview u = pview w"
    "r = Inr (Some t) \<Longrightarrow> view w (ticket_key t) = Some t \<and> Namespace (ticket_meta t) = Namespace (pod_meta pod) \<and> claimable t"
proof -
  let ?req = "gm_at (Annotations (pod_meta pod)) TicketRequestAnnotation"
  obtain f v where f: "run_state (FindTicketsByRequest C pod ?req) w = (f, v)" by fastforce
  have "u = w \<and> r = Inr None \<or> u = v \<and> (\<forall>t. r = Inr (Some t) \<longrightarrow> (\<exists>ts. f = Inr ts \<and> selectBestTicket pod ts = Some t))"
    using assms f by (cases f) (auto simp: findAvailableTicket_def FindAvailableTicket_def Let_def split: if_splits)
  note cases = this
  show "view u = view w \<and> pview u = pview w" using cases FindTicketsByRequest_run(1) [OF f] by auto
  assume "r = Inr (Some t)"
  with cases obtain ts where ts: "f = Inr ts" "selectBestTicket pod ts = Some t" by auto
  with selectBestTicket_Some [OF ts(2)] FindTicketsByRequest_run(2) [OF f ts(1)]
  show "view w (ticket_key t) = Some t \<and> Namespace (ticket_meta t) = Namespace (pod_meta pod) \<and> claimable t" by blast
qed

end

section \<open>The effect of a binding\<close>

lemma annotation_keys [simp]:
  "TicketRequestAnnotation \<noteq> TicketClaimedAnnotation" "TicketClaimedAnnotation \<noteq> TicketRequestAnnotation"
  "TicketRequestAnnotation \<noteq> TicketNodeAnnotation" "TicketNodeAnnotation \<noteq> TicketRequestAnnotation"
  "TicketClaimedAnnotation \<noteq> TicketNodeAnnotation" "TicketNodeAnnotation \<noteq> TicketClaimedAnnotation"
  by (simp_all add: TicketRequestAnnotation_def TicketClaimedAnnotation_def TicketNodeAnnotation_def)

lemma made_get [simp]: "made m \<noteq> None" "gm_get (made m) k = gm_get m k"
  by (simp_all add: made_def gm_make_def gm_get_def gm_list_def split: option.split)

lemma bound_pod_simps [simp]:
  "Namespace (pod_meta (bound_pod pod t node)) = Namespace (pod_meta pod)"
  "Name (pod_meta (bound_pod pod t node)) = Name (pod_meta pod)"
  "PodNodeName (pod_spec (bound_pod pod t node)) = node"
  "isGuardianPod (bound_pod pod t node) = isGuardianPod pod"
  "requestsTicketBinding (bound_pod pod t node) = requestsTicketBinding pod"
  "gm_at (Annotations (pod_meta (bound_pod pod t node))) TicketRequestAnnotation =
     gm_at (Annotations (pod_meta pod)) TicketRequestAnnotation"
  "gm_at (Annotations (pod_meta (bound_pod pod t node))) TicketClaimedAnnotation = Name (ticket_meta t)"
  "gm_at (Annotations (pod_meta (bound_pod pod t node))) TicketNodeAnnotation = node"
  by (simp_all add: bound_pod_def isGuardianPod_def requestsTicketBinding_def gm_at_def gm_get_put del: not_None_eq)

lemma Pod_Default_none:
  "isGuardianPod pod \<or> \<not> requestsTicketBinding pod \<Longrightarrow> Pod_Default C pod = State_Monad.return (pod, None)"
  by (auto simp: Pod_Default_def)

lemma Pod_Default_run:
  assumes "\<not> isGuardianPod pod" "requestsTicketBinding pod"
    and "run_state (findAvailableTicket C pod) w = (r, u)"
  shows "\<not> (\<exists>t. r = Inr (Some t)) \<Longrightarrow> run_state (Pod_Default C pod) w = ((pod, None), u)"
    "r = Inr (Some t) \<Longrightarrow> BoundNode (ticket_status t) = Some node \<Longrightarrow> run_state (TimeNow C) u = (now, v) \<Longrightarrow>
       run_state (UpdateTicketStatus C (claimed_ticket pod t now)) v = (q, x) \<Longrightarrow>
       run_state (Pod_Default C pod) w = ((bound_pod pod t node, None), x)"
proof -
  assume r: "\<not> (\<exists>t. r = Inr (Some t))"
  then show "run_state (Pod_Default C pod) w = ((pod, None), u)"
    using assms by (cases r) (auto simp: Pod_Default_def split: option.splits)
next
  assume "r = Inr (Some t)" "BoundNode (ticket_status t) = Some node" "run_state (TimeNow C) u = (now, v)"
    "run_state (UpdateTicketStatus C (claimed_ticket pod t now)) v = (q, x)"
  then show "run_state (Pod_Default C pod) w = ((bound_pod pod t node, None), x)"
    using assms by (cases q) (simp_all add: Pod_Default_def bindPodToTicket_def)
qed

text \<open>What a claim writes.\<close>

definition claims :: "'q pod \<Rightarrow> 'q ticket \<Rightarrow> 'q ticket \<Rightarrow> bool" where
  "claims pod t s \<longleftrightarrow>
     Phase (ticket_status s) = TicketClaimed \<and>
     ClaimedPod (ticket_status s) = Some (Namespace (pod_meta pod) @ ''/'' @ Name (pod_meta pod)) \<and>
     BoundNode (ticket_status s) = BoundNode (ticket_status t) \<and>
     GuardianPod (ticket_status s) = GuardianPod (ticket_status t) \<and>
     ticket_spec s = ticket_spec t \<and> (\<exists>v. ticket_meta s = (ticket_meta t)\<lparr>ResourceVersion := v\<rparr>)"

context ticket_server
begin

lemma claim_written:
  assumes "run_state (UpdateTicketStatus C (claimed_ticket pod t now)) v = (q, x)" "view v (ticket_key t) = Some t"
  shows "case q of Inl e \<Rightarrow> view x = view v | Inr _ \<Rightarrow> \<exists>s. claims pod t s \<and> view x = (view v)(ticket_key t \<mapsto> s)"
proof (cases q)
  case (Inl e)
  with update_status_failure assms(1) show ?thesis by auto
next
  case (Inr t')
  have key: "ticket_key (claimed_ticket pod t now) = ticket_key t" by (simp add: claimed_ticket_def)
  from update_status_result [OF assms(1) [unfolded Inr]] obtain s s' where
    "view v (ticket_key t) = Some s" "view x = (view v)(ticket_key t \<mapsto> s')"
    "ticket_status s' = stored_status (ticket_status (claimed_ticket pod t now))" "ticket_spec s' = ticket_spec s"
    "\<exists>v. ticket_meta s' = (ticket_meta s)\<lparr>ResourceVersion := v\<rparr>" unfolding key by blast
  moreover from this assms(2) have "claims pod t s'" by (auto simp: claims_def claimed_ticket_def)
  ultimately show ?thesis using Inr by auto
qed

lemma Pod_Default_exact:
  assumes "run_state (Pod_Default C pod) w = ((pod', err), w')"
  shows "err = None \<and> pview w' = pview w \<and>
    (case fst (run_state (findAvailableTicket C pod) w) of
       Inr (Some t) \<Rightarrow>
         if isGuardianPod pod \<or> \<not> requestsTicketBinding pod then pod' = pod \<and> view w' = view w
         else view w (ticket_key t) = Some t \<and> claimable t \<and> Namespace (ticket_meta t) = Namespace (pod_meta pod) \<and>
           (\<exists>node. BoundNode (ticket_status t) = Some node \<and> pod' = bound_pod pod t node) \<and>
           (\<exists>now u q. view u = view w \<and> run_state (UpdateTicketStatus C (claimed_ticket pod t now)) u = (q, w') \<and>
              (case q of
                 Inl e \<Rightarrow> view w' = view w
               | Inr _ \<Rightarrow> \<exists>s. claims pod t s \<and> view w' = (view w)(ticket_key t \<mapsto> s)))
     | _ \<Rightarrow> pod' = pod \<and> view w' = view w)"
proof -
  obtain r u where find: "run_state (findAvailableTicket C pod) w = (r, u)" by fastforce
  note frame = findAvailableTicket_run(1) [OF find]
  consider (skip) "isGuardianPod pod \<or> \<not> requestsTicketBinding pod"
    | (none) "\<not> isGuardianPod pod" "requestsTicketBinding pod" "\<not> (\<exists>t. r = Inr (Some t))"
    | (bind) t where "\<not> isGuardianPod pod" "requestsTicketBinding pod" "r = Inr (Some t)" by blast
  then show ?thesis
  proof cases
    case skip
    with assms Pod_Default_none [OF skip, of C] show ?thesis by (simp split: sum.split option.split)
  next
    case none
    with assms Pod_Default_run(1) [OF none(1,2) find none(3)] frame find show ?thesis
      by (simp split: sum.split option.split)
  next
    case bind
    note t = findAvailableTicket_run(2) [OF find bind(3)]
    then obtain node where node: "BoundNode (ticket_status t) = Some node" by (auto simp: claimable_def)
    obtain now v where now: "run_state (TimeNow C) u = (now, v)" by fastforce
    obtain q x where upd: "run_state (UpdateTicketStatus C (claimed_ticket pod t now)) v = (q, x)" by fastforce
    have out: "pod' = bound_pod pod t node" "err = None" "w' = x"
      using assms Pod_Default_run(2) [OF bind(1,2) find bind(3) node now upd] by simp_all
    have v: "view v = view w" "pview v = pview w" using server_frames(1) [OF now] frame by simp_all
    have "\<exists>now u q. view u = view w \<and> run_state (UpdateTicketStatus C (claimed_ticket pod t now)) u = (q, w') \<and>
        (case q of Inl e \<Rightarrow> view w' = view w | Inr _ \<Rightarrow> \<exists>s. claims pod t s \<and> view w' = (view w)(ticket_key t \<mapsto> s))"
    proof (intro exI conjI)
      show "view v = view w" by (rule v(1))
      show "run_state (UpdateTicketStatus C (claimed_ticket pod t now)) v = (q, w')" using upd out(3) by simp
      from t v(1) have "view v (ticket_key t) = Some t" by simp
      from claim_written [OF upd this]
      show "case q of Inl e \<Rightarrow> view w' = view w | Inr _ \<Rightarrow> \<exists>s. claims pod t s \<and> view w' = (view w)(ticket_key t \<mapsto> s)"
        unfolding v(1) out(3) .
    qed
    with bind t node out pods_frame(2) [OF upd] v find show ?thesis by simp
  qed
qed

lemma Pod_Default_effect:
  assumes "run_state (Pod_Default C pod) w = ((pod', err), w')"
  shows "err = None" "pview w' = pview w"
    "(view w' = view w \<and> pod' = pod) \<or>
     (\<exists>t node. view w (ticket_key t) = Some t \<and> claimable t \<and> Namespace (ticket_meta t) = Namespace (pod_meta pod) \<and>
        BoundNode (ticket_status t) = Some node \<and> pod' = bound_pod pod t node \<and>
        (view w' = view w \<or> (\<exists>s. claims pod t s \<and> view w' = (view w)(ticket_key t \<mapsto> s))) \<and>
        (\<exists>u. run_state (findAvailableTicket C pod) w = (Inr (Some t), u)))"
proof -
  obtain r u where find: "run_state (findAvailableTicket C pod) w = (r, u)" by fastforce
  note exact = Pod_Default_exact [OF assms, unfolded find fst_conv]
  show "err = None" "pview w' = pview w" using exact by blast+
  show "(view w' = view w \<and> pod' = pod) \<or>
     (\<exists>t node. view w (ticket_key t) = Some t \<and> claimable t \<and> Namespace (ticket_meta t) = Namespace (pod_meta pod) \<and>
        BoundNode (ticket_status t) = Some node \<and> pod' = bound_pod pod t node \<and>
        (view w' = view w \<or> (\<exists>s. claims pod t s \<and> view w' = (view w)(ticket_key t \<mapsto> s))) \<and>
        (\<exists>u. run_state (findAvailableTicket C pod) w = (Inr (Some t), u)))"
  proof (cases "(\<exists>t. r = Inr (Some t)) \<and> \<not> isGuardianPod pod \<and> requestsTicketBinding pod")
    case True
    then obtain t where t: "r = Inr (Some t)" by blast
    with exact True have bound: "view w (ticket_key t) = Some t" "claimable t"
      "Namespace (ticket_meta t) = Namespace (pod_meta pod)"
      "\<exists>node. BoundNode (ticket_status t) = Some node \<and> pod' = bound_pod pod t node"
      and "\<exists>q. case q :: go_error + 'q ticket of Inl e \<Rightarrow> view w' = view w
        | Inr _ \<Rightarrow> \<exists>s. claims pod t s \<and> view w' = (view w)(ticket_key t \<mapsto> s)"
      by auto
    then obtain q :: "go_error + 'q ticket" where
      q: "case q of Inl e \<Rightarrow> view w' = view w | Inr _ \<Rightarrow> \<exists>s. claims pod t s \<and> view w' = (view w)(ticket_key t \<mapsto> s)" by blast
    from q have "view w' = view w \<or> (\<exists>s. claims pod t s \<and> view w' = (view w)(ticket_key t \<mapsto> s))"
      by (cases q) simp_all
    with bound find t show ?thesis by blast
  next
    case False
    with exact show ?thesis by (auto split: sum.splits option.splits if_splits)
  qed
qed

end

section \<open>The two halves of the webhook\<close>

text \<open>A request by name, with the prefix or without any.\<close>

definition named_request :: "string \<Rightarrow> string option" where
  "named_request r =
     (case go_cut_prefix r ''name:'' of
        Some nm \<Rightarrow> Some (go_trim_space nm)
      | None \<Rightarrow>
          (if go_cut_prefix r ''selector:'' = None \<and> go_cut_prefix r ''group:'' = None then Some r else None))"

lemma FindTicketsByRequest_named:
  "named_request r = Some nm \<Longrightarrow> nm \<noteq> '''' \<Longrightarrow>
   FindTicketsByRequest C pod r = specific_list C (Namespace (pod_meta pod)) nm"
  by (auto simp: named_request_def FindTicketsByRequest_def Let_def split: option.splits if_splits)

lemma FindTicketsByRequest_unnamed:
  "named_request r = Some '''' \<Longrightarrow> r \<noteq> '''' \<Longrightarrow> \<exists>e. FindTicketsByRequest C pod r = State_Monad.return (Inl e)"
  by (auto simp: named_request_def FindTicketsByRequest_def Let_def split: option.splits if_splits)

context ticket_server
begin

lemma named_claim_rejected:
  assumes run: "run_state (Pod_Default C pod) w = ((pod', err), w')"
    and named: "named_request (gm_at (Annotations (pod_meta pod)) TicketRequestAnnotation) = Some nm"
    and changed: "view w' \<noteq> view w"
  shows "\<exists>ws e w''. run_state (Pod_ValidateCreate C pod') w' = ((ws, Some e), w'')"
proof -
  let ?r = "gm_at (Annotations (pod_meta pod)) TicketRequestAnnotation" and ?ns = "Namespace (pod_meta pod)"
  from Pod_Default_effect(3) [OF run] changed obtain t node s u
    where t: "view w (ticket_key t) = Some t" "pod' = bound_pod pod t node"
      and s: "claims pod t s" "view w' = (view w)(ticket_key t \<mapsto> s)"
      and find: "run_state (findAvailableTicket C pod) w = (Inr (Some t), u)" by blast
  have req: "\<not> isGuardianPod pod" "?r \<noteq> ''''"
    using run changed Pod_Default_none [of pod C] by (auto simp: requestsTicketBinding_def)
  obtain f v where f: "run_state (FindTicketsByRequest C pod ?r) w = (f, v)" by fastforce
  have fs: "\<exists>ts. f = Inr ts \<and> selectBestTicket pod ts = Some t"
    using find f req by (cases f) (auto simp: findAvailableTicket_def FindAvailableTicket_def)
  have nm: "nm \<noteq> ''''"
    using FindTicketsByRequest_unnamed [OF _ req(2), of C pod] named f fs by (cases nm) auto
  note spec = FindTicketsByRequest_named [OF named nm]
  obtain g x where g: "run_state (getSpecificTicket C ?ns nm) w = (g, x)" by fastforce
  have "g = Inr t"
    using f fs g spec [of C pod] by (cases g) (auto simp: specific_list_def dest: selectBestTicket_Some)
  with getSpecificTicket_run(2) [OF g] view_key have key: "ticket_key t = Key ?ns nm" by blast
  then have name: "Name (ticket_meta t) = nm" by (simp add: meta_key_def)
  obtain h y where h: "run_state (getSpecificTicket C ?ns nm) w' = (h, y)" by fastforce
  have "\<exists>e. h = Inl e"
  proof (cases h)
    case (Inr t')
    with getSpecificTicket_run(2) [OF h] s key show ?thesis by (auto simp: claims_def claimable_def)
  qed simp
  then obtain e where "run_state (FindTicketsByRequest C pod' ?r) w' = (Inl e, y)"
    using h spec [of C pod'] t(2) by (auto simp: specific_list_def)
  then show ?thesis
    using req name nm t(2)
    by (cases "ValidateTicketRequest ?r")
      (simp_all add: Pod_ValidateCreate_def validateTicketAnnotations_def ValidateClaimedTicketBelongsToRequest_def Let_def)
qed

end

text \<open>
  A request for a set of tickets, by label selector or by group: the labels it lists by, and
  the group it filters by.
\<close>

definition set_request :: "string \<Rightarrow> (labels \<times> string option) option" where
  "set_request r =
     (case go_cut_prefix r ''name:'' of
        Some _ \<Rightarrow> None
      | None \<Rightarrow>
          (case go_cut_prefix r ''selector:'' of
             Some sel \<Rightarrow>
               (if go_trim_space sel \<noteq> '''' then Some (selector_labels (go_trim_space sel), None) else None)
           | None \<Rightarrow>
               (case go_cut_prefix r ''group:'' of
                  Some grp \<Rightarrow> if go_trim_space grp \<noteq> '''' then Some (None, Some (go_trim_space grp)) else None
                | None \<Rightarrow> None)))"

definition set_options :: "'q pod \<Rightarrow> labels \<Rightarrow> list_options" where
  "set_options pod ls = \<lparr>InNamespace = Some (Namespace (pod_meta pod)), MatchingLabels = gm_list ls,
     MatchingLabelsSelector = None\<rparr>"

definition keep_group :: "string option \<Rightarrow> 'q ticket list \<Rightarrow> 'q ticket list" where
  "keep_group grp ts = (case grp of None \<Rightarrow> ts | Some g \<Rightarrow> filter (in_group g) ts)"

lemma FindTicketsByRequest_set:
  assumes "set_request r = Some (ls, grp)"
  shows "if grp = None \<and> gm_len ls = 0 then \<exists>e. FindTicketsByRequest C pod r = State_Monad.return (Inl e)
     else FindTicketsByRequest C pod r = do {
       q \<leftarrow> ListTickets C (set_options pod ls);
       case q of Inl e \<Rightarrow> State_Monad.return (Inl e) | Inr ts \<Rightarrow> State_Monad.return (Inr (keep_group grp ts)) }"
proof -
  have list: "(do { q \<leftarrow> m; case q of Inl e \<Rightarrow> State_Monad.return (Inl e)
      | Inr ts \<Rightarrow> State_Monad.return (Inr (keep_group None ts)) }) = m" for m :: "('a, go_error + 'b ticket list) state"
    by (rule state_ext) (auto simp: keep_group_def split: prod.split sum.split)
  show ?thesis
  proof (cases "go_cut_prefix r ''selector:''")
    case None
    with assms show ?thesis
      by (auto simp: set_request_def FindTicketsByRequest_def findTicketsByGroup_def set_options_def Let_def
          keep_group_def gm_list_def split: option.splits if_splits)
  next
    case (Some sel)
    with assms have *: "go_cut_prefix r ''name:'' = None" "go_trim_space sel \<noteq> ''''"
      "ls = selector_labels (go_trim_space sel)" "grp = None"
      by (auto simp: set_request_def split: option.splits if_splits)
    then have "FindTicketsByRequest C pod r = findTicketsBySelector C pod (go_trim_space sel)"
      using Some by (simp add: FindTicketsByRequest_def Let_def)
    then show ?thesis
      using * list [of "ListTickets C (set_options pod ls)"]
      by (auto simp: findTicketsBySelector_def set_options_def Let_def)
  qed
qed

context available_ticket_server
begin

lemma set_claim_validated:
  assumes run: "run_state (Pod_Default C pod) w = ((pod', err), w')"
    and set: "set_request (gm_at (Annotations (pod_meta pod)) TicketRequestAnnotation) = Some (ls, grp)"
    and changed: "view w' \<noteq> view w"
    and names: "\<And>k t. view w k = Some t \<Longrightarrow> Name (ticket_meta t) \<noteq> []"
  shows "\<exists>w''. run_state (Pod_ValidateCreate C pod') w' =
     (([], case ValidateTicketRequest (gm_at (Annotations (pod_meta pod)) TicketRequestAnnotation) of
             Inl e \<Rightarrow> Some e | Inr _ \<Rightarrow> None), w'')"
proof -
  let ?r = "gm_at (Annotations (pod_meta pod)) TicketRequestAnnotation"
  from Pod_Default_effect(3) [OF run] changed obtain t node s u
    where t: "view w (ticket_key t) = Some t" "pod' = bound_pod pod t node"
      and s: "claims pod t s" "view w' = (view w)(ticket_key t \<mapsto> s)"
      and find: "run_state (findAvailableTicket C pod) w = (Inr (Some t), u)" by blast
  have req: "\<not> isGuardianPod pod" "?r \<noteq> []"
    using run changed Pod_Default_none [of pod C] by (auto simp: requestsTicketBinding_def)
  obtain f v where f: "run_state (FindTicketsByRequest C pod ?r) w = (f, v)" by fastforce
  obtain ts where ts: "f = Inr ts" "selectBestTicket pod ts = Some t"
    using find f req by (cases f) (auto simp: findAvailableTicket_def FindAvailableTicket_def)
  have opts: "set_options pod' ls = set_options pod ls" using t(2) by (simp add: set_options_def)
  have listing: "FindTicketsByRequest C p ?r = do {
       q \<leftarrow> ListTickets C (set_options p ls);
       case q of Inl e \<Rightarrow> State_Monad.return (Inl e) | Inr ts \<Rightarrow> State_Monad.return (Inr (keep_group grp ts)) }" for p
    using FindTicketsByRequest_set [OF set, of C pod] FindTicketsByRequest_set [OF set, of C p] f ts(1)
    by (auto split: if_splits)
  obtain l x where l: "run_state (ListTickets C (set_options pod ls)) w = (l, x)" by fastforce
  obtain us where us: "l = Inr us" "ts = keep_group grp us"
    using f l listing [of pod] ts(1) by (cases l) auto
  have "t \<in> set ts" using selectBestTicket_Some [OF ts(2)] by simp
  then have sel: "selects (set_options pod ls) (ticket_meta t)" "\<And>g. grp = Some g \<Longrightarrow> in_group g t"
    using us list_result [OF l [unfolded us(1)]] by (auto simp: keep_group_def split: option.splits)
  obtain n where meta: "ticket_meta s = (ticket_meta t)\<lparr>ResourceVersion := n\<rparr>" using s(1) by (auto simp: claims_def)
  from list_tickets_available obtain vs y where vs: "run_state (ListTickets C (set_options pod ls)) w' = (Inr vs, y)" by blast
  have "view w' (ticket_key t) = Some s" using s(2) by simp
  moreover have "selects (set_options pod ls) (ticket_meta s)"
    using sel(1) meta same_identity_selects [of "ticket_meta t" "ticket_meta s"] by (simp add: same_identity_def)
  ultimately have "s \<in> set vs" using list_result [OF vs] by auto
  moreover have "grp = Some g \<Longrightarrow> in_group g s" for g using sel(2) meta by (simp add: in_group_def)
  ultimately have "s \<in> set (keep_group grp vs)" by (auto simp: keep_group_def split: option.split)
  moreover have "Name (ticket_meta s) = Name (ticket_meta t)" using meta by simp
  ultimately have "list_ex (\<lambda>u. Name (ticket_meta u) = Name (ticket_meta t)) (keep_group grp vs)"
    by (auto simp: list_ex_iff)
  moreover have "run_state (FindTicketsByRequest C pod' ?r) w' = (Inr (keep_group grp vs), y)"
    using vs opts by (simp add: listing [of pod'])
  ultimately have "run_state (ValidateClaimedTicketBelongsToRequest C pod' (Name (ticket_meta t)) ?r) w' = (None, y)"
    by (simp add: ValidateClaimedTicketBelongsToRequest_def)
  then show ?thesis
    using req names [OF t(1)] t(2)
    by (cases "ValidateTicketRequest ?r") (simp_all add: Pod_ValidateCreate_def validateTicketAnnotations_def Let_def)
qed

text \<open>A claim that goes through: whatever ticket the request finds is written as claimed.\<close>

lemma Pod_Default_binds:
  assumes req: "\<not> isGuardianPod pod" "requestsTicketBinding pod"
    and find: "run_state (findAvailableTicket C pod) w = (Inr (Some t), u)"
  shows "\<exists>node s w'. run_state (Pod_Default C pod) w = ((bound_pod pod t node, None), w') \<and>
     BoundNode (ticket_status t) = Some node \<and> claims pod t s \<and> view w' = (view w)(ticket_key t \<mapsto> s)"
proof -
  note t = findAvailableTicket_run(2) [OF find refl]
  then obtain node where node: "BoundNode (ticket_status t) = Some node" by (auto simp: claimable_def)
  obtain now v where now: "run_state (TimeNow C) u = (now, v)" by fastforce
  let ?t = "claimed_ticket pod t now"
  have v: "view v = view w" using server_frames(1) [OF now] findAvailableTicket_run(1) [OF find] by simp
  have key: "ticket_key ?t = ticket_key t" "ticket_meta ?t = ticket_meta t" by (simp_all add: claimed_ticket_def)
  from update_status_available [of v ?t t] t v key obtain t' x
    where upd: "run_state (UpdateTicketStatus C ?t) v = (Inr t', x)" by auto
  from update_status_result [OF upd] obtain s s' where
    "view v (ticket_key t) = Some s" "view x = (view v)(ticket_key t \<mapsto> s')"
    "ticket_status s' = stored_status (ticket_status ?t)" "ticket_spec s' = ticket_spec s"
    "\<exists>v. ticket_meta s' = (ticket_meta s)\<lparr>ResourceVersion := v\<rparr>" unfolding key by blast
  with t v have "claims pod t s'" "view x = (view w)(ticket_key t \<mapsto> s')"
    by (auto simp: claims_def claimed_ticket_def)
  with Pod_Default_run(2) [OF req find refl node now upd] node show ?thesis by blast
qed

end

section \<open>Properties\<close>

text \<open>
  The runs of the witnesses: a pod \<open>app\<close> of namespace \<open>team\<close> with a request, and a world with
  tickets of that namespace, given by name, status and the label and group they carry.
\<close>

definition app_pod :: "(string \<times> string) list \<Rightarrow> unit pod" where
  "app_pod anns = (sample_pod ''app'')\<lparr>pod_meta := empty_meta\<lparr>Name := ''app'', Namespace := ''team'',
     Annotations := Some anns\<rparr>\<rparr>"

definition requesting :: "string \<Rightarrow> unit pod" where
  "requesting r = app_pod [(TicketRequestAnnotation, r)]"

definition ready_status :: "string \<Rightarrow> ticket_status" where
  "ready_status node = empty_ticket_status\<lparr>Phase := TicketReady, BoundNode := Some node\<rparr>"

definition pool :: "(string \<times> string \<times> ticket_status) list \<Rightarrow> unit mem" where
  "pool ts = empty_mem\<lparr>m_tickets := map (\<lambda>(nm, grp, st).
     (sample_ticket st)\<lparr>ticket_meta := empty_meta\<lparr>Name := nm, Namespace := ''team'',
        Labels := Some [(''app'', grp)], Annotations := Some [(TicketGroupAnnotation, grp)]\<rparr>\<rparr>) ts\<rparr>"

text \<open>
  C13. The chosen ticket is the best. Of the tickets a request finds, \<open>selectBestTicket\<close> returns the
  first one that is ready and bound to a node and whose score no other such ticket exceeds;
  it returns none only when there is no such ticket.
\<close>

theorem best_ticket_is_chosen:
  "selectBestTicket pod ts =
     find (\<lambda>t. claimable t \<and> (\<forall>u \<in> set (filter claimable ts).
       calculateCompatibilityScore pod u \<le> calculateCompatibilityScore pod t)) ts \<and>
   (selectBestTicket pod ts = None \<longleftrightarrow> filter claimable ts = [])"
proof -
  let ?score = "calculateCompatibilityScore pod"
  have "\<exists>t \<in> set ts. claimable t \<and> (\<forall>u \<in> set ts. claimable u \<longrightarrow> ?score u \<le> ?score t)" if "filter claimable ts \<noteq> []"
  proof -
    let ?S = "set (filter claimable ts)"
    have "?S \<noteq> {}" using that by (metis set_empty)
    then have "Max (?score ` ?S) \<in> ?score ` ?S" by (intro Max_in) auto
    then obtain t where "t \<in> ?S" "?score t = Max (?score ` ?S)" by auto
    moreover have "?score u \<le> Max (?score ` ?S)" if "u \<in> ?S" for u using that by (intro Max_ge) auto
    ultimately show ?thesis by auto
  qed
  then have "selectBestTicket pod ts = None \<longleftrightarrow> filter claimable ts = []"
    by (auto simp: selectBestTicket_find find_None_iff filter_empty_conv)
  moreover have "selectBestTicket pod ts = find (\<lambda>t. claimable t \<and> (\<forall>u \<in> set (filter claimable ts).
       ?score u \<le> ?score t)) ts"
    unfolding selectBestTicket_find by (rule find_cong) auto
  ultimately show ?thesis by blast
qed

theorem best_ticket_is_chosen_witness:
  "selectBestTicket (requesting ''group:web'') (m_tickets (pool [(''a'', ''web'', empty_ticket_status),
      (''b'', ''web'', ready_status ''n1''), (''c'', ''web'', ready_status ''n2'')])) \<noteq> None"
proof -
  let ?ts = "m_tickets (pool [(''a'', ''web'', empty_ticket_status),
      (''b'', ''web'', ready_status ''n1''), (''c'', ''web'', ready_status ''n2'')])"
  have "length (filter claimable ?ts) = 2" by code_simp
  then have "filter claimable ?ts \<noteq> []" by (metis list.size(3) zero_neq_numeral)
  then show ?thesis using best_ticket_is_chosen [THEN conjunct2, of "requesting ''group:web''" ?ts] by metis
qed

text \<open>
  C5. A pod takes at most one ticket, and only a free one of its namespace. \<open>Default\<close> never returns an
  error and never touches pods. When the search finds a ticket for a pod that may be bound, it is
  a ready ticket of the pod's namespace with a node; the pod is pointed at that node and the last
  thing \<open>Default\<close> does is to write the claim: if the server accepts the write, exactly that
  ticket is claimed by the pod, its guardian left for the ticket controller, and if the server
  returns an error no ticket changes. In every other case pod and tickets stay as they are.
\<close>

theorem a_pod_takes_at_most_one_free_ticket:
  assumes "ticket_server C view pview"
    and "run_state (Pod_Default C pod) w = ((pod', err), w')"
  shows "err = None \<and> pview w' = pview w \<and>
    (case fst (run_state (findAvailableTicket C pod) w) of
       Inr (Some t) \<Rightarrow>
         if isGuardianPod pod \<or> \<not> requestsTicketBinding pod then pod' = pod \<and> view w' = view w
         else view w (ticket_key t) = Some t \<and> claimable t \<and> Namespace (ticket_meta t) = Namespace (pod_meta pod) \<and>
           (\<exists>node. BoundNode (ticket_status t) = Some node \<and> pod' = bound_pod pod t node) \<and>
           (\<exists>now u q. view u = view w \<and> run_state (UpdateTicketStatus C (claimed_ticket pod t now)) u = (q, w') \<and>
              (case q of
                 Inl e \<Rightarrow> view w' = view w
               | Inr _ \<Rightarrow> \<exists>s. claims pod t s \<and> view w' = (view w)(ticket_key t \<mapsto> s)))
     | _ \<Rightarrow> pod' = pod \<and> view w' = view w)"
  using assms by (rule ticket_server.Pod_Default_exact)

theorem a_pod_takes_at_most_one_free_ticket_witness:
  "pod_view (snd (run_state (Pod_Default mem_client (requesting ''group:web''))
     (pool [(''a'', ''web'', ready_status ''n1''), (''b'', ''web'', ready_status ''n2'')]))) =
   pod_view (pool [(''a'', ''web'', ready_status ''n1''), (''b'', ''web'', ready_status ''n2'')])"
proof -
  let ?r = "run_state (Pod_Default mem_client (requesting ''group:web''))
     (pool [(''a'', ''web'', ready_status ''n1''), (''b'', ''web'', ready_status ''n2'')])"
  have "?r = ((fst (fst ?r), snd (fst ?r)), snd ?r)" by simp
  from a_pod_takes_at_most_one_free_ticket [OF memp.ticket_server_axioms, OF this] show ?thesis by blast
qed

text \<open>
  C26. Claims by label or group survive validation exactly when the request is well formed. With the
  API up, once \<open>Default\<close> has claimed a ticket for a \<open>selector:\<close> or \<open>group:\<close> request, \<open>ValidateCreate\<close> of
  the pod it left returns the verdict of \<open>ValidateTicketRequest\<close> and nothing else.
\<close>

theorem set_claims_are_validated_by_format:
  assumes "available_ticket_server C view pview"
    and "run_state (Pod_Default C pod) w = ((pod', err), w')"
    and "set_request (gm_at (Annotations (pod_meta pod)) TicketRequestAnnotation) = Some (ls, grp)"
    and "view w' \<noteq> view w"
    and "\<And>k t. view w k = Some t \<Longrightarrow> Name (ticket_meta t) \<noteq> []"
  shows "\<exists>w''. run_state (Pod_ValidateCreate C pod') w' =
     (([], case ValidateTicketRequest (gm_at (Annotations (pod_meta pod)) TicketRequestAnnotation) of
             Inl e \<Rightarrow> Some e | Inr _ \<Rightarrow> None), w'')"
  using assms by (rule available_ticket_server.set_claim_validated)

text \<open>A selector with a broken pair: the first half of the webhook takes a ticket, the second refuses the pod.\<close>

theorem set_claims_are_validated_by_format_witness:
  "\<exists>e w''. run_state (Pod_ValidateCreate mem_client (fst (fst (run_state (Pod_Default mem_client
        (requesting ''selector:app=web,broken'')) (pool [(''a'', ''web'', ready_status ''n1'')])))))
      (snd (run_state (Pod_Default mem_client (requesting ''selector:app=web,broken''))
        (pool [(''a'', ''web'', ready_status ''n1'')]))) = (([], Some e), w'')"
proof -
  let ?w = "pool [(''a'', ''web'', ready_status ''n1'')]" and ?p = "requesting ''selector:app=web,broken''"
  let ?r = "run_state (Pod_Default mem_client ?p) ?w"
  let ?req = "gm_at (Annotations (pod_meta ?p)) TicketRequestAnnotation"
  have run: "?r = ((fst (fst ?r), snd (fst ?r)), snd ?r)" by simp
  have set: "set_request ?req = Some (Some [(''app'', ''web'')], None)"
    and phase: "map_option (\<lambda>t. Phase (ticket_status t)) (ticket_view (snd ?r) (Key ''team'' ''a'')) = Some TicketClaimed"
      "map_option (\<lambda>t. Phase (ticket_status t)) (ticket_view ?w (Key ''team'' ''a'')) = Some TicketReady"
    and bad: "isl (ValidateTicketRequest ?req)"
    by code_simp+
  have "list_all (\<lambda>t. Name (ticket_meta t) \<noteq> []) (m_tickets ?w)" by code_simp
  then have names: "ticket_view ?w k = Some t \<Longrightarrow> Name (ticket_meta t) \<noteq> []" for k t
    by (auto simp: ticket_view_def store_find_def find_Some_iff list_all_length)
  have "ticket_view (snd ?r) \<noteq> ticket_view ?w"
  proof
    assume "ticket_view (snd ?r) = ticket_view ?w"
    with phase show False by simp
  qed
  then have "\<exists>w''. run_state (Pod_ValidateCreate mem_client (fst (fst ?r))) (snd ?r) =
      (([], case ValidateTicketRequest ?req of Inl e \<Rightarrow> Some e | Inr _ \<Rightarrow> None), w'')"
    by (rule set_claims_are_validated_by_format [OF memp.available_ticket_server_axioms, OF run set]) (rule names)
  with bad show ?thesis by (cases "ValidateTicketRequest ?req") auto
qed

text \<open>
  C37. A claim by name is always refused. Whenever \<open>Default\<close> claims a ticket for a \<open>name:\<close> request or a
  plain ticket name, \<open>ValidateCreate\<close> of the same pod returns an error, because it looks for
  the ticket among those still free; the pod is rejected and its ticket stays claimed.
\<close>

theorem claims_by_name_are_refused:
  assumes "ticket_server C view pview"
    and "run_state (Pod_Default C pod) w = ((pod', err), w')"
    and "named_request (gm_at (Annotations (pod_meta pod)) TicketRequestAnnotation) = Some nm"
    and "view w' \<noteq> view w"
  shows "\<exists>ws e w''. run_state (Pod_ValidateCreate C pod') w' = ((ws, Some e), w'')"
  using assms by (rule ticket_server.named_claim_rejected)

theorem claims_by_name_are_refused_witness:
  "\<exists>ws e w''. run_state (Pod_ValidateCreate mem_client (fst (fst (run_state (Pod_Default mem_client
        (requesting ''name: a'')) (pool [(''a'', ''web'', ready_status ''n1'')])))))
      (snd (run_state (Pod_Default mem_client (requesting ''name: a''))
        (pool [(''a'', ''web'', ready_status ''n1'')]))) = ((ws, Some e), w'')"
proof -
  let ?w = "pool [(''a'', ''web'', ready_status ''n1'')]" and ?p = "requesting ''name: a''"
  let ?r = "run_state (Pod_Default mem_client ?p) ?w"
  have run: "?r = ((fst (fst ?r), snd (fst ?r)), snd ?r)" by simp
  have req: "named_request (gm_at (Annotations (pod_meta ?p)) TicketRequestAnnotation) = Some ''a''"
    and phase: "map_option (\<lambda>t. Phase (ticket_status t)) (ticket_view (snd ?r) (Key ''team'' ''a'')) = Some TicketClaimed"
      "map_option (\<lambda>t. Phase (ticket_status t)) (ticket_view ?w (Key ''team'' ''a'')) = Some TicketReady"
    by code_simp+
  have "ticket_view (snd ?r) \<noteq> ticket_view ?w"
  proof
    assume "ticket_view (snd ?r) = ticket_view ?w"
    with phase show False by simp
  qed
  from claims_by_name_are_refused [OF memp.ticket_server_axioms, OF run req this] show ?thesis .
qed

text \<open>
  C38. A failed claim still binds the pod. If the status write fails (two pods chose the same ticket, say, and
  this one lost), \<open>Default\<close> returns no error and a pod that carries the ticket's node and
  its name as claimed, so both pods run on the capacity of one ticket.
\<close>

theorem failed_claims_still_bind_the_pod:
  assumes "\<not> isGuardianPod pod" "requestsTicketBinding pod"
    and "run_state (findAvailableTicket C pod) w = (Inr (Some t), u)" "BoundNode (ticket_status t) = Some node"
    and "run_state (TimeNow C) u = (now, v)"
    and "run_state (UpdateTicketStatus C (claimed_ticket pod t now)) v = (Inl e, x)"
  shows "\<exists>pod'. run_state (Pod_Default C pod) w = ((pod', None), x) \<and>
     PodNodeName (pod_spec pod') = node \<and>
     gm_at (Annotations (pod_meta pod')) TicketClaimedAnnotation = Name (ticket_meta t)"
  using Pod_Default_run(2) [OF assms(1-3) refl assms(4-6)] by auto

definition conflicting_client :: "(unit, unit mem) client" where
  "conflicting_client = mem_client\<lparr>UpdateTicketStatus := (\<lambda>t. State_Monad.return (Inl conflict))\<rparr>"

theorem failed_claims_still_bind_the_pod_witness:
  "\<exists>pod'. run_state (Pod_Default conflicting_client (requesting ''group:web'')) (pool [(''a'', ''web'', ready_status ''n1'')]) =
      ((pod', None), snd (run_state (Pod_Default conflicting_client (requesting ''group:web''))
         (pool [(''a'', ''web'', ready_status ''n1'')]))) \<and>
     PodNodeName (pod_spec pod') = ''n1''"
proof -
  let ?w = "pool [(''a'', ''web'', ready_status ''n1'')]" and ?p = "requesting ''group:web''" and ?C = conflicting_client
  let ?f = "run_state (findAvailableTicket ?C ?p) ?w"
  have req: "\<not> isGuardianPod ?p" "requestsTicketBinding ?p"
    and f: "map_option (\<lambda>t. BoundNode (ticket_status t)) (case fst ?f of Inr x \<Rightarrow> x | Inl _ \<Rightarrow> None) = Some (Some ''n1'')"
    by code_simp+
  from f obtain t where t: "fst ?f = Inr (Some t)" "BoundNode (ticket_status t) = Some ''n1''"
    by (auto split: sum.splits)
  have upd: "run_state (UpdateTicketStatus ?C x) v = (Inl conflict, v)" for x v
    by (simp add: conflicting_client_def)
  from failed_claims_still_bind_the_pod [OF req run_eq_fst [OF t(1)] t(2) prod.collapse [symmetric] upd]
  show ?thesis by auto
qed

text \<open>
  Every update of a pod claims another ticket. The webhook also runs on updates and does not look at
  the claim the pod already has: with the API up, a pod that carries a claim and whose
  request finds some other ticket has that one claimed as well, while the first stays as it is.
\<close>

theorem updates_claim_another_ticket:
  assumes "available_ticket_server C view pview"
    and "\<not> isGuardianPod pod" "requestsTicketBinding pod"
    and "gm_at (Annotations (pod_meta pod)) TicketClaimedAnnotation = old"
    and "run_state (findAvailableTicket C pod) w = (Inr (Some t), u)" "Name (ticket_meta t) \<noteq> old"
  shows "\<exists>pod' s w'. run_state (Pod_Default C pod) w = ((pod', None), w') \<and>
     gm_at (Annotations (pod_meta pod')) TicketClaimedAnnotation = Name (ticket_meta t) \<and>
     view w' (ticket_key t) = Some s \<and> Phase (ticket_status s) = TicketClaimed \<and>
     view w' (Key (Namespace (pod_meta pod)) old) = view w (Key (Namespace (pod_meta pod)) old)"
proof -
  from available_ticket_server.Pod_Default_binds [OF assms(1), OF assms(2,3,5)] obtain node s w'
    where "run_state (Pod_Default C pod) w = ((bound_pod pod t node, None), w')" "claims pod t s"
      "view w' = (view w)(ticket_key t \<mapsto> s)" by blast
  with assms(6) show ?thesis by (auto simp: claims_def meta_key_def)
qed

theorem updates_claim_another_ticket_witness:
  "\<exists>pod' w'. run_state (Pod_Default mem_client
        (app_pod [(TicketRequestAnnotation, ''group:web''), (TicketClaimedAnnotation, ''a'')]))
      (pool [(''a'', ''web'', (ready_status ''n1'')\<lparr>Phase := TicketClaimed\<rparr>), (''b'', ''web'', ready_status ''n2'')]) =
        ((pod', None), w') \<and>
     gm_at (Annotations (pod_meta pod')) TicketClaimedAnnotation = ''b''"
proof -
  let ?p = "app_pod [(TicketRequestAnnotation, ''group:web''), (TicketClaimedAnnotation, ''a'')]"
  let ?w = "pool [(''a'', ''web'', (ready_status ''n1'')\<lparr>Phase := TicketClaimed\<rparr>), (''b'', ''web'', ready_status ''n2'')]"
  let ?f = "run_state (findAvailableTicket mem_client ?p) ?w"
  have req: "\<not> isGuardianPod ?p" "requestsTicketBinding ?p"
    "gm_at (Annotations (pod_meta ?p)) TicketClaimedAnnotation = ''a''"
    and f: "map_option (\<lambda>t. Name (ticket_meta t)) (case fst ?f of Inr x \<Rightarrow> x | Inl _ \<Rightarrow> None) = Some ''b''"
    by code_simp+
  from f obtain t where t: "fst ?f = Inr (Some t)" "Name (ticket_meta t) = ''b''"
    by (auto split: sum.splits)
  from updates_claim_another_ticket [OF memp.available_ticket_server_axioms, OF req run_eq_fst [OF t(1)]] t(2)
  show ?thesis by fastforce
qed

text \<open>
  Unscheduled capacity is handed out. A ticket counts as bound as soon as its status has a node name,
  even the empty one activation writes before the guardian is scheduled; a request that finds
  such a ticket consumes it and leaves the pod without a node.
\<close>

theorem unscheduled_tickets_are_consumed:
  assumes "available_ticket_server C view pview"
    and "\<not> isGuardianPod pod" "requestsTicketBinding pod"
    and "run_state (findAvailableTicket C pod) w = (Inr (Some t), u)"
    and "BoundNode (ticket_status t) = Some []"
  shows "\<exists>pod' s w'. run_state (Pod_Default C pod) w = ((pod', None), w') \<and> PodNodeName (pod_spec pod') = [] \<and>
     view w' (ticket_key t) = Some s \<and> Phase (ticket_status s) = TicketClaimed"
proof -
  from available_ticket_server.Pod_Default_binds [OF assms(1), OF assms(2,3,4)] obtain node s w'
    where "run_state (Pod_Default C pod) w = ((bound_pod pod t node, None), w')" "claims pod t s"
      "BoundNode (ticket_status t) = Some node" "view w' = (view w)(ticket_key t \<mapsto> s)" by blast
  with assms(5) show ?thesis by (auto simp: claims_def)
qed

theorem unscheduled_tickets_are_consumed_witness:
  "\<exists>pod' w'. run_state (Pod_Default mem_client (requesting ''a'')) (pool [(''a'', ''web'', ready_status [])]) =
      ((pod', None), w') \<and> PodNodeName (pod_spec pod') = []"
proof -
  let ?p = "requesting ''a''" and ?w = "pool [(''a'', ''web'', ready_status [])]"
  let ?f = "run_state (findAvailableTicket mem_client ?p) ?w"
  have req: "\<not> isGuardianPod ?p" "requestsTicketBinding ?p"
    and f: "map_option (\<lambda>t. BoundNode (ticket_status t)) (case fst ?f of Inr x \<Rightarrow> x | Inl _ \<Rightarrow> None) = Some (Some [])"
    by code_simp+
  from f obtain t where t: "fst ?f = Inr (Some t)" "BoundNode (ticket_status t) = Some []"
    by (auto split: sum.splits)
  from unscheduled_tickets_are_consumed [OF memp.available_ticket_server_axioms, OF req run_eq_fst [OF t(1)] t(2)]
  show ?thesis by fastforce
qed

end
