(* ===== verification/Claims.thy ===== *)
theory Claims
  imports PodWebhook
begin

text \<open>
  Tickets under concurrency: several pods admitted at once and the ticket controller, each
  acting on what it read earlier. The API server's optimistic locking (resource versions) is
  stated as an interface and provided by the in-memory server; on it rest the two theorems,
  that a ticket is never claimed twice, and that a claimed ticket gives its node from its
  guardian to the pod.
\<close>

section \<open>Resource versions\<close>

text \<open>
  \<open>future w v\<close>: version \<open>v\<close> has not been given out yet in world \<open>w\<close>. A step \<open>advances\<close> when
  versions are only used up and a ticket that is new or changed carries one of them.
\<close>

abbreviation ticket_version :: "'q ticket \<Rightarrow> string" where
  "ticket_version t \<equiv> ResourceVersion (ticket_meta t)"

definition advances ::
  "('w \<Rightarrow> object_key \<Rightarrow> 'q ticket option) \<Rightarrow> ('w \<Rightarrow> bool) \<Rightarrow> ('w \<Rightarrow> string \<Rightarrow> bool) \<Rightarrow> 'w \<Rightarrow> 'w \<Rightarrow> bool" where
  "advances view good future w w' \<longleftrightarrow>
     good w' \<and> (\<forall>v. future w' v \<longrightarrow> future w v) \<and>
     (\<forall>k s'. view w' k = Some s' \<longrightarrow> view w k = Some s' \<or> future w (ticket_version s'))"

locale versioned_server = ticket_server C view pview
  for C :: "('q, 'w) client" and view and pview +
  fixes good :: "'w \<Rightarrow> bool" and future :: "'w \<Rightarrow> string \<Rightarrow> bool"
  assumes version_given: "good w \<Longrightarrow> view w k = Some s \<Longrightarrow> ticket_version s \<noteq> [] \<and> \<not> future w (ticket_version s)"
    and op_advances:
      "good w \<Longrightarrow> run_state (ListTickets C opts) w = (rl, w') \<Longrightarrow> advances view good future w w'"
      "good w \<Longrightarrow> run_state (GetTicket C ns nm) w = (rt, w') \<Longrightarrow> advances view good future w w'"
      "good w \<Longrightarrow> run_state (TimeNow C) w = (now, w') \<Longrightarrow> advances view good future w w'"
      "good w \<Longrightarrow> run_state (UpdateTicket C t) w = (rt, w') \<Longrightarrow> advances view good future w w'"
      "good w \<Longrightarrow> run_state (UpdateTicketStatus C t) w = (rt, w') \<Longrightarrow> advances view good future w w'"
      "good w \<Longrightarrow> run_state (DeleteTicket C t) w = (ru, w') \<Longrightarrow> advances view good future w w'"
      "good w \<Longrightarrow> run_state (GetPod C ns nm) w = (rp, w') \<Longrightarrow> advances view good future w w'"
      "good w \<Longrightarrow> run_state (CreatePod C p) w = (rp, w') \<Longrightarrow> advances view good future w w'"
      "good w \<Longrightarrow> run_state (DeletePod C ns nm) w = (ru, w') \<Longrightarrow> advances view good future w w'"
    and status_current: "view w (ticket_key t) = Some s \<Longrightarrow> run_state (UpdateTicketStatus C t) w = (Inr t', w') \<Longrightarrow>
        ticket_version t \<in> {[], ticket_version s}"

lemma advances_trans:
  "advances view good future u v \<Longrightarrow> advances view good future v w \<Longrightarrow> advances view good future u w"
  unfolding advances_def by blast

lemma advances_good: "advances view good future w w' \<Longrightarrow> good w'"
  by (simp add: advances_def)

subsection \<open>The in-memory server\<close>

definition mem_good :: "'q mem \<Rightarrow> bool" where
  "mem_good w \<longleftrightarrow> (\<forall>k s. ticket_view w k = Some s \<longrightarrow> (\<exists>n < m_next w. ticket_version s = show_nat n))"

definition mem_future :: "'q mem \<Rightarrow> string \<Rightarrow> bool" where
  "mem_future w v \<longleftrightarrow> (\<exists>n \<ge> m_next w. v = show_nat n)"

lemma show_nat_inject [simp]: "show_nat m = show_nat n \<longleftrightarrow> m = n"
  by (metis digits_val_show_nat)

lemma mem_good_version:
  "mem_good w \<Longrightarrow> ticket_view w k = Some s \<Longrightarrow> \<exists>n < m_next w. ticket_version s = show_nat n"
  by (simp add: mem_good_def)

lemma mem_future_later: "m_next w \<le> m_next w' \<Longrightarrow> mem_future w' v \<Longrightarrow> mem_future w v"
  by (auto simp: mem_future_def)

lemma mem_future_next [simp]: "mem_future w (show_nat (m_next w))"
  by (auto simp: mem_future_def)

lemma mem_advances_same:
  assumes "mem_good w" "ticket_view w' = ticket_view w" "m_next w \<le> m_next w'"
  shows "advances ticket_view mem_good mem_future w w'"
proof -
  have "mem_good w'"
    unfolding mem_good_def
  proof (intro allI impI)
    fix k s assume "ticket_view w' k = Some s"
    with mem_good_version [OF assms(1), of k s] assms(2,3) show "\<exists>n < m_next w'. ticket_version s = show_nat n"
      by auto
  qed
  with assms(2) mem_future_later [OF assms(3)] show ?thesis by (auto simp: advances_def)
qed

lemma mem_advances_write:
  assumes "mem_good w" "m_next w' = m_next w + 1"
    and "ticket_view w' = ticket_view w \<or> ticket_view w' = (ticket_view w)(k := None) \<or>
      (\<exists>s. ticket_view w' = (ticket_view w)(k \<mapsto> s) \<and>
         (ticket_view w k = Some s \<or> ticket_version s = show_nat (m_next w)))"
  shows "advances ticket_view mem_good mem_future w w'"
proof -
  have step: "ticket_view w j = Some x \<or> ticket_version x = show_nat (m_next w)" if "ticket_view w' j = Some x" for j x
    using that assms(3) by (auto split: if_splits)
  have "mem_good w'"
    unfolding mem_good_def
  proof (intro allI impI)
    fix j x assume "ticket_view w' j = Some x"
    from step [OF this] mem_good_version [OF assms(1), of j x] assms(2)
    show "\<exists>n < m_next w'. ticket_version x = show_nat n" by (auto simp: less_Suc_eq)
  qed
  moreover have "mem_future w' v \<Longrightarrow> mem_future w v" for v
    using assms(2) mem_future_later [of w w' v] by simp
  moreover have "ticket_view w' j = Some x \<Longrightarrow> ticket_view w j = Some x \<or> mem_future w (ticket_version x)" for j x
    using step [of j x] mem_future_next [of w] by metis
  ultimately show ?thesis unfolding advances_def by blast
qed

lemma store_update_version:
  assumes "store_update ticket_kind n t xs = (r, ys)"
  shows "(\<lambda>k. store_find ticket_kind k ys) = (\<lambda>k. store_find ticket_kind k xs) \<or>
    (\<lambda>k. store_find ticket_kind k ys) = (\<lambda>k. store_find ticket_kind k xs)(ticket_key t := None) \<or>
    (\<exists>s. (\<lambda>k. store_find ticket_kind k ys) = (\<lambda>k. store_find ticket_kind k xs)(ticket_key t \<mapsto> s) \<and>
       ticket_version s = show_nat n)"
proof (cases "store_find ticket_kind (ticket_key t) xs")
  case None
  with assms show ?thesis by (auto simp: store_update_def)
next
  case (Some old)
  define m where "m = bump n ((ticket_meta t)\<lparr>UID := UID (ticket_meta old), DeletionTimestamp := DeletionTimestamp (ticket_meta old)\<rparr>)"
  define s where "s = kset_status ticket_kind old (kset_meta ticket_kind m t)"
  have s: "kkey ticket_kind s = ticket_key t" "ticket_version s = show_nat n"
    by (simp_all add: s_def m_def bump_def kkey_def ticket_kind_def meta_key_def)
  from assms Some have "ys = xs \<or> ys = store_remove ticket_kind (ticket_key t) xs \<or> ys = store_replace ticket_kind s xs"
    by (auto simp: store_update_def Let_def m_def s_def split: if_splits)
  with s Some store_find_replace [of ticket_kind s xs old] store_find_remove [of ticket_kind "ticket_key t" xs]
  show ?thesis by auto
qed

lemma store_delete_version:
  assumes "store_delete ticket_kind n now k xs = (r, ys)"
  shows "(\<lambda>k. store_find ticket_kind k ys) = (\<lambda>k. store_find ticket_kind k xs) \<or>
    (\<lambda>k. store_find ticket_kind k ys) = (\<lambda>k. store_find ticket_kind k xs)(k := None) \<or>
    (\<exists>s. (\<lambda>k. store_find ticket_kind k ys) = (\<lambda>k. store_find ticket_kind k xs)(k \<mapsto> s) \<and>
       (store_find ticket_kind k xs = Some s \<or> ticket_version s = show_nat n))"
proof (cases "store_find ticket_kind k xs")
  case None
  with assms show ?thesis by (auto simp: store_delete_def)
next
  case (Some old)
  define m where "m = (case DeletionTimestamp (ticket_meta old) of
      None \<Rightarrow> bump n ((ticket_meta old)\<lparr>DeletionTimestamp := Some now\<rparr>) | Some _ \<Rightarrow> ticket_meta old)"
  define s where "s = kset_meta ticket_kind m old"
  have s: "kkey ticket_kind s = k" "s = old \<or> ticket_version s = show_nat n"
    using store_find_key [OF Some]
    by (auto simp: s_def m_def bump_def kkey_def ticket_kind_def meta_key_def split: option.split)
  from assms Some have "ys = store_remove ticket_kind k xs \<or> ys = store_replace ticket_kind s xs"
    by (auto simp: store_delete_def m_def s_def cong: option.case_cong split: if_splits)
  with s Some store_find_replace [of ticket_kind s xs old] store_find_remove [of ticket_kind k xs]
  show ?thesis by auto
qed

lemma mem_version_writes:
  assumes "mem_good w"
  shows "run_state (UpdateTicket mem_client t) w = (r, w') \<Longrightarrow> advances ticket_view mem_good mem_future w w'"
    "run_state (UpdateTicketStatus mem_client t) w = (r, w') \<Longrightarrow> advances ticket_view mem_good mem_future w w'"
    "run_state (DeleteTicket mem_client t) w = (ru, w') \<Longrightarrow> advances ticket_view mem_good mem_future w w'"
proof -
  note stamp = mem_advances_write [OF assms]
  show "run_state (UpdateTicket mem_client t) w = (r, w') \<Longrightarrow> advances ticket_view mem_good mem_future w w'"
    using store_update_version [of "m_next w" t "m_tickets w"]
    by (intro stamp [of w' "ticket_key t"])
      (auto simp: mem_client_def run_mem_write ticket_view_eq split: prod.splits)
  show "run_state (DeleteTicket mem_client t) w = (ru, w') \<Longrightarrow> advances ticket_view mem_good mem_future w w'"
    using store_delete_version [of "m_next w" "m_clock w" "ticket_key t" "m_tickets w"]
    by (intro stamp [of w' "ticket_key t"])
      (auto simp: mem_client_def run_mem_write ticket_view_eq split: prod.splits)
  assume upd: "run_state (UpdateTicketStatus mem_client t) w = (r, w')"
  then have next_version: "m_next w' = m_next w + 1"
    by (auto simp: mem_client_def run_mem_write split: prod.splits)
  show "advances ticket_view mem_good mem_future w w'"
    using mem_update_status [OF upd]
    by (intro stamp [OF next_version, of "ticket_key t"]) (auto simp: bump_def split: sum.splits)
qed

interpretation memv: versioned_server mem_client ticket_view pod_view mem_good mem_future
proof unfold_locales
  fix w w' :: "'a mem" and t t' s :: "'a ticket" and k r and p :: "'a pod" and ns nm
  show "mem_good w \<Longrightarrow> ticket_view w k = Some s \<Longrightarrow> ticket_version s \<noteq> [] \<and> \<not> mem_future w (ticket_version s)"
    by (drule (1) mem_good_version) (auto simp: mem_future_def dest: sym)
  show "mem_good w \<Longrightarrow> run_state (CreatePod mem_client p) w = (rp, w') \<Longrightarrow> advances ticket_view mem_good mem_future w w'" for rp
    using mem_create_pod [of p w rp w']
    by (intro mem_advances_same) (auto simp: mem_client_def run_mem_write split: prod.splits)
  show "mem_good w \<Longrightarrow> run_state (DeletePod mem_client ns nm) w = (ru, w') \<Longrightarrow> advances ticket_view mem_good mem_future w w'" for ru
    using mem_delete_pod [of ns nm w ru w']
    by (intro mem_advances_same) (auto simp: mem_client_def run_mem_write split: prod.splits)
  show "ticket_view w (ticket_key t) = Some s \<Longrightarrow> run_state (UpdateTicketStatus mem_client t) w = (Inr t', w') \<Longrightarrow>
      ticket_version t \<in> {[], ticket_version s}"
    by (auto simp: mem_client_def run_mem_write store_update_status_def stale_def ticket_view_def Let_def split: if_splits)
  show "mem_good w \<Longrightarrow> run_state (UpdateTicket mem_client t) w = (rt, w') \<Longrightarrow> advances ticket_view mem_good mem_future w w'" for rt
    by (rule mem_version_writes(1))
  show "mem_good w \<Longrightarrow> run_state (UpdateTicketStatus mem_client t) w = (rt, w') \<Longrightarrow> advances ticket_view mem_good mem_future w w'" for rt
    by (rule mem_version_writes(2))
  show "mem_good w \<Longrightarrow> run_state (DeleteTicket mem_client t) w = (ru, w') \<Longrightarrow> advances ticket_view mem_good mem_future w w'" for ru
    by (rule mem_version_writes(3))
qed (auto simp: mem_client_def ticket_view_eq intro!: mem_advances_same)

section \<open>A reconciliation based on an old read\<close>

text \<open>
  What a writer that read ticket \<open>t\<close> can do: change the status of the stored ticket only
  while that still is the version it read, and then without touching the claim.
\<close>

definition based_on ::
  "('w \<Rightarrow> object_key \<Rightarrow> 'q ticket option) \<Rightarrow> ('w \<Rightarrow> bool) \<Rightarrow> ('w \<Rightarrow> string \<Rightarrow> bool) \<Rightarrow> 'q ticket \<Rightarrow> 'w \<Rightarrow> 'w \<Rightarrow> bool" where
  "based_on view good future t w w' \<longleftrightarrow>
     advances view good future w w' \<and>
     (\<forall>k s'. view w' k = Some s' \<longrightarrow>
        (\<exists>s. view w k = Some s \<and>
           (ticket_status s' = ticket_status s \<or>
            k = ticket_key t \<and> ticket_version s = ticket_version t \<and>
            ClaimedPod (ticket_status s') = ClaimedPod (ticket_status t))))"

lemma based_on_same: "advances view good future w w' \<Longrightarrow> view w' = view w \<Longrightarrow> based_on view good future t w w'"
  by (auto simp: based_on_def)

lemma based_on_trans:
  assumes "based_on view good future t u v" "based_on view good future t v w" "\<not> future u (ticket_version t)"
  shows "based_on view good future t u w"
proof -
  have adv: "advances view good future u v" "advances view good future v w" using assms(1,2) by (simp_all add: based_on_def)
  have "\<exists>s. view u k = Some s \<and> (ticket_status s'' = ticket_status s \<or>
      k = ticket_key t \<and> ticket_version s = ticket_version t \<and> ClaimedPod (ticket_status s'') = ClaimedPod (ticket_status t))"
    if "view w k = Some s''" for k s''
  proof -
    from that assms(2) obtain s' where s': "view v k = Some s'" "ticket_status s'' = ticket_status s' \<or>
        k = ticket_key t \<and> ticket_version s' = ticket_version t \<and> ClaimedPod (ticket_status s'') = ClaimedPod (ticket_status t)"
      unfolding based_on_def by blast
    from s'(1) assms(1) obtain s where s: "view u k = Some s" "ticket_status s' = ticket_status s \<or>
        k = ticket_key t \<and> ticket_version s = ticket_version t \<and> ClaimedPod (ticket_status s') = ClaimedPod (ticket_status t)"
      unfolding based_on_def by blast
    have "view u k = Some s' \<or> future u (ticket_version s')" using adv(1) s'(1) by (simp add: advances_def)
    with s s' assms(3) show ?thesis by auto
  qed
  with advances_trans [OF adv] show ?thesis by (simp add: based_on_def)
qed

text \<open>The version of a ticket that was read from the server, now or earlier.\<close>

definition version_read :: "('w \<Rightarrow> string \<Rightarrow> bool) \<Rightarrow> 'w \<Rightarrow> 'q ticket \<Rightarrow> bool" where
  "version_read future w t \<longleftrightarrow> ticket_version t \<noteq> [] \<and> \<not> future w (ticket_version t)"

text \<open>A computation all of whose runs from a good world are based on \<open>t\<close>.\<close>

definition bases ::
  "('w \<Rightarrow> object_key \<Rightarrow> 'q ticket option) \<Rightarrow> ('w \<Rightarrow> bool) \<Rightarrow> ('w \<Rightarrow> string \<Rightarrow> bool) \<Rightarrow> 'q ticket \<Rightarrow> ('w, 'a) state \<Rightarrow> bool" where
  "bases view good future t m \<longleftrightarrow>
     (\<forall>w. good w \<and> version_read future w t \<longrightarrow> based_on view good future t w (snd (run_state m w)))"

lemma bases_return [simp]: "bases view good future t (State_Monad.return x)"
  by (simp add: bases_def based_on_def advances_def)

lemma bases_bind:
  assumes "bases view good future t m" "\<And>x. bases view good future t (f x)"
  shows "bases view good future t (do { x \<leftarrow> m; f x })"
  unfolding bases_def
proof (intro allI impI, elim conjE)
  fix w assume w: "good w" "version_read future w t"
  obtain x v where x: "run_state m w = (x, v)" by fastforce
  have first: "based_on view good future t w v" using assms(1) w x by (auto simp: bases_def dest: spec [of _ w])
  then have "good v" "version_read future v t" using w(2) by (auto simp: based_on_def advances_def version_read_def)
  then have "based_on view good future t v (snd (run_state (f x) v))" using assms(2) by (simp add: bases_def)
  from based_on_trans [OF first this] w(2) x
  show "based_on view good future t w (snd (run_state (do { x \<leftarrow> m; f x }) w))" by (simp add: version_read_def)
qed

text \<open>The handlers are started on tickets with the metadata and the claim of \<open>t\<close>.\<close>

definition same_claim :: "'q ticket \<Rightarrow> 'q ticket \<Rightarrow> bool" where
  "same_claim t x \<longleftrightarrow> ticket_meta x = ticket_meta t \<and> ClaimedPod (ticket_status x) = ClaimedPod (ticket_status t)"

context versioned_server
begin

abbreviation "writes_from \<equiv> bases view good future"

lemma bases_frame:
  assumes "\<And>w r w'. good w \<Longrightarrow> run_state m w = (r, w') \<Longrightarrow> advances view good future w w'"
    and "\<And>w r w'. run_state m w = (r, w') \<Longrightarrow> view w' = view w"
  shows "writes_from t m"
  unfolding bases_def using assms by (intro allI impI based_on_same) (auto simp: prod_eq_iff)

lemma bases_reads:
  "writes_from t (TimeNow C)" "writes_from t (GetPod C ns nm)" "writes_from t (CreatePod C p)" "writes_from t (DeletePod C ns nm)"
proof -
  show "writes_from t (TimeNow C)" by (rule bases_frame) (use op_advances(3) server_frames(1) in blast)+
  show "writes_from t (GetPod C ns nm)" by (rule bases_frame) (use op_advances(7) tickets_frame(1) in blast)+
  show "writes_from t (CreatePod C p)" by (rule bases_frame) (use op_advances(8) tickets_frame(2) in blast)+
  show "writes_from t (DeletePod C ns nm)" by (rule bases_frame) (use op_advances(9) tickets_frame(3) in blast)+
qed

lemma bases_status:
  assumes "ticket_meta x = ticket_meta t" "ClaimedPod (ticket_status x) = ClaimedPod (ticket_status t)"
  shows "writes_from t (UpdateTicketStatus C x)"
  unfolding bases_def
proof (intro allI impI, elim conjE)
  fix w assume w: "good w" "version_read future w t"
  obtain r w' where run: "run_state (UpdateTicketStatus C x) w = (r, w')" by fastforce
  note adv = op_advances(5) [OF w(1) run]
  show "based_on view good future t w (snd (run_state (UpdateTicketStatus C x) w))"
  proof (cases r)
    case (Inl e)
    with based_on_same [OF adv] update_status_failure run show ?thesis by simp
  next
    case (Inr t')
    from update_status_result [OF run [unfolded Inr]] assms obtain s s' where s: "view w (ticket_key t) = Some s"
      "view w' = (view w)(ticket_key t \<mapsto> s')" "ticket_status s' = stored_status (ticket_status x)" by auto
    show ?thesis
      using adv s assms w(2) status_current [of w x s t' w'] run Inr
      by (auto simp: based_on_def version_read_def)
  qed
qed

lemma bases_update: "writes_from t (UpdateTicket C x)"
  unfolding bases_def
proof (intro allI impI, elim conjE)
  fix w assume w: "good w"
  obtain r w' where run: "run_state (UpdateTicket C x) w = (r, w')" by fastforce
  note adv = op_advances(4) [OF w run]
  show "based_on view good future t w (snd (run_state (UpdateTicket C x) w))"
  proof (cases r)
    case (Inl e)
    with based_on_same [OF adv] update_ticket_failure run show ?thesis by simp
  next
    case (Inr t')
    from update_ticket_result [OF run [unfolded Inr]] adv run show ?thesis
      by (auto simp: based_on_def split: if_splits)
  qed
qed

lemma bases_delete: "writes_from t (DeleteTicket C x)"
  unfolding bases_def
proof (intro allI impI, elim conjE)
  fix w assume w: "good w"
  obtain r w' where run: "run_state (DeleteTicket C x) w = (r, w')" by fastforce
  note adv = op_advances(6) [OF w run]
  show "based_on view good future t w (snd (run_state (DeleteTicket C x) w))"
  proof (cases r)
    case (Inl e)
    with based_on_same [OF adv] delete_failure run show ?thesis by simp
  next
    case (Inr u)
    from delete_result [OF run [unfolded Inr]] adv run show ?thesis
      by (auto simp: based_on_def split: if_splits)
  qed
qed

lemmas bases_ops = bases_reads bases_status bases_update bases_delete

lemma bases_updateTicketStatus: "same_claim t x \<Longrightarrow> writes_from t (updateTicketStatus C x p reason message)"
  unfolding updateTicketStatus_def
  by (intro bases_bind bases_ops) (auto simp: same_claim_def ticket_status_of_def Let_def intro!: bases_bind split: sum.split)

lemma bases_deleteGuardianPod: "writes_from t (deleteGuardianPod C x)"
  unfolding deleteGuardianPod_def
  by (auto intro!: bases_bind bases_ops split: option.split list.split sum.split)

lemma bases_createGuardianPod: "writes_from t (createGuardianPod C Q x)"
  unfolding createGuardianPod_def Let_def
  by (auto intro!: bases_ops split: sum.split)

lemma same_claim_times: "same_claim t (set_activation now x) = same_claim t x"
  "set_expiration x = Inr y \<Longrightarrow> same_claim t y = same_claim t x"
  by (auto simp: same_claim_def set_activation_def set_expiration_def split: option.splits if_splits sum.splits)

lemma bases_pending_ready:
  "same_claim t x \<Longrightarrow> writes_from t (handlePendingTicket n C Q x)"
  "same_claim t x \<Longrightarrow> writes_from t (handleReadyTicket n C Q x)"
proof (induction n arbitrary: x)
  case (Suc n)
  { case 1
    have "same_claim t y" if "set_expiration (set_activation now x) = Inr y" for now y
      using 1 same_claim_times that by blast
    then have "writes_from t (handleReadyTicket n C Q y)" "writes_from t (updateTicketStatus C y p a b)"
      "writes_from t (updateTicketStatus C (y\<lparr>ticket_status := (ticket_status y)\<lparr>Phase := q, GuardianPod := g, BoundNode := nd\<rparr>\<rparr>) p a b)"
      if "set_expiration (set_activation now x) = Inr y" for now y p a b q g nd
      using Suc.IH(2) that by (auto simp: same_claim_def intro!: bases_updateTicketStatus)
    moreover have "writes_from t (updateTicketStatus C (set_activation now x) p a b)" for now p a b
      using 1 by (intro bases_updateTicketStatus) (simp add: same_claim_times)
    ultimately show ?case
      using 1
      by (auto intro!: bases_bind bases_reads bases_createGuardianPod split: sum.split) }
  { case 2
    then show ?case
      using Suc.IH(1)
      by (auto simp: Let_def same_claim_def intro!: bases_bind bases_reads bases_updateTicketStatus
          split: option.split list.split sum.split) }
qed simp_all

lemma bases_claimed_expired:
  assumes "same_claim t x"
  shows "writes_from t (handleClaimedTicket C x)" "writes_from t (handleExpiredTicket C x)"
    "writes_from t (handleExpiration C x)"
proof -
  show "writes_from t (handleClaimedTicket C x)"
    using assms unfolding handleClaimedTicket_def
    by (auto simp: same_claim_def intro!: bases_bind bases_deleteGuardianPod bases_updateTicketStatus split: sum.split)
  have delete: "writes_from t (delete_expired C x)"
    unfolding delete_expired_def by (auto intro!: bases_bind bases_delete split: sum.split)
  show exp: "writes_from t (handleExpiredTicket C x)"
    using assms delete unfolding handleExpiredTicket_def Let_def
    by (auto intro!: bases_bind bases_reads bases_deleteGuardianPod bases_updateTicketStatus
        split: sum.split option.split)
  have "same_claim t (x\<lparr>ticket_status := (ticket_status x)\<lparr>Phase := TicketExpired\<rparr>\<rparr>)"
    using assms by (simp add: same_claim_def)
  with exp show "writes_from t (handleExpiration C x)"
    by (simp add: handleExpiration_def bases_updateTicketStatus)
qed

lemma bases_reconcile: "writes_from t (reconcile_ticket n C Q t)"
proof -
  have own: "same_claim t t" by (simp add: same_claim_def)
  have deletion: "writes_from t (Ticket_handleDeletion C t)"
    unfolding Ticket_handleDeletion_def
    by (auto intro!: bases_bind bases_deleteGuardianPod bases_update split: sum.split)
  have expired: "writes_from t (isTicketExpired C t)"
    unfolding isTicketExpired_def by (auto intro!: bases_bind bases_reads split: option.split)
  note handlers = bases_pending_ready [OF own] bases_claimed_expired [OF own] deletion expired
  show ?thesis
    unfolding reconcile_ticket_def some_outcome_def
    by (auto intro!: bases_bind handlers bases_update split: sum.split ticket_phase.split)
qed

end

section \<open>Pods and the controller at work at the same time\<close>

definition taken :: "'q ticket \<Rightarrow> bool" where
  "taken s \<longleftrightarrow> Phase (ticket_status s) = TicketClaimed \<or> Phase (ticket_status s) = TicketExpired"

definition pod_ref :: "'q pod \<Rightarrow> string" where
  "pod_ref pod = Namespace (pod_meta pod) @ ''/'' @ Name (pod_meta pod)"

text \<open>
  What other clients of the server may do between two steps: create and delete tickets and
  write them, but not take a claim back.
\<close>

definition outside ::
  "('w \<Rightarrow> object_key \<Rightarrow> 'q ticket option) \<Rightarrow> ('w \<Rightarrow> bool) \<Rightarrow> ('w \<Rightarrow> string \<Rightarrow> bool) \<Rightarrow> 'w \<Rightarrow> 'w \<Rightarrow> bool" where
  "outside view good future w w' \<longleftrightarrow>
     advances view good future w w' \<and>
     (\<forall>k s s'. view w k = Some s \<and> view w' k = Some s' \<and> taken s \<longrightarrow>
        taken s' \<and> ClaimedPod (ticket_status s') = ClaimedPod (ticket_status s))"

text \<open>
  The world, the tickets pods have looked up and not bound yet, the tickets the controller has
  read and not reconciled yet, and the claims that succeeded on tickets that are still stored.
\<close>

record ('q, 'w) race =
  world :: 'w
  looked :: "('q pod \<times> 'q ticket) list"
  fetched :: "'q ticket list"
  holders :: "(object_key \<times> string) list"

definition still_stored ::
  "('w \<Rightarrow> object_key \<Rightarrow> 'q ticket option) \<Rightarrow> 'w \<Rightarrow> (object_key \<times> string) list \<Rightarrow> (object_key \<times> string) list" where
  "still_stored view w hs = filter (\<lambda>(k, p). view w k \<noteq> None) hs"

inductive race_step ::
  "('q, 'w) client \<Rightarrow> 'q quantity_ops \<Rightarrow> ('w \<Rightarrow> object_key \<Rightarrow> 'q ticket option) \<Rightarrow> ('w \<Rightarrow> bool) \<Rightarrow> ('w \<Rightarrow> string \<Rightarrow> bool) \<Rightarrow>
   ('q, 'w) race \<Rightarrow> ('q, 'w) race \<Rightarrow> bool"
  for C Q view good future where
  look: "run_state (findAvailableTicket C pod) (world r) = (seen, w') \<Longrightarrow>
    race_step C Q view good future r
      (r\<lparr>world := w', looked := (case seen of Inr (Some t) \<Rightarrow> (pod, t) # looked r | _ \<Rightarrow> looked r)\<rparr>)"
| bind: "(pod, t) \<in> set (looked r) \<Longrightarrow> run_state (bindPodToTicket C pod t) (world r) = ((pod', err), w') \<Longrightarrow>
    race_step C Q view good future r
      (r\<lparr>world := w', looked := remove1 (pod, t) (looked r),
         holders := (if err = None then (ticket_key t, pod_ref pod) # holders r else holders r)\<rparr>)"
| fetch: "run_state (GetTicket C ns nm) (world r) = (got, w') \<Longrightarrow>
    race_step C Q view good future r
      (r\<lparr>world := w', fetched := (case got of Inr t \<Rightarrow> t # fetched r | Inl _ \<Rightarrow> fetched r)\<rparr>)"
| reconcile: "t \<in> set (fetched r) \<Longrightarrow> run_state (reconcile_ticket n C Q t) (world r) = (out, w') \<Longrightarrow>
    race_step C Q view good future r
      (r\<lparr>world := w', fetched := remove1 t (fetched r), holders := still_stored view w' (holders r)\<rparr>)"
| others: "outside view good future (world r) w' \<Longrightarrow>
    race_step C Q view good future r
      (r\<lparr>world := w', holders := still_stored view w' (holders r)\<rparr>)"

text \<open>The invariant: what was read is still exact if the version is, and the claims are in force.\<close>

definition as_read ::
  "('w \<Rightarrow> object_key \<Rightarrow> 'q ticket option) \<Rightarrow> ('w \<Rightarrow> string \<Rightarrow> bool) \<Rightarrow> 'w \<Rightarrow> 'q ticket \<Rightarrow> bool" where
  "as_read view future w t \<longleftrightarrow>
     version_read future w t \<and>
     (\<forall>s. view w (ticket_key t) = Some s \<and> ticket_version s = ticket_version t \<longrightarrow> s = t)"

definition in_force :: "('w \<Rightarrow> object_key \<Rightarrow> 'q ticket option) \<Rightarrow> 'w \<Rightarrow> (object_key \<times> string) list \<Rightarrow> bool" where
  "in_force view w hs \<longleftrightarrow> distinct (map fst hs) \<and>
     (\<forall>(k, p) \<in> set hs. \<exists>s. view w k = Some s \<and> taken s \<and> ClaimedPod (ticket_status s) = Some p)"

definition race_ok ::
  "('w \<Rightarrow> object_key \<Rightarrow> 'q ticket option) \<Rightarrow> ('w \<Rightarrow> bool) \<Rightarrow> ('w \<Rightarrow> string \<Rightarrow> bool) \<Rightarrow> ('q, 'w) race \<Rightarrow> bool" where
  "race_ok view good future r \<longleftrightarrow>
     good (world r) \<and> in_force view (world r) (holders r) \<and>
     (\<forall>(pod, t) \<in> set (looked r). claimable t \<and> as_read view future (world r) t) \<and>
     (\<forall>t \<in> set (fetched r). as_read view future (world r) t)"

lemma as_read_advances: "advances view good future w w' \<Longrightarrow> as_read view future w t \<Longrightarrow> as_read view future w' t"
  unfolding advances_def as_read_def version_read_def by metis

lemma race_reads_advance:
  assumes "advances view good future w w'"
  shows "\<forall>(pod, t) \<in> set L. claimable t \<and> as_read view future w t \<Longrightarrow>
      \<forall>(pod, t) \<in> set L. claimable t \<and> as_read view future w' t"
    "\<forall>t \<in> set F. as_read view future w t \<Longrightarrow> \<forall>t \<in> set F. as_read view future w' t"
  using as_read_advances [OF assms] by blast+

lemma in_force_step:
  assumes "in_force view w hs"
    and "\<And>k s s'. view w k = Some s \<Longrightarrow> view w' k = Some s' \<Longrightarrow> taken s \<Longrightarrow>
      taken s' \<and> ClaimedPod (ticket_status s') = ClaimedPod (ticket_status s)"
  shows "in_force view w' (still_stored view w' hs)"
proof -
  have "distinct (map fst (still_stored view w' hs))"
    using assms(1) unfolding in_force_def still_stored_def by (blast intro: distinct_map_filter)
  moreover have "\<exists>s'. view w' k = Some s' \<and> taken s' \<and> ClaimedPod (ticket_status s') = Some p"
    if "(k, p) \<in> set (still_stored view w' hs)" for k p
  proof -
    from that obtain s' where s': "(k, p) \<in> set hs" "view w' k = Some s'" by (auto simp: still_stored_def)
    with assms(1) obtain s where "view w k = Some s" "taken s" "ClaimedPod (ticket_status s) = Some p"
      by (auto simp: in_force_def)
    with assms(2) s'(2) show ?thesis by metis
  qed
  ultimately show ?thesis by (auto simp: in_force_def)
qed

lemma in_force_add:
  assumes "in_force view w hs" "k \<notin> fst ` set hs" "view w' = (view w)(k \<mapsto> s)"
    and "taken s" "ClaimedPod (ticket_status s) = Some p"
  shows "in_force view w' ((k, p) # hs)"
proof -
  have "view w' j = view w j" if "(j, q) \<in> set hs" for j q
    using that assms(2,3) by force
  with assms show ?thesis by (auto simp: in_force_def)
qed

lemma in_force_same: "in_force view w hs \<Longrightarrow> view w' = view w \<Longrightarrow> in_force view w' hs"
  by (simp add: in_force_def)

context versioned_server
begin

lemma findAvailableTicket_advances:
  assumes "good w" "run_state (findAvailableTicket C pod) w = (r, u)"
  shows "advances view good future w u"
proof -
  let ?adv = "advances view good future w" and ?req = "gm_at (Annotations (pod_meta pod)) TicketRequestAnnotation"
  have refl: "?adv w" using assms(1) by (simp add: advances_def)
  have "?adv v" if "run_state (FindTicketsByRequest C pod ?req) w = (f, v)" for f v
  proof (cases C pod ?req rule: FindTicketsByRequest_cases)
    case (invalid e)
    with that refl show ?thesis by auto
  next
    case (specific nm)
    obtain g x where g: "run_state (GetTicket C (Namespace (pod_meta pod)) nm) w = (g, x)" by fastforce
    with that specific have "v = x" by (cases g) (auto simp: specific_list_def getSpecificTicket_def split: if_splits)
    with op_advances(2) [OF assms(1) g] show ?thesis by simp
  next
    case (selector s)
    with that refl op_advances(1) [OF assms(1)] show ?thesis
      by (auto simp: findTicketsBySelector_def Let_def split: if_splits)
  next
    case (group g)
    let ?opts = "\<lparr>InNamespace = Some (Namespace (pod_meta pod)), MatchingLabels = [], MatchingLabelsSelector = None\<rparr>"
    obtain l x where l: "run_state (ListTickets C ?opts) w = (l, x)" by fastforce
    with that group have "v = x" by (cases l) (auto simp: findTicketsByGroup_def)
    with op_advances(1) [OF assms(1) l] show ?thesis by simp
  qed
  then show ?thesis
    using assms refl
    by (auto simp: findAvailableTicket_def FindAvailableTicket_def Let_def split: if_splits prod.splits sum.splits)
qed

lemma stored_as_read:
  assumes "good w" "view w (ticket_key t) = Some t"
  shows "as_read view future w t"
  using version_given [OF assms] assms(2) by (simp add: as_read_def version_read_def)

lemma bindPodToTicket_step:
  assumes run: "run_state (bindPodToTicket C pod t) w = ((pod', err), w')" and "good w" "claimable t"
    and read: "as_read view future w t"
  shows "advances view good future w w'"
    "err \<noteq> None \<Longrightarrow> view w' = view w"
    "err = None \<Longrightarrow> view w (ticket_key t) = Some t \<and> (\<exists>s. claims pod t s \<and> view w' = (view w)(ticket_key t \<mapsto> s))"
proof -
  obtain node where node: "BoundNode (ticket_status t) = Some node" using assms(3) by (auto simp: claimable_def)
  obtain now v where now: "run_state (TimeNow C) w = (now, v)" by fastforce
  let ?t = "claimed_ticket pod t now"
  obtain q x where upd: "run_state (UpdateTicketStatus C ?t) v = (q, x)" by fastforce
  have out: "w' = x" "err = None \<longleftrightarrow> \<not> isl q"
    using run node now upd by (cases q; simp add: bindPodToTicket_def; blast)+
  note step = op_advances(3) [OF assms(2) now] and v = server_frames(1) [OF now]
  have key: "ticket_meta ?t = ticket_meta t" by (simp add: claimed_ticket_def)
  show "advances view good future w w'"
    using advances_trans [OF step op_advances(5) [OF advances_good [OF step] upd]] out by simp
  show "err \<noteq> None \<Longrightarrow> view w' = view w"
    using out v upd update_status_failure [of ?t v "projl q" x] by (cases q) auto
  assume "err = None"
  then obtain t' where q: "q = Inr t'" using out by (cases q) auto
  from update_status_result [OF upd [unfolded q]] obtain s s' where s: "view v (ticket_key t) = Some s"
    "view x = (view v)(ticket_key t \<mapsto> s')" "ticket_status s' = stored_status (ticket_status ?t)"
    "ticket_spec s' = ticket_spec s" "\<exists>v. ticket_meta s' = (ticket_meta s)\<lparr>ResourceVersion := v\<rparr>" unfolding key by blast
  have "ticket_version t = ticket_version s"
    using status_current [of v ?t s t' x] s(1) upd q key read by (auto simp: as_read_def version_read_def)
  with read s(1) v have "s = t" by (simp add: as_read_def)
  with s have "claims pod t s'" by (auto simp: claims_def claimed_ticket_def)
  with s v out(1) \<open>s = t\<close> show "view w (ticket_key t) = Some t \<and> (\<exists>s. claims pod t s \<and> view w' = (view w)(ticket_key t \<mapsto> s))"
    by auto
qed

lemma reconcile_step:
  assumes run: "run_state (reconcile_ticket n C Q t) w = (out, w')" and "good w" and read: "as_read view future w t"
  shows "outside view good future w w'"
proof -
  have based: "based_on view good future t w w'"
    using bases_reconcile [of t n Q] assms by (auto simp: bases_def as_read_def dest!: spec [of _ w])
  have "taken s' \<and> ClaimedPod (ticket_status s') = ClaimedPod (ticket_status s)"
    if s: "view w k = Some s" "view w' k = Some s'" "taken s" for k s s'
  proof (cases "ticket_status s' = ticket_status s")
    case True
    with s(3) show ?thesis by (simp add: taken_def)
  next
    case False
    with based s(1,2) have k: "k = ticket_key t" "ticket_version s = ticket_version t"
      "ClaimedPod (ticket_status s') = ClaimedPod (ticket_status t)" unfolding based_on_def by fastforce+
    with read s(1) have "s = t" by (simp add: as_read_def)
    moreover have "phase_step (Phase (ticket_status t)) (Phase (ticket_status s'))"
      using reconcile_ticket_touches [OF run] s k(1) False by (auto simp: touches_def)
    then have "Phase (ticket_status t) \<in> {TicketClaimed, TicketExpired} \<Longrightarrow> taken s'"
      using phase_steps_from_claimed phase_steps_from_expired by (auto simp: taken_def)
    ultimately show ?thesis using s(3) k(3) by (auto simp: taken_def)
  qed
  with based show ?thesis by (auto simp: outside_def based_on_def)
qed

lemma race_step_ok:
  assumes "race_step C Q view good future r r'" "race_ok view good future r"
  shows "race_ok view good future r'"
  using assms
proof (induction rule: race_step.induct)
  case (look pod r seen w')
  let ?L = "case seen of Inr (Some t) \<Rightarrow> (pod, t) # looked r | _ \<Rightarrow> looked r"
  from look.prems have ok: "good (world r)" by (simp add: race_ok_def)
  note adv = findAvailableTicket_advances [OF ok look.hyps]
  have "as_read view future w' t \<and> claimable t" if "seen = Inr (Some t)" for t
    using findAvailableTicket_run(2) [OF look.hyps that] stored_as_read [OF ok] as_read_advances [OF adv] by blast
  then show ?case
    using look.prems race_reads_advance(1) [OF adv, of "looked r"] race_reads_advance(2) [OF adv, of "fetched r"] advances_good [OF adv]
      in_force_same [of view "world r" "holders r" w'] findAvailableTicket_run(1) [OF look.hyps]
    by (auto simp: race_ok_def split: sum.split option.split)
next
  case (bind pod t r pod' err w')
  from bind have ok: "good (world r)" "claimable t" "as_read view future (world r) t" "in_force view (world r) (holders r)"
    by (auto simp: race_ok_def)
  note step = bindPodToTicket_step [OF bind.hyps(2) ok(1-3)]
  have "in_force view w' (if err = None then (ticket_key t, pod_ref pod) # holders r else holders r)"
  proof (cases "err = None")
    case True
    with step(3) obtain s where s: "view (world r) (ticket_key t) = Some t" "claims pod t s"
      "view w' = (view (world r))(ticket_key t \<mapsto> s)" by blast
    have "\<not> taken t" using ok(2) by (simp add: taken_def claimable_def)
    with ok(4) s(1) have "ticket_key t \<notin> fst ` set (holders r)" by (fastforce simp: in_force_def)
    from in_force_add [OF ok(4) this s(3)] s(2) True show ?thesis
      by (simp add: taken_def claims_def pod_ref_def)
  next
    case False
    with step(2) ok(4) in_force_same show ?thesis by auto
  qed
  with bind.prems race_reads_advance(1) [OF step(1), of "looked r"] race_reads_advance(2) [OF step(1), of "fetched r"] advances_good [OF step(1)] show ?case
    by (auto simp: race_ok_def dest: set_remove1_subset [THEN subsetD])
next
  case (fetch ns nm r got w')
  from fetch.prems have ok: "good (world r)" by (simp add: race_ok_def)
  note adv = op_advances(2) [OF ok fetch.hyps]
  have "as_read view future w' t" if "got = Inr t" for t
  proof -
    from get_ticket_result fetch.hyps that have v: "view (world r) (Key ns nm) = Some t" by blast
    with view_key [OF v] stored_as_read [OF ok] as_read_advances [OF adv] show ?thesis by simp
  qed
  then show ?case
    using fetch.prems race_reads_advance(1) [OF adv, of "looked r"] race_reads_advance(2) [OF adv, of "fetched r"] advances_good [OF adv]
      in_force_same [of view "world r" "holders r" w'] server_frames(3) [OF fetch.hyps]
    by (auto simp: race_ok_def split: sum.split)
next
  case (reconcile t r n out w')
  from reconcile have ok: "good (world r)" "as_read view future (world r) t" by (auto simp: race_ok_def)
  note step = reconcile_step [OF reconcile.hyps(2) ok]
  then have adv: "advances view good future (world r) w'" by (simp add: outside_def)
  have "in_force view w' (still_stored view w' (holders r))"
    using reconcile.prems step by (intro in_force_step) (auto simp: race_ok_def outside_def)
  with reconcile.prems race_reads_advance(1) [OF adv, of "looked r"] race_reads_advance(2) [OF adv, of "fetched r"] advances_good [OF adv] show ?case
    by (auto simp: race_ok_def dest: set_remove1_subset [THEN subsetD])
next
  case (others r w')
  then have adv: "advances view good future (world r) w'" by (simp add: outside_def)
  have "in_force view w' (still_stored view w' (holders r))"
    using others by (intro in_force_step) (auto simp: race_ok_def outside_def)
  with others.prems race_reads_advance(1) [OF adv, of "looked r"] race_reads_advance(2) [OF adv, of "fetched r"] advances_good [OF adv] show ?case
    by (auto simp: race_ok_def)
qed

lemma race_invariant:
  "(race_step C Q view good future)\<^sup>*\<^sup>* r r' \<Longrightarrow> race_ok view good future r \<Longrightarrow> race_ok view good future r'"
  by (induction rule: rtranclp_induct) (auto intro: race_step_ok)

end

text \<open>An admission is such a race, of a look and a bind with nothing in between.\<close>

lemma Pod_Default_race:
  assumes "run_state (Pod_Default C pod) (world r) = ((pod', err), w')"
  shows "\<exists>r'. (race_step C Q view good future)\<^sup>*\<^sup>* r r' \<and> world r' = w' \<and> looked r' = looked r \<and> fetched r' = fetched r"
proof (cases "isGuardianPod pod \<or> \<not> requestsTicketBinding pod")
  case True
  with assms show ?thesis by (auto simp: Pod_Default_none intro!: exI [of _ r])
next
  case False
  obtain seen u where find: "run_state (findAvailableTicket C pod) (world r) = (seen, u)" by fastforce
  note step = race_step.look [OF find, of Q view good future]
  show ?thesis
  proof (cases "\<exists>t. seen = Inr (Some t)")
    case True
    then obtain t where t: "seen = Inr (Some t)" by blast
    let ?r = "r\<lparr>world := u, looked := (pod, t) # looked r\<rparr>"
    obtain q e x where bind: "run_state (bindPodToTicket C pod t) u = ((q, e), x)" by (metis surj_pair)
    have "x = w'" using assms False find t bind by (simp add: Pod_Default_def)
    let ?r' = "?r\<lparr>world := x, looked := remove1 (pod, t) (looked ?r),
        holders := (if e = None then (ticket_key t, pod_ref pod) # holders ?r else holders ?r)\<rparr>"
    have "race_step C Q view good future r ?r" using step t by simp
    moreover have "race_step C Q view good future ?r ?r'" using bind by (intro race_step.bind) auto
    ultimately have "(race_step C Q view good future)\<^sup>*\<^sup>* r ?r'" by (rule converse_rtranclp_into_rtranclp [OF _ r_into_rtranclp])
    with \<open>x = w'\<close> show ?thesis by (intro exI [of _ ?r']) simp
  next
    case none: False
    then have "u = w'" "(case seen of Inr (Some t) \<Rightarrow> (pod, t) # looked r | _ \<Rightarrow> looked r) = looked r"
      using assms False find by (cases seen; auto simp: Pod_Default_def split: option.splits)+
    with r_into_rtranclp [of "race_step C Q view good future", OF step] show ?thesis by (intro exI conjI) (assumption, auto)
  qed
qed

section \<open>Properties\<close>

text \<open>The looks and binds of the witness, the last look being bound first.\<close>

definition race_look :: "unit pod \<Rightarrow> (unit, unit mem) race \<Rightarrow> (unit, unit mem) race" where
  "race_look pod r = (case run_state (findAvailableTicket mem_client pod) (world r) of (seen, w') \<Rightarrow>
     r\<lparr>world := w', looked := (case seen of Inr (Some t) \<Rightarrow> (pod, t) # looked r | _ \<Rightarrow> looked r)\<rparr>)"

definition race_bind :: "(unit, unit mem) race \<Rightarrow> (unit, unit mem) race" where
  "race_bind r = (case looked r of [] \<Rightarrow> r | (pod, t) # L \<Rightarrow>
     (case run_state (bindPodToTicket mem_client pod t) (world r) of ((pod', err), w') \<Rightarrow>
        r\<lparr>world := w', looked := L, holders := (if err = None then (ticket_key t, pod_ref pod) # holders r else holders r)\<rparr>))"

definition race_start :: "(unit, unit mem) race" where
  "race_start = \<lparr>world = (pool [(''a'', ''web'', ready_status ''n1'')])\<lparr>m_tickets :=
       map (\<lambda>t. t\<lparr>ticket_meta := (ticket_meta t)\<lparr>ResourceVersion := show_nat 0\<rparr>\<rparr>)
         (m_tickets (pool [(''a'', ''web'', ready_status ''n1'')]))\<rparr>,
     looked = [], fetched = [], holders = []\<rparr>"

definition second_pod :: "unit pod" where
  "second_pod = (requesting ''group:web'')\<lparr>pod_meta := (pod_meta (requesting ''group:web''))\<lparr>Name := ''app2''\<rparr>\<rparr>"

abbreviation "mem_race \<equiv> race_step mem_client sample_quantities ticket_view mem_good mem_future"

lemma race_look_step: "mem_race r (race_look pod r)"
  by (auto simp: race_look_def split: prod.split intro: race_step.look)

lemma race_bind_step: "mem_race\<^sup>*\<^sup>* r (race_bind r)"
proof (cases "looked r")
  case Nil
  then show ?thesis by (simp add: race_bind_def)
next
  case (Cons a L)
  obtain pod t where a: "a = (pod, t)" by (cases a)
  obtain pod' err w' where run: "run_state (bindPodToTicket mem_client pod t) (world r) = ((pod', err), w')"
    by (metis surj_pair)
  have "(pod, t) \<in> set (looked r)" "remove1 (pod, t) (looked r) = L" using Cons a by simp_all
  with race_step.bind [OF this(1) run, of sample_quantities ticket_view mem_good mem_future] Cons a run
  show ?thesis by (auto simp: race_bind_def)
qed

text \<open>
  C4. A ticket is never claimed twice. Pods look tickets up and bind them, the controller reads
  tickets and reconciles them, and other clients write to the server, in any order and on
  reads of any age: of the bindings that reported success on tickets still stored no two are of
  one ticket, and each such ticket is claimed, or has expired, with that pod on record.
\<close>

theorem claims_are_exclusive:
  assumes "versioned_server C view pview good future" and "good w"
    and "(race_step C Q view good future)\<^sup>*\<^sup>* \<lparr>world = w, looked = [], fetched = [], holders = []\<rparr> r"
  shows "distinct (map fst (holders r)) \<and>
    (\<forall>k p. (k, p) \<in> set (holders r) \<longrightarrow>
       (\<exists>s. view (world r) k = Some s \<and> Phase (ticket_status s) \<in> {TicketClaimed, TicketExpired} \<and>
          ClaimedPod (ticket_status s) = Some p))"
proof -
  have "race_ok view good future \<lparr>world = w, looked = [], fetched = [], holders = []\<rparr>"
    using assms(2) by (simp add: race_ok_def in_force_def)
  from versioned_server.race_invariant [OF assms(1,3) this] show ?thesis
    by (auto simp: race_ok_def in_force_def taken_def)
qed

text \<open>Two pods look the same ticket up; the second to bind loses.\<close>

theorem claims_are_exclusive_witness:
  "let r = race_bind (race_bind (race_look second_pod (race_look (requesting ''group:web'') race_start)))
   in map fst (holders r) = [Key ''team'' ''a''] \<and>
     (\<exists>s. ticket_view (world r) (Key ''team'' ''a'') = Some s \<and> ClaimedPod (ticket_status s) = Some ''team/app2'')"
proof -
  let ?r = "race_bind (race_bind (race_look second_pod (race_look (requesting ''group:web'') race_start)))"
  have "mem_race\<^sup>*\<^sup>* race_start ?r"
    using race_look_step race_bind_step by (meson rtranclp.rtrancl_into_rtrancl rtranclp.rtrancl_refl rtranclp_trans)
  moreover have "race_start = \<lparr>world = world race_start, looked = [], fetched = [], holders = []\<rparr>"
    by (simp add: race_start_def)
  ultimately have steps: "mem_race\<^sup>*\<^sup>* \<lparr>world = world race_start, looked = [], fetched = [], holders = []\<rparr> ?r" by metis
  have "list_all (\<lambda>t. ticket_version t = show_nat 0) (m_tickets (world race_start))" "m_next (world race_start) = 1"
    by code_simp+
  then have good: "mem_good (world race_start)"
    by (auto simp: mem_good_def ticket_view_def store_find_def find_Some_iff list_all_length)
  have "holders ?r = [(Key ''team'' ''a'', ''team/app2'')]" by code_simp
  with claims_are_exclusive [OF memv.versioned_server_axioms, OF good steps] show ?thesis by auto
qed

text \<open>
  C6. A claim puts the pod in the place of its guardian. When \<open>Default\<close> has claimed a ticket for a
  pod and the controller then reconciles that ticket without error and before it expires,
  the pod is assigned to the ticket's node, the ticket is claimed by the pod and keeps that node but has no
  guardian any more, and the guardian pod it named is gone or marked for deletion.
\<close>

theorem a_claim_replaces_the_guardian:
  assumes "ticket_server C view pview"
    and "run_state (Pod_Default C pod) w = ((pod', err), w1)"
    and "view w k = Some t" "view w1 k = Some s" "s \<noteq> t"
    and "run_state (reconcile_ticket n C Q s) w1 = (Some (res, None), w2)" and "live C s"
    and "\<not> expired_at s (fst (run_state (TimeNow C) w1))"
  shows "\<exists>node s'. BoundNode (ticket_status t) = Some node \<and> PodNodeName (pod_spec pod') = node \<and>
     view w2 k = Some s' \<and> Phase (ticket_status s') = TicketClaimed \<and> ClaimedPod (ticket_status s') = Some (pod_ref pod) \<and>
     BoundNode (ticket_status s') = Some node \<and> GuardianPod (ticket_status s') = None \<and>
     (\<forall>ref. GuardianPod (ticket_status t) = Some ref \<longrightarrow>
        (\<exists>ns nm. go_split CHR ''/'' ref = [ns, nm] \<and> (\<forall>j. j \<noteq> Key ns nm \<longrightarrow> pview w2 j = pview w j) \<and>
           (\<forall>p. pview w2 (Key ns nm) = Some p \<longrightarrow> DeletionTimestamp (pod_meta p) \<noteq> None)))"
proof -
  from ticket_server.Pod_Default_effect(2,3) [OF assms(1,2)] assms(3-5) obtain x node y where
    x: "view w (ticket_key x) = Some x" "BoundNode (ticket_status x) = Some node" "pod' = bound_pod pod x node"
      "claims pod x y" "view w1 = (view w)(ticket_key x \<mapsto> y)" and pv: "pview w1 = pview w"
    by (metis option.inject)
  with assms(3-5) have t: "k = ticket_key x" "x = t" "y = s" by (auto split: if_splits)
  with x have key: "ticket_key s = k" and s: "Phase (ticket_status s) = TicketClaimed"
    "ClaimedPod (ticket_status s) = Some (pod_ref pod)" "BoundNode (ticket_status s) = Some node"
    "GuardianPod (ticket_status s) = GuardianPod (ticket_status t)"
    by (auto simp: claims_def pod_ref_def meta_key_def)
  note ok = ticket_server.reconcile_claimed_ok [OF assms(1,6,7) s(1) assms(8)]
  from ok(1) s(2,3) key obtain s' where s': "view w2 k = Some s'" "Phase (ticket_status s') = TicketClaimed"
    "GuardianPod (ticket_status s') = None" "BoundNode (ticket_status s') = Some node"
    "ClaimedPod (ticket_status s') = Some (pod_ref pod)" by auto
  have node: "BoundNode (ticket_status t) = Some node" "PodNodeName (pod_spec pod') = node" using x t by auto
  have "\<exists>ns nm. go_split CHR ''/'' ref = [ns, nm] \<and> (\<forall>j. j \<noteq> Key ns nm \<longrightarrow> pview w2 j = pview w j) \<and>
      (\<forall>p. pview w2 (Key ns nm) = Some p \<longrightarrow> DeletionTimestamp (pod_meta p) \<noteq> None)"
    if "GuardianPod (ticket_status t) = Some ref" for ref
    using ok(2) s(4) pv that by simp
  with node s' show ?thesis by blast
qed

theorem a_claim_replaces_the_guardian_witness:
  "\<exists>s'. ticket_view (snd (run_state (reconcile_ticket 3 mem_client sample_quantities
        (the (ticket_view (snd (run_state (Pod_Default mem_client (requesting ''web-0''))
            (ticket_world ((ready_status ''n1'')\<lparr>GuardianPod := Some ''team/korder-guardian-web-0''\<rparr>) [''korder-guardian-web-0''])))
          (Key ''team'' ''web-0''))))
      (snd (run_state (Pod_Default mem_client (requesting ''web-0''))
        (ticket_world ((ready_status ''n1'')\<lparr>GuardianPod := Some ''team/korder-guardian-web-0''\<rparr>) [''korder-guardian-web-0'']))))) (Key ''team'' ''web-0'') = Some s' \<and>
     ClaimedPod (ticket_status s') = Some ''team/app'' \<and> GuardianPod (ticket_status s') = None"
proof -
  let ?k = "Key ''team'' ''web-0''" and ?p = "requesting ''web-0''"
  let ?w = "ticket_world ((ready_status ''n1'')\<lparr>GuardianPod := Some ''team/korder-guardian-web-0''\<rparr>) [''korder-guardian-web-0'']"
  let ?d = "run_state (Pod_Default mem_client ?p) ?w"
  let ?t = "the (ticket_view ?w ?k)" and ?s = "the (ticket_view (snd ?d) ?k)"
  let ?r = "run_state (reconcile_ticket 3 mem_client sample_quantities ?s) (snd ?d)"
  have run: "?d = ((fst (fst ?d), snd (fst ?d)), snd ?d)" by simp
  have there: "ticket_view ?w ?k \<noteq> None" "ticket_view (snd ?d) ?k \<noteq> None"
    and ph: "Phase (ticket_status ?t) = TicketReady" "Phase (ticket_status ?s) = TicketClaimed"
    and out: "fst ?r = Some (no_result, None)" and live: "live mem_client ?s"
    and exp: "ExpirationTime (ticket_status ?s) = None"
    by code_simp+
  from there have stored: "ticket_view ?w ?k = Some ?t" "ticket_view (snd ?d) ?k = Some ?s" by auto
  from ph have "?s \<noteq> ?t" by auto
  moreover have "\<not> expired_at ?s (fst (run_state (TimeNow mem_client) (snd ?d)))" using exp by (simp add: expired_at_def)
  moreover have ref: "pod_ref ?p = ''team/app''" by code_simp
  ultimately show ?thesis
    using a_claim_replaces_the_guardian [OF memp.ticket_server_axioms, OF run stored _ run_eq_fst [OF out] live]
    unfolding ref by blast
qed

end
