(* ===== verification/QuotaController.thy ===== *)
theory QuotaController
  imports MemApi GoFloat
begin

text \<open>
  \<open>internal/controller/quota_controller.go\<close>: the reconciler that measures what a quota's
  scope uses, scales the limits by the time window and records both, and \<open>ValidateQuota\<close>,
  the admission check. The code comes first, then what a quota's scope contains as a
  predicate on objects, the exactness of the measured usage, the admission decision and the
  status. The parameter \<open>ovf\<close> is the \<open>int64\<close> that an out-of-range \<open>float64\<close> converts to.
\<close>

section \<open>The code\<close>

definition QuotaFinalizerName :: string where "QuotaFinalizerName = ''korder.dev/quota-finalizer''"

subsection \<open>Objects in scope\<close>

type_synonym 'q scoped = "'q order list \<times> object_meta list \<times> object_meta list \<times> 'q ticket list"

text \<open>The four lists of one call with the same options.\<close>

definition list_scoped :: "('q, 'w) client \<Rightarrow> list_options \<Rightarrow> ('w, go_error + 'q scoped) state" where
  "list_scoped C opts =
     on_ok (ListOrders C opts) (\<lambda>orders.
     on_ok (ListDaemonOrders C opts) (\<lambda>daemonOrders.
     on_ok (ListCronOrders C opts) (\<lambda>cronOrders.
     on_ok (ListTickets C opts) (\<lambda>tickets.
       State_Monad.return (Inr (orders, daemonOrders, cronOrders, tickets))))))"

definition in_namespace :: "string \<Rightarrow> list_options" where
  "in_namespace ns = everything\<lparr>InNamespace := Some ns\<rparr>"

definition with_selector :: "selector \<Rightarrow> list_options" where
  "with_selector sel = everything\<lparr>MatchingLabelsSelector := Some sel\<rparr>"

text \<open>The loop over namespaces, which appends what it finds in each.\<close>

primrec list_namespaces :: "('q, 'w) client \<Rightarrow> string list \<Rightarrow> 'q scoped \<Rightarrow> ('w, go_error + 'q scoped) state" where
  "list_namespaces C [] acc = State_Monad.return (Inr acc)"
| "list_namespaces C (ns # nss) acc =
     on_ok (list_scoped C (in_namespace ns)) (\<lambda>(os, ds, cs, ts).
       case acc of (os0, ds0, cs0, ts0) \<Rightarrow>
         list_namespaces C nss (os0 @ os, ds0 @ ds, cs0 @ cs, ts0 @ ts))"

definition getNamespacesMatchingSelector ::
  "('q, 'w) client \<Rightarrow> label_selector option \<Rightarrow> ('w, go_error + namespace list) state" where
  "getNamespacesMatchingSelector C selector =
     (case selector of
        None \<Rightarrow> State_Monad.return (Inr [])
      | Some sel \<Rightarrow>
          (case LabelSelectorAsSelector C sel of
             Inl e \<Rightarrow> State_Monad.return (Inl e)
           | Inr labelSelector \<Rightarrow> ListNamespaces C (with_selector labelSelector)))"

definition getResourcesInScope :: "('q, 'w) client \<Rightarrow> 'q quota \<Rightarrow> ('w, go_error + 'q scoped) state" where
  "getResourcesInScope C quota =
     (let scope = Scope (quota_spec quota) in
      case ScopeType scope of
        ClusterScope \<Rightarrow> list_scoped C everything
      | NamespaceListScope \<Rightarrow> list_namespaces C (Namespaces scope) ([], [], [], [])
      | NamespaceSelectorScope \<Rightarrow>
          on_ok (getNamespacesMatchingSelector C (NamespaceSelector scope)) (\<lambda>namespaces.
            list_namespaces C (map (\<lambda>n. Name (namespace_meta n)) namespaces) ([], [], [], []))
      | ObjectSelectorScope \<Rightarrow>
          (case ObjectSelector scope of
             None \<Rightarrow> State_Monad.return (Inr ([], [], [], []))
           | Some sel \<Rightarrow>
               (case LabelSelectorAsSelector C sel of
                  Inl e \<Rightarrow> State_Monad.return (Inl e)
                | Inr selector \<Rightarrow> list_scoped C (with_selector selector)))
      | _ \<Rightarrow> State_Monad.return (Inr ([], [], [], [])))"

subsection \<open>Usage\<close>

text \<open>An entry \<open>usage[name] = *resource.NewQuantity(int64(n), resource.DecimalSI)\<close> when \<open>n > 0\<close>.\<close>

definition put_count :: "'q quantity_ops \<Rightarrow> string \<Rightarrow> nat \<Rightarrow> 'q resource_list \<Rightarrow> 'q resource_list" where
  "put_count Q name n usage = (if n > 0 then gm_put name (q_new Q (of_nat n) DecimalSI) usage else usage)"

text \<open>The sum of one resource of the requests of the tickets.\<close>

definition add_ticket_request :: "'q quantity_ops \<Rightarrow> string \<Rightarrow> 'q ticket \<Rightarrow> 'q \<Rightarrow> 'q" where
  "add_ticket_request Q name ticket sofar =
     (case Resources (ticket_spec ticket) of
        None \<Rightarrow> sofar
      | Some res \<Rightarrow> (case gm_get (Requests res) name of None \<Rightarrow> sofar | Some q \<Rightarrow> q_add Q sofar q))"

definition total_request :: "'q quantity_ops \<Rightarrow> string \<Rightarrow> 'q ticket list \<Rightarrow> 'q" where
  "total_request Q name tickets = fold (add_ticket_request Q name) tickets (q_zero Q)"

definition put_total :: "'q quantity_ops \<Rightarrow> string \<Rightarrow> 'q \<Rightarrow> 'q resource_list \<Rightarrow> 'q resource_list" where
  "put_total Q name q usage = (if q_is_zero Q q then usage else gm_put name q usage)"

definition usage_of :: "'q quantity_ops \<Rightarrow> 'q scoped \<Rightarrow> 'q resource_list" where
  "usage_of Q scoped =
     (case scoped of (orders, daemonOrders, cronOrders, tickets) \<Rightarrow>
        let usage = gm_make;
            usage = put_count Q ''orders'' (length orders + length daemonOrders + length cronOrders) usage;
            usage = put_count Q ''orders.regular'' (length orders) usage;
            usage = put_count Q ''orders.daemon'' (length daemonOrders) usage;
            usage = put_count Q ''orders.cron'' (length cronOrders) usage;
            usage = put_count Q ''tickets'' (length tickets) usage;
            usage = put_total Q ''reserved.cpu'' (total_request Q ''cpu'' tickets) usage
        in put_total Q ''reserved.memory'' (total_request Q ''memory'' tickets) usage)"

definition calculateResourceUsage ::
  "('q, 'w) client \<Rightarrow> 'q quantity_ops \<Rightarrow> 'q quota \<Rightarrow> ('w, go_error + 'q resource_list) state" where
  "calculateResourceUsage C Q quota =
     on_ok (getResourcesInScope C quota) (\<lambda>scoped. State_Monad.return (Inr (usage_of Q scoped)))"

subsection \<open>Limits\<close>

definition getActiveTimeWindow :: "time_window list \<Rightarrow> time_window option" where
  "getActiveTimeWindow timeWindows = (case timeWindows of w # _ \<Rightarrow> Some w | [] \<Rightarrow> None)"

definition scale_limit :: "int64 \<Rightarrow> 'q quantity_ops \<Rightarrow> go_float \<Rightarrow> 'q \<Rightarrow> 'q" where
  "scale_limit ovf Q multiplier quantity =
     (if sint (q_value Q quantity) > 0
      then q_new Q (scale_int ovf (sint (q_value Q quantity)) multiplier) (q_format Q quantity)
      else quantity)"

text \<open>The multiplier the code applies, with the window it belongs to.\<close>

definition active_multiplier :: "'q quota \<Rightarrow> (time_window \<times> go_float) option" where
  "active_multiplier quota =
     (case getActiveTimeWindow (TimeWindows (quota_spec quota)) of
        None \<Rightarrow> None
      | Some w \<Rightarrow>
          (case ParseFloat (Multiplier w) of
             None \<Rightarrow> None
           | Some f \<Rightarrow> if is_positive f then Some (w, f) else None))"

text \<open>The limits, and the quota, whose status the code changes on the way.\<close>

definition calculateCurrentLimits ::
  "int64 \<Rightarrow> 'q quantity_ops \<Rightarrow> 'q quota \<Rightarrow> 'q resource_list \<times> 'q quota" where
  "calculateCurrentLimits ovf Q quota =
     (case active_multiplier quota of
        None \<Rightarrow> (Hard (quota_spec quota), quota)
      | Some (w, f) \<Rightarrow>
          (map_option (map (\<lambda>(r, q). (r, scale_limit ovf Q f q))) (Hard (quota_spec quota)),
           quota\<lparr>quota_status := (quota_status quota)\<lparr>ActiveTimeWindow := Some (WindowName w)\<rparr>\<rparr>))"

subsection \<open>Status\<close>

definition reason_condition :: "string \<Rightarrow> quota_condition_type \<times> condition_status" where
  "reason_condition reason =
     (if reason = ''Failed'' then (QuotaReady, ConditionFalse)
      else if reason = ''Exceeded'' then (QuotaExceeded, ConditionTrue)
      else (QuotaEnforced, ConditionTrue))"

definition quota_status_of :: "'q quota \<Rightarrow> time \<Rightarrow> string \<Rightarrow> string \<Rightarrow> 'q quota_status" where
  "quota_status_of quota now reason message =
     (case reason_condition reason of (ty, st) \<Rightarrow>
        (quota_status quota)
          \<lparr>QuotaObservedGeneration := Some (Generation (quota_meta quota)),
           QuotaConditions := upsert_condition ty st now reason message (QuotaConditions (quota_status quota))\<rparr>)"

definition updateQuotaStatus ::
  "('q, 'w) client \<Rightarrow> 'q quota \<Rightarrow> string \<Rightarrow> string \<Rightarrow> ('w, outcome) state" where
  "updateQuotaStatus C quota reason message = do {
     now \<leftarrow> TimeNow C;
     u \<leftarrow> UpdateQuotaStatus C (quota\<lparr>quota_status := quota_status_of quota now reason message\<rparr>);
     case u of
       Inl e \<Rightarrow> State_Monad.return (no_result, Some e)
     | Inr _ \<Rightarrow> State_Monad.return (no_result\<lparr>RequeueAfter := 5 * 60 * time_Second\<rparr>, None)
   }"

definition Quota_handleDeletion :: "('q, 'w) client \<Rightarrow> 'q quota \<Rightarrow> ('w, outcome) state" where
  "Quota_handleDeletion C quota = do {
     u \<leftarrow> UpdateQuota C (quota\<lparr>quota_meta := RemoveFinalizer C (quota_meta quota) QuotaFinalizerName\<rparr>);
     case u of
       Inl e \<Rightarrow> State_Monad.return (no_result, Some e)
     | Inr _ \<Rightarrow> State_Monad.return (no_result, None)
   }"

text \<open>\<open>Reconcile\<close> after the fetch.\<close>

definition measured_quota :: "int64 \<Rightarrow> 'q quantity_ops \<Rightarrow> 'q quota \<Rightarrow> 'q resource_list \<Rightarrow> 'q quota" where
  "measured_quota ovf Q quota usage =
     (case calculateCurrentLimits ovf Q quota of (limits, quota') \<Rightarrow>
        quota'\<lparr>quota_status := (quota_status quota')\<lparr>StatusHard := limits, Used := usage\<rparr>\<rparr>)"

definition reconcile_quota ::
  "int64 \<Rightarrow> ('q, 'w) client \<Rightarrow> 'q quantity_ops \<Rightarrow> 'q quota \<Rightarrow> ('w, outcome) state" where
  "reconcile_quota ovf C Q quota =
     (if DeletionTimestamp (quota_meta quota) \<noteq> None then Quota_handleDeletion C quota
      else if \<not> ContainsFinalizer C (quota_meta quota) QuotaFinalizerName then do {
        u \<leftarrow> UpdateQuota C (quota\<lparr>quota_meta := AddFinalizer C (quota_meta quota) QuotaFinalizerName\<rparr>);
        case u of
          Inl e \<Rightarrow> State_Monad.return (no_result, Some e)
        | Inr _ \<Rightarrow> State_Monad.return (no_result\<lparr>Requeue := True\<rparr>, None)
      }
      else do {
        r \<leftarrow> calculateResourceUsage C Q quota;
        case r of
          Inl e \<Rightarrow> updateQuotaStatus C quota ''Failed'' (''Failed to calculate usage: '' @ error_text e)
        | Inr usage \<Rightarrow>
            let currentLimits = fst (calculateCurrentLimits ovf Q quota);
                quota' = measured_quota ovf Q quota usage in
            if isQuotaExceeded Q usage currentLimits
            then updateQuotaStatus C quota' ''Exceeded'' ''Resource quota limits exceeded''
            else updateQuotaStatus C quota' ''Enforced'' ''Quota is being enforced successfully''
      })"

definition Quota_Reconcile ::
  "int64 \<Rightarrow> ('q, 'w) client \<Rightarrow> 'q quantity_ops \<Rightarrow> string \<Rightarrow> string \<Rightarrow> ('w, outcome) state" where
  "Quota_Reconcile ovf C Q ns nm = timed C ''quota'' (do {
     r \<leftarrow> GetQuota C ns nm;
     case r of
       Inl e \<Rightarrow> if is_not_found e then State_Monad.return (no_result, None)
                else State_Monad.return (no_result, Some e)
     | Inr quota \<Rightarrow> reconcile_quota ovf C Q quota
   })"

subsection \<open>Admission\<close>

definition doesQuotaApply :: "('q, 'w) client \<Rightarrow> 'q quota \<Rightarrow> string \<Rightarrow> ('w, bool) state" where
  "doesQuotaApply C quota namespace =
     (let scope = Scope (quota_spec quota) in
      case ScopeType scope of
        ClusterScope \<Rightarrow> State_Monad.return True
      | NamespaceListScope \<Rightarrow> State_Monad.return (list_ex (\<lambda>ns. ns = namespace) (Namespaces scope))
      | NamespaceSelectorScope \<Rightarrow> do {
          r \<leftarrow> GetNamespace C namespace;
          case r of
            Inl e \<Rightarrow> State_Monad.return False
          | Inr ns \<Rightarrow>
              State_Monad.return
                (case NamespaceSelector scope of
                   None \<Rightarrow> False
                 | Some sel \<Rightarrow>
                     (case LabelSelectorAsSelector C sel of
                        Inl e \<Rightarrow> False
                      | Inr selector \<Rightarrow> selector (Labels (namespace_meta ns))))
        }
      | _ \<Rightarrow> State_Monad.return False)"

definition quota_error :: "'q quantity_ops \<Rightarrow> 'q quota \<Rightarrow> 'q resource_list \<Rightarrow> 'q resource_list \<Rightarrow> go_error" where
  "quota_error Q quota projected limits =
     Errorf (''quota '' @ Name (quota_meta quota) @ '' would be exceeded: projected usage '' @
       q_show_list Q projected @ '' exceeds limits '' @ q_show_list Q limits)"

text \<open>The body of the loop over the quotas, and \<open>ValidateQuota\<close>.\<close>

definition check_quota ::
  "int64 \<Rightarrow> ('q, 'w) client \<Rightarrow> 'q quantity_ops \<Rightarrow> string \<Rightarrow> 'q resource_list \<Rightarrow> 'q quota \<Rightarrow>
   ('w, go_error + unit) state" where
  "check_quota ovf C Q namespace requests quota = do {
     applies \<leftarrow> doesQuotaApply C quota namespace;
     if applies then
       on_ok (calculateResourceUsage C Q quota) (\<lambda>usage.
         let projectedUsage = project_usage Q usage requests;
             limits = fst (calculateCurrentLimits ovf Q quota) in
         if isQuotaExceeded Q projectedUsage limits
         then State_Monad.return (Inl (quota_error Q quota projectedUsage limits))
         else State_Monad.return (Inr ()))
     else State_Monad.return (Inr ())
   }"

definition ValidateQuota ::
  "int64 \<Rightarrow> ('q, 'w) client \<Rightarrow> 'q quantity_ops \<Rightarrow> string \<Rightarrow> 'q resource_list \<Rightarrow> ('w, go_error + unit) state" where
  "ValidateQuota ovf C Q namespace requests =
     on_ok (ListQuotas C everything) (for_each (check_quota ovf C Q namespace requests))"

section \<open>What a scope contains\<close>

text \<open>The objects of a quota's scope, as a predicate on their metadata.\<close>

definition selector_of :: "('q, 'w) client \<Rightarrow> label_selector option \<Rightarrow> selector" where
  "selector_of C sel ls =
     (case sel of
        None \<Rightarrow> False
      | Some s \<Rightarrow> (case LabelSelectorAsSelector C s of Inl e \<Rightarrow> False | Inr f \<Rightarrow> f ls))"

definition in_scope :: "('q, 'w) client \<Rightarrow> 'q cluster \<Rightarrow> 'q quota \<Rightarrow> object_meta \<Rightarrow> bool" where
  "in_scope C cl quota m =
     (let scope = Scope (quota_spec quota) in
      case ScopeType scope of
        ClusterScope \<Rightarrow> True
      | NamespaceListScope \<Rightarrow> Namespace m \<in> set (Namespaces scope)
      | NamespaceSelectorScope \<Rightarrow>
          list_ex (\<lambda>n. Name (namespace_meta n) = Namespace m \<and>
            selector_of C (NamespaceSelector scope) (Labels (namespace_meta n))) (c_namespaces cl)
      | ObjectSelectorScope \<Rightarrow> selector_of C (ObjectSelector scope) (Labels m)
      | _ \<Rightarrow> False)"

text \<open>The quotas that name a namespace twice are set apart: its objects are counted twice.\<close>

definition scope_distinct :: "'q quota \<Rightarrow> bool" where
  "scope_distinct quota \<longleftrightarrow> distinct (Namespaces (Scope (quota_spec quota)))"

text \<open>A result of the scans that is right for a predicate.\<close>

definition scoped_is :: "'q cluster \<Rightarrow> (object_meta \<Rightarrow> bool) \<Rightarrow> 'q scoped \<Rightarrow> bool" where
  "scoped_is cl P scoped \<longleftrightarrow>
     (case scoped of (os, ds, cs, ts) \<Rightarrow>
        mset os = filter_mset (\<lambda>x. P (order_meta x)) (mset (c_orders cl)) \<and>
        mset ds = filter_mset P (mset (c_daemon_orders cl)) \<and>
        mset cs = filter_mset P (mset (c_cron_orders cl)) \<and>
        mset ts = filter_mset (\<lambda>x. P (ticket_meta x)) (mset (c_tickets cl)))"

lemma filter_mset_disjoint:
  "(\<And>x. \<not> (P x \<and> R x)) \<Longrightarrow> filter_mset P M + filter_mset R M = filter_mset (\<lambda>x. P x \<or> R x) M"
  by (induction M) auto

lemma scoped_is_append:
  assumes "scoped_is cl P (os0, ds0, cs0, ts0)" "scoped_is cl R (os, ds, cs, ts)" "\<And>m. \<not> (P m \<and> R m)"
  shows "scoped_is cl (\<lambda>m. P m \<or> R m) (os0 @ os, ds0 @ ds, cs0 @ cs, ts0 @ ts)"
  using assms by (simp add: scoped_is_def filter_mset_disjoint)

lemma scoped_is_empty: "scoped_is cl (\<lambda>_. False) ([], [], [], [])"
  by (simp add: scoped_is_def)

lemma selects_options [simp]:
  "selects everything = (\<lambda>m. True)" "selects (in_namespace ns) = (\<lambda>m. Namespace m = ns)"
  "selects (with_selector sel) = (\<lambda>m. sel (Labels m))"
  by (simp_all add: selects_def everything_def in_namespace_def with_selector_def fun_eq_iff)

context quota_server
begin

lemma list_scoped_result:
  assumes "run_state (list_scoped C opts) w = (r, w')"
  shows "snap w' = snap w \<and> (\<forall>s. r = Inr s \<longrightarrow> scoped_is (snap w) (selects opts) s)"
proof -
  obtain r1 w1 where 1: "run_state (ListOrders C opts) w = (r1, w1)" by fastforce
  obtain r2 w2 where 2: "run_state (ListDaemonOrders C opts) w1 = (r2, w2)" by fastforce
  obtain r3 w3 where 3: "run_state (ListCronOrders C opts) w2 = (r3, w3)" by fastforce
  obtain r4 w4 where 4: "run_state (ListTickets C opts) w3 = (r4, w4)" by fastforce
  note frames = read_orders [OF 1] read_daemon_orders [OF 2] read_cron_orders [OF 3] read_tickets [OF 4]
  show ?thesis
    using assms frames 1 2 3 4
      orders_listed [of opts w] daemon_orders_listed [of opts w1] cron_orders_listed [of opts w2] tickets_listed [of opts w3]
    by (auto simp: list_scoped_def run_on_ok scoped_is_def split: sum.splits)
qed

lemma list_namespaces_result:
  assumes "run_state (list_namespaces C nss acc) w = (r, w')" "scoped_is (snap w) P acc" "distinct nss"
    and "\<And>m ns. ns \<in> set nss \<Longrightarrow> P m \<Longrightarrow> Namespace m \<noteq> ns"
  shows "snap w' = snap w \<and> (\<forall>s. r = Inr s \<longrightarrow> scoped_is (snap w) (\<lambda>m. P m \<or> Namespace m \<in> set nss) s)"
  using assms
proof (induction nss arbitrary: acc w P)
  case (Cons ns nss)
  obtain r1 w1 where 1: "run_state (list_scoped C (in_namespace ns)) w = (r1, w1)" by fastforce
  obtain os0 ds0 cs0 ts0 where acc: "acc = (os0, ds0, cs0, ts0)" by (metis prod_cases4)
  show ?case
  proof (cases r1)
    case (Inl e)
    with Cons.prems(1) 1 list_scoped_result [OF 1] show ?thesis by (auto simp: run_on_ok)
  next
    case (Inr s)
    then obtain os ds cs ts where s: "s = (os, ds, cs, ts)" by (metis prod_cases4)
    let ?P = "\<lambda>m. P m \<or> Namespace m = ns"
    from list_scoped_result [OF 1] Inr have w1: "snap w1 = snap w"
      and new: "scoped_is (snap w) (\<lambda>m. Namespace m = ns) s" by auto
    have "scoped_is (snap w) ?P (os0 @ os, ds0 @ ds, cs0 @ cs, ts0 @ ts)"
      using Cons.prems(2,4) new unfolding acc s by (intro scoped_is_append) auto
    moreover have "run_state (list_namespaces C nss (os0 @ os, ds0 @ ds, cs0 @ cs, ts0 @ ts)) w1 = (r, w')"
      using Cons.prems(1) 1 by (simp add: run_on_ok Inr acc s)
    ultimately show ?thesis
      using Cons.IH [of "(os0 @ os, ds0 @ ds, cs0 @ cs, ts0 @ ts)" w1 ?P] Cons.prems(3,4) w1
      by (auto simp: disj_assoc)
  qed
qed (auto)

lemma getNamespaces_result:
  assumes "run_state (getNamespacesMatchingSelector C sel) w = (r, w')"
  shows "snap w' = snap w \<and> (\<forall>ns. r = Inr ns \<longrightarrow>
    distinct (map (\<lambda>n. Name (namespace_meta n)) ns) \<and>
    set ns = {n \<in> set (c_namespaces (snap w)). selector_of C sel (Labels (namespace_meta n))})"
proof (cases "\<exists>s f. sel = Some s \<and> LabelSelectorAsSelector C s = Inr f")
  case True
  then obtain s f where s: "sel = Some s" "LabelSelectorAsSelector C s = Inr f" by blast
  with assms have run: "run_state (ListNamespaces C (with_selector f)) w = (r, w')"
    by (simp add: getNamespacesMatchingSelector_def)
  have "distinct (map (\<lambda>n. Name (namespace_meta n)) ns) \<and>
    set ns = {n \<in> set (c_namespaces (snap w)). selector_of C sel (Labels (namespace_meta n))}" if "r = Inr ns" for ns
  proof -
    from namespaces_listed [of "with_selector f" w ns w'] run that
    have m: "mset ns = mset (filter (\<lambda>x. f (Labels (namespace_meta x))) (c_namespaces (snap w)))" by simp
    then have "mset (map (\<lambda>n. Name (namespace_meta n)) ns) =
        mset (map (\<lambda>n. Name (namespace_meta n)) (filter (\<lambda>x. f (Labels (namespace_meta x))) (c_namespaces (snap w))))"
      by simp
    from mset_eq_imp_distinct_iff [OF this] distinct_map_filter [OF namespace_names [of w]] mset_eq_setD [OF m] s
    show ?thesis by (auto simp: selector_of_def)
  qed
  with read_namespaces [OF run] show ?thesis by blast
qed (use assms in \<open>auto simp: getNamespacesMatchingSelector_def selector_of_def split: option.splits sum.splits\<close>)

text \<open>The scan of a scope finds exactly the objects in it.\<close>

lemma getResourcesInScope_result:
  assumes "run_state (getResourcesInScope C quota) w = (r, w')" "scope_distinct quota"
  shows "snap w' = snap w \<and> (\<forall>s. r = Inr s \<longrightarrow> scoped_is (snap w) (in_scope C (snap w) quota) s)"
proof (cases "ScopeType (Scope (quota_spec quota))")
  case ClusterScope
  then show ?thesis using assms list_scoped_result [of everything w r w']
    by (simp add: getResourcesInScope_def in_scope_def [abs_def])
next
  case NamespaceListScope
  then show ?thesis using assms list_namespaces_result [of _ "([], [], [], [])" w r w' "\<lambda>_. False"]
    by (simp add: getResourcesInScope_def in_scope_def [abs_def] scoped_is_empty scope_distinct_def)
next
  case ObjectSelectorScope
  then show ?thesis using assms
    by (auto dest!: list_scoped_result simp: getResourcesInScope_def in_scope_def [abs_def] selector_of_def scoped_is_empty
        split: option.splits sum.splits)
next
  case NamespaceSelectorScope
  let ?sel = "NamespaceSelector (Scope (quota_spec quota))"
  obtain r1 w1 where 1: "run_state (getNamespacesMatchingSelector C ?sel) w = (r1, w1)" by fastforce
  show ?thesis
  proof (cases r1)
    case (Inr ns)
    let ?names = "map (\<lambda>n. Name (namespace_meta n)) ns"
    from getNamespaces_result [OF 1] Inr have w1: "snap w1 = snap w" and d: "distinct ?names"
      and s: "set ns = {n \<in> set (c_namespaces (snap w)). selector_of C ?sel (Labels (namespace_meta n))}" by auto
    have "in_scope C (snap w) quota = (\<lambda>m. Namespace m \<in> set ?names)"
      using NamespaceSelectorScope s by (auto simp: in_scope_def list_ex_iff fun_eq_iff image_iff)
    with list_namespaces_result [of ?names "([], [], [], [])" w1 r w' "\<lambda>_. False"] w1 d assms 1 NamespaceSelectorScope Inr
    show ?thesis by (simp add: getResourcesInScope_def run_on_ok scoped_is_empty)
  qed (use assms 1 getNamespaces_result [OF 1] NamespaceSelectorScope in \<open>auto simp: getResourcesInScope_def run_on_ok\<close>)
qed (use assms in \<open>auto simp: getResourcesInScope_def in_scope_def [abs_def] scoped_is_empty\<close>)

end
section \<open>The measured usage\<close>

text \<open>The specification: what the objects of a cluster that satisfy a predicate amount to.\<close>

definition request_amount :: "('q \<Rightarrow> int) \<Rightarrow> string \<Rightarrow> 'q ticket \<Rightarrow> int" where
  "request_amount amount name t =
     (case Resources (ticket_spec t) of
        None \<Rightarrow> 0
      | Some res \<Rightarrow> (case gm_get (Requests res) name of None \<Rightarrow> 0 | Some q \<Rightarrow> amount q))"

definition usage_in :: "('q \<Rightarrow> int) \<Rightarrow> 'q cluster \<Rightarrow> (object_meta \<Rightarrow> bool) \<Rightarrow> string \<Rightarrow> int" where
  "usage_in amount cl P r =
     (let n_orders = length (filter (\<lambda>x. P (order_meta x)) (c_orders cl));
          n_daemon = length (filter P (c_daemon_orders cl));
          n_cron = length (filter P (c_cron_orders cl));
          tickets = filter (\<lambda>x. P (ticket_meta x)) (c_tickets cl) in
      if r = ''orders'' then int (n_orders + n_daemon + n_cron) * nano
      else if r = ''orders.regular'' then int n_orders * nano
      else if r = ''orders.daemon'' then int n_daemon * nano
      else if r = ''orders.cron'' then int n_cron * nano
      else if r = ''tickets'' then int (length tickets) * nano
      else if r = ''reserved.cpu'' then sum_list (map (request_amount amount ''cpu'') tickets)
      else if r = ''reserved.memory'' then sum_list (map (request_amount amount ''memory'') tickets)
      else 0)"

text \<open>The counts fit an \<open>int64\<close>.\<close>

definition countable_cluster :: "'q cluster \<Rightarrow> bool" where
  "countable_cluster cl \<longleftrightarrow>
     int (length (c_orders cl) + length (c_daemon_orders cl) + length (c_cron_orders cl)) < 2 ^ 63 \<and>
     int (length (c_tickets cl)) < 2 ^ 63"

lemma put_made:
  "put_count Q k n m = None \<longleftrightarrow> m = None" "put_total Q k q m = None \<longleftrightarrow> m = None"
  by (simp_all add: put_count_def put_total_def)

lemma usage_of_made: "usage_of Q s \<noteq> None"
  by (simp add: usage_of_def Let_def put_made del: not_None_eq split: prod.split)

context quantity_laws
begin

lemma amount_at_put: "m \<noteq> None \<Longrightarrow> amount_at amount (gm_put k q m) r = (if r = k then amount q else amount_at amount m r)"
  by (simp add: amount_at_def gm_get_put)

lemma amount_at_make [simp]: "amount_at amount gm_make r = 0"
  by (simp add: amount_at_def)

lemma put_count_amount:
  assumes "m \<noteq> None" "int n < 2 ^ 63" "amount_at amount m k = 0"
  shows "amount_at amount (put_count Q k n m) r = (if r = k then int n * nano else amount_at amount m r)"
  using assms by (auto simp: put_count_def amount_at_put amount_new sint_int64_of_nat simp del: not_None_eq)

lemma put_total_amount:
  assumes "m \<noteq> None" "amount_at amount m k = 0"
  shows "amount_at amount (put_total Q k q m) r = (if r = k then amount q else amount_at amount m r)"
  using assms by (auto simp: put_total_def amount_at_put is_zero_iff simp del: not_None_eq)

lemma put_count_present:
  assumes "m \<noteq> None" "int n < 2 ^ 63"
  shows "gm_get (put_count Q k n m) r \<noteq> None \<longleftrightarrow> gm_get m r \<noteq> None \<or> (r = k \<and> int n * nano \<noteq> 0)"
  using assms by (auto simp: put_count_def gm_get_put simp del: not_None_eq)

lemma put_total_present:
  assumes "m \<noteq> None"
  shows "gm_get (put_total Q k q m) r \<noteq> None \<longleftrightarrow> gm_get m r \<noteq> None \<or> (r = k \<and> amount q \<noteq> 0)"
  using assms by (auto simp: put_total_def gm_get_put is_zero_iff simp del: not_None_eq)

lemma total_request_amount:
  "amount (total_request Q name ts) = sum_list (map (request_amount amount name) ts)"
proof -
  have "amount (fold (add_ticket_request Q name) ts a) = amount a + sum_list (map (request_amount amount name) ts)" for a
    by (induction ts arbitrary: a)
      (auto simp: add_ticket_request_def request_amount_def amount_add split: option.split)
  then show ?thesis by (simp add: total_request_def amount_zero)
qed

lemma sum_list_mset: "mset xs = mset ys \<Longrightarrow> sum_list (map (f :: 'b \<Rightarrow> int) xs) = sum_list (map f ys)"
  by (metis mset_map sum_mset_sum_list)

lemma scoped_bounds:
  assumes "scoped_is cl P (os, ds, cs, ts)" "countable_cluster cl"
  shows "int (length os) + int (length ds) + int (length cs) < 2 ^ 63" "int (length ts) < 2 ^ 63"
proof -
  from assms(1) have m: "mset os = mset (filter (\<lambda>x. P (order_meta x)) (c_orders cl))"
    "mset ds = mset (filter P (c_daemon_orders cl))" "mset cs = mset (filter P (c_cron_orders cl))"
    "mset ts = mset (filter (\<lambda>x. P (ticket_meta x)) (c_tickets cl))"
    by (auto simp: scoped_is_def)
  note len = m [THEN mset_eq_length]
  show "int (length os) + int (length ds) + int (length cs) < 2 ^ 63" "int (length ts) < 2 ^ 63"
    using assms(2) length_filter_le [of "\<lambda>x. P (order_meta x)" "c_orders cl"] length_filter_le [of P "c_daemon_orders cl"]
      length_filter_le [of P "c_cron_orders cl"] length_filter_le [of "\<lambda>x. P (ticket_meta x)" "c_tickets cl"]
    unfolding countable_cluster_def len by linarith+
qed

text \<open>The usage the code computes is the specified one, key by key.\<close>

lemma usage_of_amount:
  assumes "scoped_is cl P s" "countable_cluster cl"
  shows "amount_at amount (usage_of Q s) r = usage_in amount cl P r"
proof -
  obtain os ds cs ts where s: "s = (os, ds, cs, ts)" by (metis prod_cases4)
  from assms(1) have m: "mset os = mset (filter (\<lambda>x. P (order_meta x)) (c_orders cl))"
    "mset ds = mset (filter P (c_daemon_orders cl))" "mset cs = mset (filter P (c_cron_orders cl))"
    "mset ts = mset (filter (\<lambda>x. P (ticket_meta x)) (c_tickets cl))"
    by (auto simp: scoped_is_def s)
  note len = m [THEN mset_eq_length]
  note b = scoped_bounds [OF assms [unfolded s]]
  have "amount_at amount (usage_of Q s) r =
      (if r = ''orders'' then int (length os + length ds + length cs) * nano
       else if r = ''orders.regular'' then int (length os) * nano
       else if r = ''orders.daemon'' then int (length ds) * nano
       else if r = ''orders.cron'' then int (length cs) * nano
       else if r = ''tickets'' then int (length ts) * nano
       else if r = ''reserved.cpu'' then sum_list (map (request_amount amount ''cpu'') ts)
       else if r = ''reserved.memory'' then sum_list (map (request_amount amount ''memory'') ts)
       else 0)"
    using b by (simp add: s usage_of_def Let_def put_count_amount put_total_amount put_made total_request_amount del: not_None_eq)
  also have "\<dots> = usage_in amount cl P r"
    using m(4) [THEN sum_list_mset] by (simp add: usage_in_def Let_def len)
  finally show ?thesis .
qed

lemma usage_of_present:
  assumes "scoped_is cl P s" "countable_cluster cl"
  shows "gm_get (usage_of Q s) r \<noteq> None \<longleftrightarrow> amount_at amount (usage_of Q s) r \<noteq> 0"
proof -
  obtain os ds cs ts where s: "s = (os, ds, cs, ts)" by (metis prod_cases4)
  note b = scoped_bounds [OF assms [unfolded s]]
  show ?thesis
    using b by (simp add: s usage_of_def Let_def put_count_amount put_total_amount put_count_present put_total_present put_made
        del: not_None_eq)
qed

end

context quota_control
begin

lemma calculateResourceUsage_result:
  assumes "run_state (calculateResourceUsage C Q quota) w = (r, w')" "scope_distinct quota"
    and "countable_cluster (snap w)"
  shows "snap w' = snap w \<and> (\<forall>u. r = Inr u \<longrightarrow> u \<noteq> None \<and>
     (\<forall>k. amount_at amount u k = usage_in amount (snap w) (in_scope C (snap w) quota) k) \<and>
     (\<forall>k. gm_get u k \<noteq> None \<longleftrightarrow> usage_in amount (snap w) (in_scope C (snap w) quota) k \<noteq> 0))"
proof -
  obtain r1 w1 where 1: "run_state (getResourcesInScope C quota) w = (r1, w1)" by fastforce
  from getResourcesInScope_result [OF this assms(2)] have w1: "snap w1 = snap w"
    and s: "\<And>s. r1 = Inr s \<Longrightarrow> scoped_is (snap w) (in_scope C (snap w) quota) s" by auto
  have "gm_get (usage_of Q s) k \<noteq> None \<longleftrightarrow> usage_in amount (snap w) (in_scope C (snap w) quota) k \<noteq> 0"
    if "r1 = Inr s" for s k
    using usage_of_amount [OF s [OF that] assms(3), of k] usage_of_present [OF s [OF that] assms(3), of k] by simp
  moreover have "r = (case r1 of Inl e \<Rightarrow> Inl e | Inr s \<Rightarrow> Inr (usage_of Q s)) \<and> w' = w1"
    using assms(1) 1 by (auto simp: calculateResourceUsage_def run_on_ok split: sum.splits)
  ultimately show ?thesis
    using w1 usage_of_amount [OF s assms(3)] usage_of_made [of Q] by (cases r1) auto
qed

end

section \<open>The admission decision\<close>

text \<open>The quotas that admission consults for a namespace.\<close>

definition consulted :: "('q, 'w) client \<Rightarrow> 'q cluster \<Rightarrow> string \<Rightarrow> 'q quota \<Rightarrow> bool" where
  "consulted C cl namespace quota \<longleftrightarrow>
     (let scope = Scope (quota_spec quota) in
      case ScopeType scope of
        ClusterScope \<Rightarrow> True
      | NamespaceListScope \<Rightarrow> namespace \<in> set (Namespaces scope)
      | NamespaceSelectorScope \<Rightarrow>
          list_ex (\<lambda>n. Name (namespace_meta n) = namespace \<and>
            selector_of C (NamespaceSelector scope) (Labels (namespace_meta n))) (c_namespaces cl)
      | _ \<Rightarrow> False)"

text \<open>
  A request is within limits: each limited resource that is used or requested stays at or
  below its limit when the request is added to the usage.
\<close>

definition within_limits ::
  "('q \<Rightarrow> int) \<Rightarrow> (string \<Rightarrow> int) \<Rightarrow> 'q resource_list \<Rightarrow> 'q resource_list \<Rightarrow> bool" where
  "within_limits amount used requests limits \<longleftrightarrow>
     (\<forall>r limit. gm_get limits r = Some limit \<longrightarrow> used r \<noteq> 0 \<or> gm_get requests r \<noteq> None \<longrightarrow>
        used r + amount_at amount requests r \<le> amount limit)"

lemma current_limits_wf: "gm_wf (Hard (quota_spec quota)) \<Longrightarrow> gm_wf (fst (calculateCurrentLimits ovf Q quota))"
  by (auto simp: calculateCurrentLimits_def gm_wf_def gm_list_def case_prod_unfold comp_def split: option.splits)

context quota_control
begin

lemma exceeded_within:
  assumes "u \<noteq> None" "\<And>k. amount_at amount u k = used k" "\<And>k. gm_get u k \<noteq> None \<longleftrightarrow> used k \<noteq> 0"
    and "gm_wf requests" "gm_wf limits"
  shows "isQuotaExceeded Q (project_usage Q u requests) limits \<longleftrightarrow> \<not> within_limits amount used requests limits"
  unfolding exceeded_iff [OF assms(5)] within_limits_def project_usage_amount [OF assms(1,4)]
  using assms(2,3) by (auto simp: not_le simp del: not_None_eq)

end

context available_quota_control
begin

lemma list_scoped_ok: "\<exists>s w'. run_state (list_scoped C opts) w = (Inr s, w')"
proof -
  obtain os w1 where 1: "run_state (ListOrders C opts) w = (Inr os, w1)" using orders_available by blast
  obtain ds w2 where 2: "run_state (ListDaemonOrders C opts) w1 = (Inr ds, w2)" using daemon_orders_available by blast
  obtain cs w3 where 3: "run_state (ListCronOrders C opts) w2 = (Inr cs, w3)" using cron_orders_available by blast
  obtain ts w4 where 4: "run_state (ListTickets C opts) w3 = (Inr ts, w4)" using tickets_available by blast
  from 1 2 3 4 show ?thesis by (simp add: list_scoped_def run_on_ok)
qed

lemma list_namespaces_ok: "\<exists>s w'. run_state (list_namespaces C nss acc) w = (Inr s, w')"
proof (induction nss arbitrary: acc w)
  case (Cons ns nss)
  obtain os ds cs ts w1 where 1: "run_state (list_scoped C (in_namespace ns)) w = (Inr (os, ds, cs, ts), w1)"
    using list_scoped_ok [of "in_namespace ns" w] by (metis prod_cases4)
  obtain os0 ds0 cs0 ts0 where "acc = (os0, ds0, cs0, ts0)" by (metis prod_cases4)
  with Cons.IH [of "(os0 @ os, ds0 @ ds, cs0 @ cs, ts0 @ ts)" w1] show ?case by (simp add: run_on_ok 1)
qed (simp del: split_paired_Ex)

lemma consulted_usage_ok:
  assumes "consulted C cl namespace quota"
  shows "\<exists>u w'. run_state (calculateResourceUsage C Q quota) w = (Inr u, w')"
proof -
  have "\<exists>s w'. run_state (getResourcesInScope C quota) w = (Inr s, w')"
  proof (cases "ScopeType (Scope (quota_spec quota))")
    case NamespaceSelectorScope
    with assms obtain n :: namespace where "selector_of C (NamespaceSelector (Scope (quota_spec quota))) (Labels (namespace_meta n))"
      by (auto simp: consulted_def list_ex_iff)
    then obtain s f where sel: "NamespaceSelector (Scope (quota_spec quota)) = Some s"
      "LabelSelectorAsSelector C s = Inr f"
      by (cases "NamespaceSelector (Scope (quota_spec quota))";
          cases "LabelSelectorAsSelector C (the (NamespaceSelector (Scope (quota_spec quota))))")
        (auto simp: selector_of_def)
    obtain ns w1 where "run_state (ListNamespaces C (with_selector f)) w = (Inr ns, w1)"
      using namespaces_available by blast
    with NamespaceSelectorScope sel list_namespaces_ok show ?thesis
      by (simp add: getResourcesInScope_def getNamespacesMatchingSelector_def run_on_ok)
  qed (use assms list_scoped_ok list_namespaces_ok in \<open>auto simp: consulted_def getResourcesInScope_def\<close>)
  then show ?thesis by (auto simp: calculateResourceUsage_def run_on_ok)
qed

lemma doesQuotaApply_result:
  assumes "run_state (doesQuotaApply C quota namespace) w = (b, w')"
    and "\<exists>n \<in> set (c_namespaces (snap w)). Name (namespace_meta n) = namespace"
  shows "snap w' = snap w \<and> b = consulted C (snap w) namespace quota"
proof (cases "ScopeType (Scope (quota_spec quota))")
  case NamespaceSelectorScope
  obtain n v where n: "run_state (GetNamespace C namespace) w = (Inr n, v)"
    using assms(2) namespace_available by blast
  have same: "m = n" if "m \<in> set (c_namespaces (snap w))" "Name (namespace_meta m) = namespace" for m
    using that namespace_got [OF n] namespace_names [of w] by (auto simp: distinct_map inj_on_def)
  have "consulted C (snap w) namespace quota =
      selector_of C (NamespaceSelector (Scope (quota_spec quota))) (Labels (namespace_meta n))"
    using NamespaceSelectorScope namespace_got [OF n] same by (auto simp: consulted_def list_ex_iff)
  with assms(1) n read_namespace [OF n] NamespaceSelectorScope show ?thesis
    by (auto simp: doesQuotaApply_def selector_of_def split: option.splits sum.splits)
qed (use assms in \<open>auto simp: doesQuotaApply_def consulted_def list_ex_iff\<close>)

lemma check_quota_result:
  assumes "run_state (check_quota ovf C Q namespace requests quota) w = (r, w')"
    and "\<exists>n \<in> set (c_namespaces (snap w)). Name (namespace_meta n) = namespace"
    and "countable_cluster (snap w)" "scope_distinct quota" "gm_wf requests" "gm_wf (Hard (quota_spec quota))"
  shows "snap w' = snap w \<and> (r = Inr () \<longleftrightarrow>
    (consulted C (snap w) namespace quota \<longrightarrow>
      within_limits amount (usage_in amount (snap w) (in_scope C (snap w) quota)) requests
        (fst (calculateCurrentLimits ovf Q quota))))"
proof -
  obtain b w1 where 1: "run_state (doesQuotaApply C quota namespace) w = (b, w1)" by fastforce
  from doesQuotaApply_result [OF 1 assms(2)] have w1: "snap w1 = snap w"
    and b: "b = consulted C (snap w) namespace quota" by auto
  show ?thesis
  proof (cases b)
    case True
    with b obtain u w2 where 2: "run_state (calculateResourceUsage C Q quota) w1 = (Inr u, w2)"
      using consulted_usage_ok by metis
    from calculateResourceUsage_result [OF 2 assms(4)] assms(3) w1 have w2: "snap w2 = snap w" and u: "u \<noteq> None"
      and amt: "\<And>k. amount_at amount u k = usage_in amount (snap w) (in_scope C (snap w) quota) k"
      and pres: "\<And>k. gm_get u k \<noteq> None \<longleftrightarrow> usage_in amount (snap w) (in_scope C (snap w) quota) k \<noteq> 0"
      by (auto simp del: not_None_eq)
    from exceeded_within [OF u amt pres assms(5), of "fst (calculateCurrentLimits ovf Q quota)"] assms(6)
    show ?thesis using assms(1) 1 2 True b w2
      by (auto simp: check_quota_def run_on_ok Let_def current_limits_wf split: if_splits)
  qed (use assms(1) 1 w1 b in \<open>auto simp: check_quota_def\<close>)
qed

lemma ValidateQuota_decides:
  assumes "run_state (ValidateQuota ovf C Q namespace requests) w = (r, w')"
    and "\<exists>n \<in> set (c_namespaces (snap w)). Name (namespace_meta n) = namespace"
    and "countable_cluster (snap w)" "gm_wf requests"
    and "\<And>quota. quota \<in> set (c_quotas (snap w)) \<Longrightarrow> scope_distinct quota \<and> gm_wf (Hard (quota_spec quota))"
  shows "r = Inr () \<longleftrightarrow> (\<forall>quota \<in> set (c_quotas (snap w)). consulted C (snap w) namespace quota \<longrightarrow>
      within_limits amount (usage_in amount (snap w) (in_scope C (snap w) quota)) requests
        (fst (calculateCurrentLimits ovf Q quota)))"
  using quotas_decide [OF assms(1) [unfolded ValidateQuota_def],
      of "\<lambda>quota. consulted C (snap w) namespace quota \<longrightarrow>
        within_limits amount (usage_in amount (snap w) (in_scope C (snap w) quota)) requests
          (fst (calculateCurrentLimits ovf Q quota))"]
    check_quota_result [OF _ _ _ _ assms(4)] assms(2,3,5) by metis

end

section \<open>Limits and status\<close>

lemma limits_get:
  "gm_get (fst (calculateCurrentLimits ovf Q quota)) r =
     (case active_multiplier quota of
        None \<Rightarrow> gm_get (Hard (quota_spec quota)) r
      | Some (w, f) \<Rightarrow> map_option (scale_limit ovf Q f) (gm_get (Hard (quota_spec quota)) r))"
proof -
  have "map_of (map (\<lambda>(r, q). (r, g q)) xs) r = map_option g (map_of xs r)" for g :: "'a \<Rightarrow> 'a" and xs
    by (induction xs) auto
  then show ?thesis
    by (cases "Hard (quota_spec quota)") (auto simp: calculateCurrentLimits_def split: option.split)
qed

text \<open>What a reconciliation of a live quota writes.\<close>

context quota_control
begin

lemma reconcile_quota_measures:
  assumes "run_state (reconcile_quota ovf C Q quota) w = (r, w')"
    and "DeletionTimestamp (quota_meta quota) = None" "ContainsFinalizer C (quota_meta quota) QuotaFinalizerName"
    and "run_state (calculateResourceUsage C Q quota) w = (Inr u, w1)"
    and "scope_distinct quota" "countable_cluster (snap w)" "gm_wf (Hard (quota_spec quota))"
  shows "\<exists>q' reason message. (r, w') = run_state (updateQuotaStatus C q' reason message) w1 \<and>
     reason = (if within_limits amount (usage_in amount (snap w) (in_scope C (snap w) quota)) gm_make
                    (fst (calculateCurrentLimits ovf Q quota)) then ''Enforced'' else ''Exceeded'') \<and>
     quota_meta q' = quota_meta quota \<and> quota_spec q' = quota_spec quota \<and>
     StatusHard (quota_status q') = fst (calculateCurrentLimits ovf Q quota) \<and>
     (\<forall>k. amount_at amount (Used (quota_status q')) k = usage_in amount (snap w) (in_scope C (snap w) quota) k) \<and>
     QuotaConditions (quota_status q') = QuotaConditions (quota_status quota)"
proof -
  let ?limits = "fst (calculateCurrentLimits ovf Q quota)" and ?q = "measured_quota ovf Q quota u"
  from calculateResourceUsage_result [OF assms(4,5,6)]
  have u: "u \<noteq> None" "\<And>k. amount_at amount u k = usage_in amount (snap w) (in_scope C (snap w) quota) k"
    "\<And>k. gm_get u k \<noteq> None \<longleftrightarrow> usage_in amount (snap w) (in_scope C (snap w) quota) k \<noteq> 0"
    by (auto simp del: not_None_eq)
  have "isQuotaExceeded Q u ?limits \<longleftrightarrow>
      \<not> within_limits amount (usage_in amount (snap w) (in_scope C (snap w) quota)) gm_make ?limits"
    using exceeded_within [OF u, of gm_make ?limits] current_limits_wf [OF assms(7)]
    by (simp add: project_usage_def)
  with assms(1-4) have "(r, w') = run_state (updateQuotaStatus C ?q
        (if within_limits amount (usage_in amount (snap w) (in_scope C (snap w) quota)) gm_make ?limits
         then ''Enforced'' else ''Exceeded'')
        (if isQuotaExceeded Q u ?limits then ''Resource quota limits exceeded''
         else ''Quota is being enforced successfully'')) w1"
    by (cases "isQuotaExceeded Q u ?limits") (simp_all add: reconcile_quota_def Let_def)
  moreover have "quota_meta ?q = quota_meta quota" "quota_spec ?q = quota_spec quota"
    "StatusHard (quota_status ?q) = ?limits" "Used (quota_status ?q) = u"
    "QuotaConditions (quota_status ?q) = QuotaConditions (quota_status quota)"
    by (auto simp: measured_quota_def calculateCurrentLimits_def split: option.split prod.split)
  ultimately show ?thesis using u(2)
    by (intro exI [of _ ?q]) auto
qed

end

context quota_control
begin

lemma usage_of_tickets:
  assumes "int (length ts) < 2 ^ 63"
  shows "amount_at amount (usage_of Q (os, ds, cs, ts)) ''tickets'' = int (length ts) * nano"
proof -
  have other: "amount_at amount (put_count Q k n m) r = amount_at amount m r"
    "amount_at amount (put_total Q k q m) r = amount_at amount m r" if "m \<noteq> None" "r \<noteq> k" for k n m r q
    using that by (simp_all add: put_count_def put_total_def amount_at_put)
  show ?thesis using assms
    by (simp add: usage_of_def Let_def other put_count_amount put_made del: not_None_eq)
qed

lemma repeated_namespace_usage:
  assumes "run_state (calculateResourceUsage C Q quota) w = (Inr u, w')"
    and "ScopeType (Scope (quota_spec quota)) = NamespaceListScope" "Namespaces (Scope (quota_spec quota)) = [ns, ns]"
    and "2 * int (length (c_tickets (snap w))) < 2 ^ 63"
  shows "amount_at amount u ''tickets'' = 2 * usage_in amount (snap w) (\<lambda>m. Namespace m = ns) ''tickets''"
proof -
  let ?n = "length (filter (\<lambda>x. Namespace (ticket_meta x) = ns) (c_tickets (snap w)))"
  have scan: "\<exists>os ds cs ts. r = Inr (os, ds, cs, ts) \<and> length ts = ?n \<and> snap v' = snap w"
    if "run_state (list_scoped C (in_namespace ns)) v = (r, v')" "snap v = snap w" "\<not> isl r" for r v v'
    using list_scoped_result [OF that(1)] that(2,3)
    by (cases r) (auto simp: scoped_is_def dest!: mset_eq_length [of _ "filter _ _", simplified mset_filter])
  obtain r1 w1 where 1: "run_state (list_scoped C (in_namespace ns)) w = (r1, w1)" by fastforce
  have "\<not> isl r1" using assms(1-3) 1
    by (auto simp: calculateResourceUsage_def getResourcesInScope_def run_on_ok split: sum.splits)
  from scan [OF 1 refl this] obtain os ds cs ts where r1: "r1 = Inr (os, ds, cs, ts)" "length ts = ?n" "snap w1 = snap w"
    by blast
  obtain r2 w2 where 2: "run_state (list_scoped C (in_namespace ns)) w1 = (r2, w2)" by fastforce
  have "\<not> isl r2" using assms(1-3) 1 2 r1(1)
    by (auto simp: calculateResourceUsage_def getResourcesInScope_def run_on_ok split: sum.splits)
  from scan [OF 2 r1(3) this] obtain os' ds' cs' ts' where r2: "r2 = Inr (os', ds', cs', ts')" "length ts' = ?n"
    by blast
  have u: "u = usage_of Q (os @ os', ds @ ds', cs @ cs', ts @ ts')"
    using assms(1-3) 1 2 r1(1) r2(1)
    by (simp add: calculateResourceUsage_def getResourcesInScope_def run_on_ok)
  have "?n \<le> length (c_tickets (snap w))" by (rule length_filter_le)
  with assms(4) r1(2) r2(2) have "int (length (ts @ ts')) < 2 ^ 63" unfolding length_append by linarith
  from usage_of_tickets [OF this] r1(2) r2(2) show ?thesis by (simp add: u usage_in_def Let_def)
qed

end

text \<open>Conditions of other types are left alone by a status update.\<close>

lemma quota_status_conditions:
  "QuotaConditions (quota_status_of quota now reason message) =
     upsert_condition (fst (reason_condition reason)) (snd (reason_condition reason)) now reason message
       (QuotaConditions (quota_status quota))"
  by (simp add: quota_status_of_def split: prod.split)

lemma exceeded_stays:
  assumes "find_condition QuotaExceeded (QuotaConditions (quota_status quota)) = Some c" "CondStatus c = ConditionTrue"
  shows "find_condition QuotaExceeded (QuotaConditions (quota_status_of quota now reason message)) = Some c"
  using assms
  by (auto simp: quota_status_conditions reason_condition_def find_upsert_condition find_upsert_condition_other)

section \<open>Properties\<close>

text \<open>
  The cluster of the witnesses: two namespaces, three tickets of a tenth of a CPU each, two of
  them in \<open>team-a\<close>, and a quota on a list of namespaces.
\<close>

definition cpu_ticket :: "string \<Rightarrow> string \<Rightarrow> exact ticket" where
  "cpu_ticket ns nm =
     \<lparr>ticket_meta = empty_meta\<lparr>Name := nm, Namespace := ns\<rparr>,
      ticket_spec = \<lparr>Lifecycle = None, Window = None, SchedulerName = None, PriorityClassName = None,
        Resources = Some \<lparr>Requests = Some [(''cpu'', (100000000, DecimalSI))], Limits = None\<rparr>,
        NodeName = None, NodeSelector = None, Affinity = None, Tolerations = [], TopologySpreadConstraints = []\<rparr>,
      ticket_status = empty_ticket_status\<rparr>"

definition labelled_namespace :: "string \<Rightarrow> string \<Rightarrow> namespace" where
  "labelled_namespace nm tier = \<lparr>namespace_meta = empty_meta\<lparr>Name := nm, Labels := Some [(''tier'', tier)]\<rparr>\<rparr>"

definition empty_quota_status :: "exact quota_status" where
  "empty_quota_status = \<lparr>StatusHard = None, Used = None, ActiveTimeWindow = None, QuotaObservedGeneration = None,
     QuotaConditions = []\<rparr>"

definition list_quota :: "string list \<Rightarrow> (string \<times> int) list \<Rightarrow> time_window list \<Rightarrow> exact quota" where
  "list_quota nss hard windows =
     \<lparr>quota_meta = empty_meta\<lparr>Name := ''q'', Finalizers := [QuotaFinalizerName]\<rparr>,
      quota_spec = \<lparr>Scope = \<lparr>ScopeType = NamespaceListScope, NamespaceSelector = None, Namespaces = nss, ObjectSelector = None\<rparr>,
        Hard = Some (map (\<lambda>(r, n). (r, (n * nano, DecimalSI))) hard), TimeWindows = windows, Allocation = []\<rparr>,
      quota_status = empty_quota_status\<rparr>"

definition quota_world :: "exact quota list \<Rightarrow> exact mem" where
  "quota_world qs =
     empty_mem\<lparr>m_tickets := [cpu_ticket ''team-a'' ''t1'', cpu_ticket ''team-b'' ''t2'', cpu_ticket ''team-a'' ''t3''],
       m_namespaces := [labelled_namespace ''team-a'' ''gold'', labelled_namespace ''team-b'' ''silver''],
       m_quotas := qs\<rparr>"

text \<open>
  C8. The measured usage is exact. A measurement that succeeds changes nothing and finds, under
  every key, what the objects in the quota's scope amount to: their numbers by kind, and the
  sums of the CPU and memory requests of the tickets. The quota must not name a namespace
  twice.
\<close>

theorem measured_usage_is_exact:
  assumes "quota_control C snap Q amount"
    and "run_state (calculateResourceUsage C Q quota) w = (Inr u, w')"
    and "scope_distinct quota" "countable_cluster (snap w)"
  shows "snap w' = snap w \<and>
    (\<forall>k. amount_at amount u k = usage_in amount (snap w) (in_scope C (snap w) quota) k)"
  using quota_control.calculateResourceUsage_result [OF assms] by auto

theorem measured_usage_is_exact_witness:
  "amount_at fst (projr (fst (run_state (calculateResourceUsage mem_client exact_ops
      (list_quota [''team-a''] [] [])) (quota_world [])))) ''reserved.cpu'' = 200000000"
proof -
  let ?q = "list_quota [''team-a''] [] []" and ?w = "quota_world []"
  let ?r = "run_state (calculateResourceUsage mem_client exact_ops ?q) ?w"
  have "\<not> isl (fst ?r)" by code_simp
  then have run: "?r = (Inr (projr (fst ?r)), snd ?r)" by (simp add: prod_eq_iff)
  have "scope_distinct ?q" "countable_cluster (mem_cluster ?w)" by code_simp+
  moreover have "usage_in fst (mem_cluster ?w) (in_scope mem_client (mem_cluster ?w) ?q) ''reserved.cpu'' = 200000000"
    by code_simp
  ultimately show ?thesis
    using measured_usage_is_exact [OF memx.quota_control_axioms run] by simp
qed

text \<open>
  A namespace listed twice is counted twice. Listing a namespace two times in a quota makes
  the measurement count each of its tickets two times.
\<close>

theorem repeated_namespaces_count_twice:
  assumes "quota_control C snap Q amount"
    and "run_state (calculateResourceUsage C Q quota) w = (Inr u, w')"
    and "ScopeType (Scope (quota_spec quota)) = NamespaceListScope" "Namespaces (Scope (quota_spec quota)) = [ns, ns]"
    and "2 * int (length (c_tickets (snap w))) < 2 ^ 63"
  shows "amount_at amount u ''tickets'' = 2 * usage_in amount (snap w) (\<lambda>m. Namespace m = ns) ''tickets''"
  using quota_control.repeated_namespace_usage [OF assms] .

theorem repeated_namespaces_count_twice_witness:
  "amount_at fst (projr (fst (run_state (calculateResourceUsage mem_client exact_ops
      (list_quota [''team-a'', ''team-a''] [] [])) (quota_world [])))) ''tickets'' =
   2 * usage_in fst (mem_cluster (quota_world [])) (\<lambda>m. Namespace m = ''team-a'') ''tickets''"
proof -
  let ?q = "list_quota [''team-a'', ''team-a''] [] []" and ?w = "quota_world []"
  let ?r = "run_state (calculateResourceUsage mem_client exact_ops ?q) ?w"
  have "\<not> isl (fst ?r)" by code_simp
  then have run: "?r = (Inr (projr (fst ?r)), snd ?r)" by (simp add: prod_eq_iff)
  have "2 * int (length (c_tickets (mem_cluster ?w))) < 2 ^ 63" by code_simp
  then show ?thesis
    by (intro repeated_namespaces_count_twice [OF memx.quota_control_axioms run]) (simp_all add: list_quota_def)
qed

text \<open>
  C7. The admission decision. With the API up, \<open>ValidateQuota\<close> accepts a request for a namespace
  exactly when each quota it consults for that namespace has room: for every limited resource
  that is used or requested, the exact usage of the quota's scope plus the request is at most
  the current limit.
\<close>

theorem admission_decides_the_limits:
  assumes "available_quota_control C snap Q amount"
    and "run_state (ValidateQuota ovf C Q namespace requests) w = (r, w')"
    and "\<exists>n \<in> set (c_namespaces (snap w)). Name (namespace_meta n) = namespace"
    and "countable_cluster (snap w)" "gm_wf requests"
    and "\<And>quota. quota \<in> set (c_quotas (snap w)) \<Longrightarrow> scope_distinct quota \<and> gm_wf (Hard (quota_spec quota))"
  shows "r = Inr () \<longleftrightarrow> (\<forall>quota \<in> set (c_quotas (snap w)). consulted C (snap w) namespace quota \<longrightarrow>
      within_limits amount (usage_in amount (snap w) (in_scope C (snap w) quota)) requests
        (fst (calculateCurrentLimits ovf Q quota)))"
  using assms by (rule available_quota_control.ValidateQuota_decides)

theorem admission_decides_the_limits_witness:
  "\<not> within_limits fst (usage_in fst (mem_cluster (quota_world [list_quota [''team-a''] [(''tickets'', 2)] []]))
      (in_scope mem_client (mem_cluster (quota_world [list_quota [''team-a''] [(''tickets'', 2)] []]))
        (list_quota [''team-a''] [(''tickets'', 2)] []))) (Some [(''tickets'', (nano, DecimalSI))])
      (fst (calculateCurrentLimits 0 exact_ops (list_quota [''team-a''] [(''tickets'', 2)] [])))"
proof -
  let ?q = "list_quota [''team-a''] [(''tickets'', 2)] []" and ?req = "Some [(''tickets'', (nano, DecimalSI))]"
  let ?w = "quota_world [?q]"
  let ?r = "run_state (ValidateQuota 0 mem_client exact_ops ''team-a'' ?req) ?w"
  have full: "isl (fst ?r)" by code_simp
  have run: "?r = (fst ?r, snd ?r)" by simp
  have quotas: "c_quotas (mem_cluster ?w) = [?q]" by (simp add: mem_cluster_def quota_world_def)
  have "\<exists>n \<in> set (c_namespaces (mem_cluster ?w)). Name (namespace_meta n) = ''team-a''" by code_simp
  moreover have "countable_cluster (mem_cluster ?w)" "gm_wf ?req" "scope_distinct ?q" "gm_wf (Hard (quota_spec ?q))"
    "consulted mem_client (mem_cluster ?w) ''team-a'' ?q"
    by code_simp+
  ultimately show ?thesis
    using admission_decides_the_limits [OF memx.available_quota_control_axioms run] full by (auto simp: quotas)
qed

text \<open>
  C18. A reconciliation records what it measured. For a live quota with its finalizer, once the
  usage is measured the status written has the current limits as \<open>hard\<close>, the exact usage as
  \<open>used\<close>, and the reason \<open>Exceeded\<close> exactly when some used resource is above its limit.
\<close>

theorem reconcile_records_the_measurement:
  assumes "quota_control C snap Q amount"
    and "run_state (reconcile_quota ovf C Q quota) w = (r, w')"
    and "DeletionTimestamp (quota_meta quota) = None" "ContainsFinalizer C (quota_meta quota) QuotaFinalizerName"
    and "run_state (calculateResourceUsage C Q quota) w = (Inr u, w1)"
    and "scope_distinct quota" "countable_cluster (snap w)" "gm_wf (Hard (quota_spec quota))"
  shows "\<exists>q' reason message. (r, w') = run_state (updateQuotaStatus C q' reason message) w1 \<and>
     reason = (if within_limits amount (usage_in amount (snap w) (in_scope C (snap w) quota)) gm_make
                    (fst (calculateCurrentLimits ovf Q quota)) then ''Enforced'' else ''Exceeded'') \<and>
     quota_meta q' = quota_meta quota \<and> quota_spec q' = quota_spec quota \<and>
     StatusHard (quota_status q') = fst (calculateCurrentLimits ovf Q quota) \<and>
     (\<forall>k. amount_at amount (Used (quota_status q')) k = usage_in amount (snap w) (in_scope C (snap w) quota) k) \<and>
     QuotaConditions (quota_status q') = QuotaConditions (quota_status quota)"
  using assms by (rule quota_control.reconcile_quota_measures)

theorem reconcile_records_the_measurement_witness:
  "\<exists>q' message w1. run_state (reconcile_quota 0 mem_client exact_ops (list_quota [''team-a''] [(''tickets'', 1)] []))
       (quota_world [list_quota [''team-a''] [(''tickets'', 1)] []]) =
     run_state (updateQuotaStatus mem_client q' ''Exceeded'' message) w1 \<and>
     amount_at fst (Used (quota_status q')) ''tickets'' = 2 * nano"
proof -
  let ?q = "list_quota [''team-a''] [(''tickets'', 1)] []"
  let ?w = "quota_world [?q]"
  let ?r = "run_state (reconcile_quota 0 mem_client exact_ops ?q) ?w"
  let ?u = "run_state (calculateResourceUsage mem_client exact_ops ?q) ?w"
  let ?used = "usage_in fst (mem_cluster ?w) (in_scope mem_client (mem_cluster ?w) ?q)"
  let ?limits = "fst (calculateCurrentLimits 0 exact_ops ?q)"
  have run: "?r = (fst ?r, snd ?r)" by simp
  have "\<not> isl (fst ?u)" by code_simp
  then have use: "?u = (Inr (projr (fst ?u)), snd ?u)" by (simp add: prod_eq_iff)
  have live: "DeletionTimestamp (quota_meta ?q) = None" "ContainsFinalizer mem_client (quota_meta ?q) QuotaFinalizerName"
    "scope_distinct ?q" "countable_cluster (mem_cluster ?w)" "gm_wf (Hard (quota_spec ?q))"
    by code_simp+
  have amt: "?used ''tickets'' = 2 * nano" by code_simp
  have "gm_get ?limits ''tickets'' = Some (nano, DecimalSI)" by code_simp
  then have over: "\<not> within_limits fst ?used gm_make ?limits"
    unfolding within_limits_def using amt by (intro notI) (drule spec [of _ "''tickets''"], simp)
  from reconcile_records_the_measurement [OF memx.quota_control_axioms, OF run live(1,2) use live(3-5)]
  obtain q' message where "(fst ?r, snd ?r) = run_state (updateQuotaStatus mem_client q' ''Exceeded'' message) (snd ?u)"
    "amount_at fst (Used (quota_status q')) ''tickets'' = ?used ''tickets''"
    using over by auto
  then have "?r = run_state (updateQuotaStatus mem_client q' ''Exceeded'' message) (snd ?u) \<and>
      amount_at fst (Used (quota_status q')) ''tickets'' = 2 * nano"
    using amt by simp
  then show ?thesis by blast
qed

text \<open>
  C33. A whole-number multiplier scales limits exactly. When the first time window's multiplier
  is written as a whole number \<open>n\<close>, every limit with a positive whole value \<open>v\<close> becomes \<open>v * n\<close>, for
  products below \<open>2 ^ 53\<close>; the window's schedule plays no part.
\<close>

theorem whole_multipliers_scale_exactly:
  assumes "quantity_laws Q amount"
    and "TimeWindows (quota_spec quota) = win # wins" "Multiplier win = show_nat n" "0 < n"
    and "gm_get (Hard (quota_spec quota)) r = Some limit" "amount limit = v * nano" "0 < v" "v * int n < 2 ^ 53"
  shows "\<exists>limit'. gm_get (fst (calculateCurrentLimits ovf Q quota)) r = Some limit' \<and> amount limit' = v * int n * nano"
proof -
  obtain f where f: "ParseFloat (show_nat n) = Some f" "is_positive f" "scale_int ovf v f = of_int (v * int n)"
    using scale_int_whole [OF assms(7,4,8)] by blast
  have n: "v * 1 \<le> v * int n" using assms(4,7) by (intro mult_left_mono) simp_all
  have vn: "0 < v * int n" using assms(4,7) by simp
  have "(amount limit + (nano - 1)) div nano = v" using assms(6) by simp
  moreover have "0 \<le> amount limit" using assms(6,7) by simp
  ultimately have val: "sint (q_value Q limit) = v"
    using quantity_laws.value_round [OF assms(1), of limit] n assms(8) by simp
  have "active_multiplier quota = Some (win, f)"
    using assms(2,3) f by (simp add: active_multiplier_def getActiveTimeWindow_def)
  then have "gm_get (fst (calculateCurrentLimits ovf Q quota)) r = Some (q_new Q (of_int (v * int n)) (q_format Q limit))"
    using assms(5,7) val f(3) by (simp add: limits_get scale_limit_def)
  moreover have "sint (of_int (v * int n) :: int64) = v * int n"
    by (rule sint_int64_of_int) (rule order_trans [OF _ less_imp_le [OF vn]], simp, rule less_trans [OF assms(8)], simp)
  ultimately show ?thesis using quantity_laws.amount_new [OF assms(1)] by simp
qed

theorem whole_multipliers_scale_exactly_witness:
  "\<exists>limit'. gm_get (fst (calculateCurrentLimits 0 exact_ops
       (list_quota [] [(''tickets'', 20)] [\<lparr>WindowName = ''night'', WindowSchedule = ''never'', Multiplier = show_nat 3\<rparr>])))
       ''tickets'' = Some limit' \<and> fst limit' = 20 * int 3 * nano"
proof -
  let ?win = "\<lparr>WindowName = ''night'', WindowSchedule = ''never'', Multiplier = show_nat 3\<rparr>"
  let ?q = "list_quota [] [(''tickets'', 20)] [?win]"
  have "TimeWindows (quota_spec ?q) = [?win]" "Multiplier ?win = show_nat 3"
    "gm_get (Hard (quota_spec ?q)) ''tickets'' = Some (20 * nano, DecimalSI)"
    by (simp_all add: list_quota_def)
  from whole_multipliers_scale_exactly [OF exact.quantity_laws_axioms this(1,2) _ this(3), of 20 0] show ?thesis by simp
qed

text \<open>
  \<open>Exceeded\<close> is never cleared. Once a quota's condition \<open>QuotaExceeded\<close> is true, every
  sequence of status updates, whatever their reasons, leaves the condition as it is.
\<close>

theorem exceeded_condition_is_never_cleared:
  assumes "find_condition QuotaExceeded (QuotaConditions (quota_status quota)) = Some c" "CondStatus c = ConditionTrue"
  shows "find_condition QuotaExceeded (QuotaConditions (quota_status
     (fold (\<lambda>(now, reason, message) q. q\<lparr>quota_status := quota_status_of q now reason message\<rparr>) updates quota))) = Some c"
  using assms
proof (induction updates arbitrary: quota)
  case (Cons u us)
  obtain now reason message where u: "u = (now, reason, message)" by (metis prod_cases3)
  from exceeded_stays [OF Cons.prems] Cons.IH [of "quota\<lparr>quota_status := quota_status_of quota now reason message\<rparr>"] Cons.prems(2)
  show ?case by (simp add: u)
qed simp

theorem exceeded_condition_is_never_cleared_witness:
  "map_option CondStatus (find_condition QuotaExceeded (QuotaConditions (quota_status
     (fold (\<lambda>(now, reason, message) q. q\<lparr>quota_status := quota_status_of q now reason message\<rparr>)
       [(5, ''Enforced'', ''fine''), (9, ''Enforced'', ''fine'')]
       ((list_quota [] [] [])\<lparr>quota_status := quota_status_of (list_quota [] [] []) 1 ''Exceeded'' ''full''\<rparr>))))) =
   Some ConditionTrue"
proof -
  let ?q = "(list_quota [] [] [])\<lparr>quota_status := quota_status_of (list_quota [] [] []) 1 ''Exceeded'' ''full''\<rparr>"
  let ?c = "\<lparr>CondType = QuotaExceeded, CondStatus = ConditionTrue, LastTransitionTime = Some 1,
     CondReason = Some ''Exceeded'', CondMessage = Some ''full''\<rparr>"
  have "find_condition QuotaExceeded (QuotaConditions (quota_status ?q)) = Some ?c" by code_simp
  from exceeded_condition_is_never_cleared [OF this, of "[(5, ''Enforced'', ''fine''), (9, ''Enforced'', ''fine'')]"]
  show ?thesis by simp
qed

text \<open>
  Selector quotas fail open. When the namespace of a request cannot be read, quotas scoped
  by a namespace selector let every request pass, whatever their limits; quotas scoped by an
  object selector never restrict admission at all.
\<close>

theorem selector_quotas_fail_open:
  assumes "run_state (ListQuotas C everything) w = (Inr qs, w1)"
    and "\<And>quota. quota \<in> set qs \<Longrightarrow>
      ScopeType (Scope (quota_spec quota)) \<in> {NamespaceSelectorScope, ObjectSelectorScope}"
    and "\<And>v. \<exists>e v'. run_state (GetNamespace C namespace) v = (Inl e, v') \<and> v' = v"
  shows "run_state (ValidateQuota ovf C Q namespace requests) w = (Inr (), w1)"
proof -
  have apply_no: "run_state (doesQuotaApply C quota namespace) v = (False, v)" if "quota \<in> set qs" for quota v
    using assms(2) [OF that] assms(3) [of v] by (auto simp: doesQuotaApply_def)
  have "run_state (for_each (check_quota ovf C Q namespace requests) qs') v = (Inr (), v)" if "set qs' \<subseteq> set qs" for qs' v
    using that by (induction qs' arbitrary: v) (auto simp: run_on_ok check_quota_def apply_no)
  with assms(1) show ?thesis by (simp add: ValidateQuota_def run_on_ok)
qed

definition gold_quota :: "exact quota" where
  "gold_quota = (list_quota [] [(''tickets'', 0)] [])\<lparr>quota_spec :=
     (quota_spec (list_quota [] [(''tickets'', 0)] []))\<lparr>Scope :=
       \<lparr>ScopeType = NamespaceSelectorScope,
        NamespaceSelector = Some \<lparr>MatchLabels = Some [(''tier'', ''gold'')], MatchExpressions = []\<rparr>,
        Namespaces = [], ObjectSelector = None\<rparr>\<rparr>\<rparr>"

text \<open>An API that cannot read namespaces, and a quota that allows no tickets in gold namespaces.\<close>

theorem selector_quotas_fail_open_witness:
  "fst (run_state (ValidateQuota 0 (mem_client\<lparr>GetNamespace := \<lambda>nm. State (\<lambda>w. (Inl conflict, w))\<rparr>) exact_ops
     ''team-a'' (Some [(''tickets'', (nano, DecimalSI))])) (quota_world [gold_quota])) = Inr () \<and>
   isl (fst (run_state (ValidateQuota 0 mem_client exact_ops
     ''team-a'' (Some [(''tickets'', (nano, DecimalSI))])) (quota_world [gold_quota])))"
proof
  let ?C = "mem_client\<lparr>GetNamespace := \<lambda>nm. State (\<lambda>w. (Inl conflict, w))\<rparr>"
  have "run_state (ListQuotas ?C everything) (quota_world [gold_quota]) = (Inr [gold_quota], quota_world [gold_quota])"
    by (simp add: mem_client_def quota_world_def store_list_def)
  moreover have "ScopeType (Scope (quota_spec gold_quota)) = NamespaceSelectorScope" by (simp add: gold_quota_def)
  ultimately show "fst (run_state (ValidateQuota 0 ?C exact_ops ''team-a'' (Some [(''tickets'', (nano, DecimalSI))]))
      (quota_world [gold_quota])) = Inr ()"
    using selector_quotas_fail_open [of ?C "quota_world [gold_quota]" "[gold_quota]" "quota_world [gold_quota]" "''team-a''"]
    by simp
  show "isl (fst (run_state (ValidateQuota 0 mem_client exact_ops
     ''team-a'' (Some [(''tickets'', (nano, DecimalSI))])) (quota_world [gold_quota])))" by code_simp
qed

end
