(* ===== verification/GoDate.thy ===== *)
theory GoDate
  imports GoTime
begin

text \<open>
  Civil dates and the two functions on RFC 3339 text the webhooks call: \<open>t.Format(time.RFC3339)\<close>
  and \<open>time.Parse(time.RFC3339, s)\<close>. The parser is Go's layout-driven one: it accepts a
  one-digit hour, a fraction after the seconds (with a point or a comma) and a zone offset of
  up to 24:60. A time is nanoseconds since 1970 UTC; formatting needs the offset of the
  zone, in seconds.
\<close>

section \<open>Civil dates\<close>

definition is_leap :: "int \<Rightarrow> bool" where
  "is_leap y \<longleftrightarrow> y mod 4 = 0 \<and> (y mod 100 \<noteq> 0 \<or> y mod 400 = 0)"

definition leaps_before :: "int \<Rightarrow> int" where
  "leaps_before y = (y - 1) div 4 - (y - 1) div 100 + (y - 1) div 400"

text \<open>The day number of January 1, counted from 1970.\<close>

definition year_start :: "int \<Rightarrow> int" where
  "year_start y = 365 * (y - 1970) + leaps_before y - 477"

definition month_lengths :: "int \<Rightarrow> int list" where
  "month_lengths y = [31, if is_leap y then 29 else 28, 31, 30, 31, 30, 31, 31, 30, 31, 30, 31]"

definition days_in :: "int \<Rightarrow> int \<Rightarrow> int" where
  "days_in m y = month_lengths y ! nat (m - 1)"

definition day_number :: "int \<Rightarrow> int \<Rightarrow> int \<Rightarrow> int" where
  "day_number y m d = year_start y + sum_list (take (nat (m - 1)) (month_lengths y)) + d - 1"

text \<open>The inverse: an estimate of the year, corrected by one, then the months in turn.\<close>

definition year_of :: "int \<Rightarrow> int" where
  "year_of n =
     (let y = 1970 + n * 400 div 146097 in
      if n < year_start y then y - 1 else if year_start (y + 1) \<le> n then y + 1 else y)"

fun month_of :: "int list \<Rightarrow> int \<Rightarrow> int \<Rightarrow> int \<times> int" where
  "month_of [] m r = (m, r)"
| "month_of (l # ls) m r = (if r < l \<or> ls = [] then (m, r) else month_of ls (m + 1) (r - l))"

text \<open>Year, month and day of a day number.\<close>

definition civil :: "int \<Rightarrow> int \<times> int \<times> int" where
  "civil n =
     (let y = year_of n in
      case month_of (month_lengths y) 1 (n - year_start y) of (m, r) \<Rightarrow> (y, m, r + 1))"

section \<open>Formatting\<close>

text \<open>\<open>appendInt\<close>: decimal digits, padded with zeros to a width.\<close>

definition pad_int :: "nat \<Rightarrow> int \<Rightarrow> string" where
  "pad_int w n = (let s = show_nat (nat \<bar>n\<bar>) in
     (if n < 0 then ''-'' else '''') @ replicate (w - length s) CHR ''0'' @ s)"

definition format_zone :: "int \<Rightarrow> string" where
  "format_zone offset =
     (if offset = 0 then ''Z''
      else
        let minutes = \<bar>offset\<bar> div 60 in
        (if offset < 0 \<and> minutes > 0 then ''-'' else ''+'') @ pad_int 2 (minutes div 60) @ '':'' @ pad_int 2 (minutes mod 60))"

definition FormatRFC3339 :: "int \<Rightarrow> int \<Rightarrow> string" where
  "FormatRFC3339 offset t =
     (let secs = t div 10 ^ 9 + offset; sod = secs mod 86400 in
      case civil (secs div 86400) of (y, m, d) \<Rightarrow>
        pad_int 4 y @ ''-'' @ pad_int 2 m @ ''-'' @ pad_int 2 d @ ''T'' @
        pad_int 2 (sod div 3600) @ '':'' @ pad_int 2 (sod div 60 mod 60) @ '':'' @ pad_int 2 (sod mod 60) @
        format_zone offset)"

section \<open>Parsing\<close>

definition rfc3339 :: string where "rfc3339 = ''2006-01-02T15:04:05Z07:00''"

text \<open>\<open>ParseError\<close>: cannot parse one element, or another message.\<close>

definition cannot_parse :: "string \<Rightarrow> string \<Rightarrow> string \<Rightarrow> go_error" where
  "cannot_parse orig element value = Errorf (''parsing time '' @ go_quote orig @ '' as '' @ go_quote rfc3339 @
     '': cannot parse '' @ go_quote value @ '' as '' @ go_quote element)"

definition parse_message :: "string \<Rightarrow> string \<Rightarrow> go_error" where
  "parse_message orig msg = Errorf (''parsing time '' @ go_quote orig @ msg)"

definition out_of_range :: "string \<Rightarrow> string \<Rightarrow> go_error" where
  "out_of_range orig what = parse_message orig ('': '' @ what @ '' out of range'')"

text \<open>\<open>getnum\<close>: two digits, or one when the width is not fixed.\<close>

fun getnum :: "bool \<Rightarrow> string \<Rightarrow> (int \<times> string) option" where
  "getnum fixed [] = None"
| "getnum fixed [c] = (if is_digit c \<and> \<not> fixed then Some (int (digit_val c), []) else None)"
| "getnum fixed (c # d # s) =
     (if \<not> is_digit c then None
      else if is_digit d then Some (int (digit_val c) * 10 + int (digit_val d), s)
      else if fixed then None
      else Some (int (digit_val c), d # s))"

text \<open>\<open>skip\<close> of a one-character prefix of the layout.\<close>

definition skip :: "string \<Rightarrow> char \<Rightarrow> string \<Rightarrow> go_error + string" where
  "skip orig c s =
     (case s of
        d # t \<Rightarrow> if d = c then Inr t else Inl (cannot_parse orig [c] s)
      | [] \<Rightarrow> Inl (cannot_parse orig [c] s))"

definition err_bind :: "go_error + 'a \<Rightarrow> ('a \<Rightarrow> go_error + 'b) \<Rightarrow> go_error + 'b" where
  "err_bind r f = (case r of Inl e \<Rightarrow> Inl e | Inr x \<Rightarrow> f x)"

lemma err_bind_simps [simp]: "err_bind (Inl e) f = Inl e" "err_bind (Inr x) f = f x"
  by (simp_all add: err_bind_def)

text \<open>A numeric element: its layout text, whether its width is fixed, its range and the range's name.\<close>

definition parse_field :: "string \<Rightarrow> string \<Rightarrow> bool \<Rightarrow> int \<Rightarrow> int \<Rightarrow> string \<Rightarrow> string \<Rightarrow> go_error + (int \<times> string)" where
  "parse_field orig element fixed lo hi what s =
     (case getnum fixed s of
        None \<Rightarrow> Inl (cannot_parse orig element s)
      | Some (v, t) \<Rightarrow> if v < lo \<or> hi < v then Inl (out_of_range orig what) else Inr (v, t))"

definition parse_year :: "string \<Rightarrow> string \<Rightarrow> go_error + (int \<times> string)" where
  "parse_year orig s =
     (if length s \<ge> 4 \<and> list_all is_digit (take 4 s) then Inr (int (digits_val (take 4 s)), drop 4 s)
      else Inl (cannot_parse orig ''2006'' s))"

text \<open>A fraction of a second, of which nine digits count.\<close>

definition parse_fraction_seconds :: "string \<Rightarrow> int \<times> string" where
  "parse_fraction_seconds s =
     (case s of
        c # d # t \<Rightarrow>
          if c \<in> set ''.,'' \<and> is_digit d then
            let ds = takeWhile is_digit (d # t); used = take 9 ds in
            (int (digits_val used) * 10 ^ (9 - length used), dropWhile is_digit (d # t))
          else (0, s)
      | _ \<Rightarrow> (0, s))"

text \<open>The zone: the offset in seconds and the rest.\<close>

definition parse_zone :: "string \<Rightarrow> string \<Rightarrow> go_error + (int \<times> string)" where
  "parse_zone orig s =
     (if s \<noteq> [] \<and> hd s = CHR ''Z'' then Inr (0, tl s)
      else if length s < 6 \<or> s ! 3 \<noteq> CHR '':'' then Inl (cannot_parse orig ''Z07:00'' s)
      else case (getnum True (take 2 (drop 1 s)), getnum True (take 2 (drop 4 s))) of
        (Some (hr, _), mm) \<Rightarrow>
          if hr > 24 then Inl (out_of_range orig ''time zone offset hour'')
          else (case mm of
            None \<Rightarrow> Inl (cannot_parse orig ''Z07:00'' s)
          | Some (mn, _) \<Rightarrow>
              if mn > 60 then Inl (out_of_range orig ''time zone offset minute'')
              else if s ! 0 = CHR ''+'' then Inr ((hr * 60 + mn) * 60, drop 6 s)
              else if s ! 0 = CHR ''-'' then Inr (- ((hr * 60 + mn) * 60), drop 6 s)
              else Inl (cannot_parse orig ''Z07:00'' s))
      | (None, _) \<Rightarrow> Inl (cannot_parse orig ''Z07:00'' s))"

definition ParseRFC3339 :: "string \<Rightarrow> go_error + int" where
  "ParseRFC3339 s =
     err_bind (parse_year s s) (\<lambda>(y, s1).
     err_bind (skip s CHR ''-'' s1) (\<lambda>s2.
     err_bind (parse_field s ''01'' True 1 12 ''month'' s2) (\<lambda>(m, s3).
     err_bind (skip s CHR ''-'' s3) (\<lambda>s4.
     err_bind (parse_field s ''02'' True 0 99 ''day'' s4) (\<lambda>(d, s5).
     err_bind (skip s CHR ''T'' s5) (\<lambda>s6.
     err_bind (parse_field s ''15'' False 0 23 ''hour'' s6) (\<lambda>(h, s7).
     err_bind (skip s CHR '':'' s7) (\<lambda>s8.
     err_bind (parse_field s ''04'' True 0 59 ''minute'' s8) (\<lambda>(mi, s9).
     err_bind (skip s CHR '':'' s9) (\<lambda>s10.
     err_bind (parse_field s ''05'' True 0 59 ''second'' s10) (\<lambda>(sec, s11).
     case parse_fraction_seconds s11 of (nsec, s12) \<Rightarrow>
     err_bind (parse_zone s s12) (\<lambda>(offset, s13).
       if s13 \<noteq> [] then Inl (parse_message s ('': extra text: '' @ go_quote s13))
       else if d < 1 \<or> days_in m y < d then Inl (out_of_range s ''day'')
       else Inr ((day_number y m d * 86400 + h * 3600 + mi * 60 + sec - offset) * 10 ^ 9 + nsec)))))))))))))"

section \<open>Dates are inverted\<close>

lemma div_between: "0 < k \<Longrightarrow> k * (x div k) \<le> x \<and> x < k * (x div k) + k" for x k :: int
  using pos_mod_sign [of k x] pos_mod_bound [of k x] mult_div_mod_eq [of k x] by linarith

lemma div_step: "0 < k \<Longrightarrow> y div k - (y - 1) div k = (if y mod k = 0 then 1 else 0)" for y k :: int
proof -
  assume k: "0 < k"
  note y = mult_div_mod_eq [of k y, symmetric]
  have r: "0 \<le> y mod k" "y mod k < k" using k by simp_all
  show ?thesis
  proof (cases "y mod k = 0")
    case True
    with y have "y - 1 = k * (y div k - 1) + (k - 1)" by (simp add: right_diff_distrib)
    from int_div_pos_eq [OF this] k True show ?thesis by simp
  next
    case False
    with y r have "y - 1 = k * (y div k) + (y mod k - 1)" by simp
    from int_div_pos_eq [OF this] r False show ?thesis by simp
  qed
qed

lemma leaps_step: "leaps_before (y + 1) - leaps_before y = (if is_leap y then 1 else 0)"
proof -
  have "100 dvd y" if "400 dvd y" using that by (rule dvd_trans [rotated]) simp
  moreover have "4 dvd y" if "100 dvd y" using that by (rule dvd_trans [rotated]) simp
  ultimately have m: "y mod 400 = 0 \<Longrightarrow> y mod 100 = 0" "y mod 100 = 0 \<Longrightarrow> y mod 4 = 0"
    by (simp_all add: dvd_eq_mod_eq_0)
  have "leaps_before (y + 1) - leaps_before y =
      (y div 4 - (y - 1) div 4) - (y div 100 - (y - 1) div 100) + (y div 400 - (y - 1) div 400)"
    by (simp add: leaps_before_def)
  also have "\<dots> = (if y mod 4 = 0 then 1 else 0) - (if y mod 100 = 0 then 1 else 0) + (if y mod 400 = 0 then 1 else 0)"
    by (simp only: div_step [of 4 y, simplified] div_step [of 100 y, simplified] div_step [of 400 y, simplified])
  also have "\<dots> = (if is_leap y then 1 else 0)"
    using m by (cases "y mod 4 = 0"; cases "y mod 100 = 0"; cases "y mod 400 = 0") (simp_all only: is_leap_def, simp_all)
  finally show ?thesis .
qed

lemma month_lengths_sum: "sum_list (month_lengths y) = year_start (y + 1) - year_start y"
  using leaps_step [of y] by (auto simp: month_lengths_def year_start_def split: if_splits)

lemma leaps_bounds: "97 * (y - 1) - 699 \<le> 400 * leaps_before y" "400 * leaps_before y \<le> 97 * (y - 1) + 396"
proof -
  define a b c where abc: "a = (y - 1) div 4" "b = (y - 1) div 100" "c = (y - 1) div 400"
  have "4 * a \<le> y - 1" "y - 1 < 4 * a + 4" "100 * b \<le> y - 1" "y - 1 < 100 * b + 100" "400 * c \<le> y - 1" "y - 1 < 400 * c + 400"
    using div_between [of _ "y - 1"] by (simp_all add: abc)
  then have "97 * (y - 1) - 699 \<le> 400 * (a - b + c) \<and> 400 * (a - b + c) \<le> 97 * (y - 1) + 396" by simp
  then show "97 * (y - 1) - 699 \<le> 400 * leaps_before y" "400 * leaps_before y \<le> 97 * (y - 1) + 396"
    unfolding leaps_before_def abc [symmetric] by blast+
qed

lemma year_of_bounds: "year_start (year_of n) \<le> n" "n < year_start (year_of n + 1)"
proof -
  define q where "q = n * 400 div 146097"
  have q: "146097 * q \<le> 400 * n" "400 * n < 146097 * (q + 1)"
    using div_between [of 146097 "n * 400"] by (simp_all add: q_def)
  have lo: "146097 * (y - 1970) - 506 \<le> 400 * year_start y" for y
    using leaps_bounds(1) [of y] by (simp add: year_start_def algebra_simps)
  have hi: "400 * year_start y \<le> 146097 * (y - 1970) + 589" for y
    using leaps_bounds(2) [of y] by (simp add: year_start_def algebra_simps)
  have "year_start (1970 + q - 1) \<le> n" using hi [of "1970 + q - 1"] q by (simp add: algebra_simps)
  moreover have "n < year_start (1970 + q + 1 + 1)" using lo [of "1970 + q + 1 + 1"] q by (simp add: algebra_simps)
  ultimately show "year_start (year_of n) \<le> n" "n < year_start (year_of n + 1)"
    unfolding year_of_def Let_def q_def [symmetric] by auto
qed

lemma month_of_result:
  assumes "month_of ls m r = (m', r')" "0 \<le> r" "r < sum_list ls" "ls \<noteq> []"
  shows "\<exists>i < length ls. m' = m + int i \<and> r = sum_list (take i ls) + r' \<and> 0 \<le> r' \<and> r' < ls ! i"
  using assms
proof (induction ls m r rule: month_of.induct)
  case (2 l ls m r)
  show ?case
  proof (cases "r < l \<or> ls = []")
    case True
    with 2 show ?thesis by (intro exI [of _ 0]) (auto split: if_splits)
  next
    case False
    with 2 obtain i where "i < length ls" "m' = m + 1 + int i" "r - l = sum_list (take i ls) + r'" "0 \<le> r'" "r' < ls ! i"
      by auto
    then show ?thesis by (intro exI [of _ "Suc i"]) auto
  qed
qed simp

lemma civil_correct:
  assumes "civil n = (y, m, d)"
  shows "day_number y m d = n" "1 \<le> m" "m \<le> 12" "1 \<le> d" "d \<le> days_in m y"
proof -
  from assms have y: "y = year_of n" and mo: "month_of (month_lengths y) 1 (n - year_start y) = (m, d - 1)"
    by (auto simp: civil_def Let_def split: prod.splits)
  have len: "length (month_lengths y) = 12" by (simp add: month_lengths_def)
  from month_of_result [OF mo] year_of_bounds [of n] month_lengths_sum [of y] len
  obtain i where i: "i < 12" "m = 1 + int i" "n - year_start y = sum_list (take i (month_lengths y)) + (d - 1)"
    "0 \<le> d - 1" "d - 1 < month_lengths y ! i"
    unfolding y by fastforce
  then show "day_number y m d = n" "1 \<le> m" "m \<le> 12" "1 \<le> d" "d \<le> days_in m y"
    by (auto simp: day_number_def days_in_def)
qed

section \<open>A formatted time is read back\<close>

lemma digit_char_0: "digit_char 0 = CHR ''0''"
  by code_simp

lemma replicate_digits: "replicate 2 x = [x, x]" "replicate 3 x = [x, x, x]"
  by (simp_all add: numeral_eq_Suc)

lemma pad_2: "0 \<le> n \<Longrightarrow> n < 100 \<Longrightarrow> pad_int 2 n = [digit_char (nat n div 10), digit_char (nat n mod 10)]"
  by (auto simp: pad_int_def Let_def show_nat.simps [of "nat n"] show_nat.simps [of "nat n div 10"] digit_char_0)

lemma getnum_pad:
  assumes "0 \<le> n" "n < 100"
  shows "getnum fixed (pad_int 2 n @ s) = Some (n, s)"
proof -
  have "nat n div 10 < 10" using assms by auto
  moreover have "int (nat n div 10) * 10 + int (nat n mod 10) = n"
    using assms by (metis div_mult_mod_eq int_nat_eq of_nat_add of_nat_mult of_nat_numeral)
  ultimately show ?thesis using digit_char_props [of "nat n div 10"] digit_char_props [of "nat n mod 10"]
    by (simp add: pad_2 [OF assms])
qed

lemma parse_field_pad:
  "0 \<le> n \<Longrightarrow> n < 100 \<Longrightarrow> lo \<le> n \<Longrightarrow> n \<le> hi \<Longrightarrow> parse_field orig el fixed lo hi what (pad_int 2 n @ s) = Inr (n, s)"
  by (simp add: parse_field_def getnum_pad)

lemma pad_4:
  assumes "0 \<le> n" "n < 10000"
  shows "pad_int 4 n = map digit_char [nat n div 1000, nat n div 100 mod 10, nat n div 10 mod 10, nat n mod 10]"
proof -
  have d: "nat n div 10 div 10 = nat n div 100" "nat n div 100 div 10 = nat n div 1000" by (simp_all add: div_mult2_eq [symmetric])
  have b: "nat n div 1000 < 10" using assms by auto
  have "nat n < 10 \<Longrightarrow> nat n div 10 = 0" "nat n < 100 \<Longrightarrow> nat n div 100 = 0" "nat n < 1000 \<Longrightarrow> nat n div 1000 = 0" by auto
  with assms b show ?thesis
    by (auto simp: pad_int_def Let_def show_nat.simps [of "nat n"] show_nat.simps [of "nat n div 10"]
        show_nat.simps [of "nat n div 100"] show_nat.simps [of "nat n div 1000"] d digit_char_0 replicate_digits)
qed

lemma parse_year_pad:
  assumes "0 \<le> y" "y < 10000"
  shows "parse_year orig (pad_int 4 y @ s) = Inr (y, s)"
proof -
  have b: "nat y div 1000 < 10" using assms by auto
  let ?ds = "[nat y div 1000, nat y div 100 mod 10, nat y div 10 mod 10, nat y mod 10]"
  have "digits_val (map digit_char ?ds) = nat y"
    using b digit_char_props(2) mult_div_mod_eq [of 10 "nat y"] mult_div_mod_eq [of 10 "nat y div 10"]
      mult_div_mod_eq [of 10 "nat y div 100"] div_mult2_eq [of "nat y" 10 10] div_mult2_eq [of "nat y" 100 10]
    by (simp add: digits_val_def)
  then show ?thesis using assms b digit_char_props(1)
    by (simp add: parse_year_def pad_4)
qed

lemma parse_zone_format:
  assumes "offset mod 60 = 0" "\<bar>offset\<bar> < 86400"
  shows "parse_zone orig (format_zone offset) = Inr (offset, [])"
    and "parse_fraction_seconds (format_zone offset) = (0, format_zone offset)"
proof -
  let ?min = "\<bar>offset\<bar> div 60"
  have day: "x div 60 < 24 \<and> (x div 60 * 60 + x mod 60) = x" if "60 * x < 86400" for x :: int
  proof -
    have "x div 60 * 60 + x mod 60 = x" by simp
    moreover have "x div 60 < 24"
    proof (rule ccontr)
      assume "\<not> x div 60 < 24"
      with div_between [of 60 x] that show False by linarith
    qed
    ultimately show ?thesis by blast
  qed
  obtain h mn where hm: "h = ?min div 60" "mn = ?min mod 60" by blast
  have "60 dvd \<bar>offset\<bar>" using assms(1) by (simp add: dvd_eq_mod_eq_0 [symmetric])
  then have abs: "?min * 60 = \<bar>offset\<bar>" by simp
  with assms(2) day [of ?min] have m: "0 \<le> h" "h < 24" "0 \<le> mn" "mn < 60" "(h * 60 + mn) * 60 = \<bar>offset\<bar>"
    unfolding hm by (simp_all add: pos_imp_zdiv_nonneg_iff mult.commute)
  have fz: "format_zone offset = (if offset < 0 then CHR ''-'' else CHR ''+'') # pad_int 2 h @ '':'' @ pad_int 2 mn"
    if "offset \<noteq> 0"
  proof -
    have "?min > 0" using abs that by linarith
    with that show ?thesis by (simp add: format_zone_def Let_def hm)
  qed
  show "parse_fraction_seconds (format_zone offset) = (0, format_zone offset)"
    by (cases "offset = 0") (auto simp: fz parse_fraction_seconds_def format_zone_def Let_def split: list.split)
  show "parse_zone orig (format_zone offset) = Inr (offset, [])"
  proof (cases "offset = 0")
    case False
    have g: "getnum True (pad_int 2 h) = Some (h, [])" "getnum True (pad_int 2 mn) = Some (mn, [])"
      using getnum_pad [of h True "[]"] getnum_pad [of mn True "[]"] m by simp_all
    obtain h1 h2 m1 m2 where p: "pad_int 2 h = [h1, h2]" "pad_int 2 mn = [m1, m2]"
      using m by (simp add: pad_2)
    show ?thesis using m g unfolding fz [OF False] p by (simp add: parse_zone_def)
  qed (simp add: format_zone_def parse_zone_def)
qed

lemma skip_cons [simp]: "skip orig c (c # s) = Inr s"
  by (simp add: skip_def)

lemma parse_parts:
  assumes str: "str = pad_int 4 y @ CHR ''-'' # pad_int 2 m @ CHR ''-'' # pad_int 2 d @ CHR ''T'' #
      pad_int 2 h @ CHR '':'' # pad_int 2 mi @ CHR '':'' # pad_int 2 sec @ format_zone offset"
    and "0 \<le> y" "y < 10000" "1 \<le> m" "m \<le> 12" "1 \<le> d" "d \<le> days_in m y" "0 \<le> h" "h \<le> 23" "0 \<le> mi" "mi \<le> 59"
    "0 \<le> sec" "sec \<le> 59" "offset mod 60 = 0" "\<bar>offset\<bar> < 86400"
  shows "ParseRFC3339 str = Inr ((day_number y m d * 86400 + h * 3600 + mi * 60 + sec - offset) * 10 ^ 9)"
proof -
  have "days_in m y \<le> 31" using assms(4,5)
    by (auto simp: days_in_def month_lengths_def nth_Cons split: nat.split)
  then have d: "0 \<le> d" "d < 100" "d \<le> 99" "\<not> d < 1" "\<not> days_in m y < d" using assms(6,7) by linarith+
  have 1: "parse_year str str = Inr (y, CHR ''-'' # pad_int 2 m @ CHR ''-'' # pad_int 2 d @ CHR ''T'' #
      pad_int 2 h @ CHR '':'' # pad_int 2 mi @ CHR '':'' # pad_int 2 sec @ format_zone offset)"
    by (subst (2) str) (rule parse_year_pad [OF assms(2,3)])
  show ?thesis
    unfolding ParseRFC3339_def 1
    using assms(4-6,8-13) d by (simp add: parse_field_pad parse_zone_format [OF assms(14,15)])
qed

lemma parse_format:
  assumes "offset mod 60 = 0" "\<bar>offset\<bar> < 86400"
    and "civil ((t div 10 ^ 9 + offset) div 86400) = (y, m, d)" "0 \<le> y" "y < 10000"
  shows "ParseRFC3339 (FormatRFC3339 offset t) = Inr (t div 10 ^ 9 * 10 ^ 9)"
proof -
  define secs where "secs = t div 10 ^ 9 + offset"
  define sod where "sod = secs mod 86400"
  note c = civil_correct [OF assms(3)]
  have clock: "x div 3600 \<le> 23 \<and> x div 3600 * 3600 + x div 60 mod 60 * 60 + x mod 60 = x" if "x < 86400" for x :: int
  proof -
    have e: "x div 3600 = x div 60 div 60" by (simp add: zdiv_zmult2_eq [symmetric])
    obtain a b c d where abcd: "a = x div 60" "b = x mod 60" "c = a div 60" "d = a mod 60" by blast
    have "60 * a + b = x" "60 * c + d = a" "0 \<le> b" "0 \<le> d" by (simp_all add: abcd)
    then have "c \<le> 23 \<and> c * 3600 + d * 60 + b = x" using that by linarith
    then show ?thesis unfolding e abcd .
  qed
  have sod: "0 \<le> sod" "sod < 86400" by (simp_all add: sod_def)
  obtain h mi sec where hms: "h = sod div 3600" "mi = sod div 60 mod 60" "sec = sod mod 60" by blast
  have b: "0 \<le> h" "h \<le> 23" "0 \<le> mi" "mi \<le> 59" "0 \<le> sec" "sec \<le> 59" "h * 3600 + mi * 60 + sec = sod"
    using clock [OF sod(2)] sod(1) pos_mod_bound [of 60 sod] pos_mod_bound [of 60 "sod div 60"]
    by (simp_all add: hms pos_imp_zdiv_nonneg_iff)
  have "FormatRFC3339 offset t = pad_int 4 y @ CHR ''-'' # pad_int 2 m @ CHR ''-'' # pad_int 2 d @ CHR ''T'' #
      pad_int 2 h @ CHR '':'' # pad_int 2 mi @ CHR '':'' # pad_int 2 sec @ format_zone offset"
    unfolding FormatRFC3339_def Let_def assms(3) hms sod_def secs_def by simp
  from parse_parts [OF this assms(4,5) c(2-5) b(1-6) assms(1,2)]
  have "ParseRFC3339 (FormatRFC3339 offset t) =
      Inr ((day_number y m d * 86400 + (h * 3600 + mi * 60 + sec) - offset) * 10 ^ 9)"
    by (simp only: add.assoc)
  moreover have "day_number y m d * 86400 + sod = secs" unfolding c(1) sod_def secs_def by (simp only: div_mult_mod_eq)
  ultimately show ?thesis unfolding b(7) secs_def by simp
qed

end
