(* ===== verification/OrderWebhook.thy ===== *)
theory OrderWebhook
  imports OrderController QuotaController GoDate
begin

text \<open>
  \<open>internal/webhook/v1alpha1/order_webhook.go\<close>: the admission webhook of orders. \<open>Default\<close> fills in
  an order; \<open>ValidateCreate\<close>, \<open>ValidateUpdate\<close> and \<open>ValidateDelete\<close> return warnings and an error.
  The code comes first; then what the defaults give, what the specification check accepts,
  the requests an order stands for, and the admission decisions.
\<close>

type_synonym admission = "string list \<times> go_error option"

section \<open>The code\<close>

subsection \<open>Defaults\<close>

definition or_default :: "'a option \<Rightarrow> 'a \<Rightarrow> 'a option" where
  "or_default p d = (case p of None \<Rightarrow> Some d | Some x \<Rightarrow> Some x)"

text \<open>The lifecycle defaults, which the ticket webhook has too.\<close>

definition default_lifecycle :: "ticket_lifecycle option \<Rightarrow> ticket_lifecycle option" where
  "default_lifecycle lc =
     (let l = deref_or \<lparr>TTLSecondsAfterFinished = None, CleanupPolicy = DeleteCleanup\<rparr> lc in
      Some (if CleanupPolicy l = DeleteCleanup \<and> TTLSecondsAfterFinished l = None
            then l\<lparr>TTLSecondsAfterFinished := Some 3600\<rparr> else l))"

definition setTicketTemplateDefaults :: "'q ticket_template \<Rightarrow> 'q ticket_template" where
  "setTicketTemplateDefaults tpl =
     (let spec = template_spec tpl in
      tpl\<lparr>template_spec := spec
        \<lparr>Window := (case Window spec of
             None \<Rightarrow> Some \<lparr>StartTime = None, TimeZone = None, Duration = ''24h''\<rparr>
           | Some w \<Rightarrow> Some (if Duration w = '''' then w\<lparr>Duration := ''24h''\<rparr> else w)),
         Lifecycle := default_lifecycle (Lifecycle spec),
         SchedulerName := or_default (SchedulerName spec) ''default-scheduler''\<rparr>\<rparr>)"

definition template_labels :: "'q order \<Rightarrow> labels \<Rightarrow> labels" where
  "template_labels ord ls =
     gm_put order_uid_label (UID (order_meta ord))
       (gm_put order_label (Name (order_meta ord)) (case ls of None \<Rightarrow> gm_make | Some kvs \<Rightarrow> Some kvs))"

definition Order_Default :: "'q order \<Rightarrow> 'q order" where
  "Order_Default ord =
     (let spec = order_spec ord; tpl = setTicketTemplateDefaults (Template spec) in
      ord\<lparr>order_spec := spec
        \<lparr>Replicas := or_default (Replicas spec) 1,
         Paused := or_default (Paused spec) False,
         RefreshPolicy := (if RefreshPolicy spec = NoRefreshPolicy then OnClaimRefresh else RefreshPolicy spec),
         MinReadySeconds := or_default (MinReadySeconds spec) 0,
         Template := tpl\<lparr>template_meta := (template_meta tpl)
           \<lparr>Labels := template_labels ord (Labels (template_meta tpl))\<rparr>\<rparr>\<rparr>\<rparr>)"

subsection \<open>The specification check\<close>

text \<open>A request above its limit, in the order of the map.\<close>

definition above_limit :: "'q quantity_ops \<Rightarrow> 'q resource_list \<Rightarrow> string \<times> 'q \<Rightarrow> bool" where
  "above_limit Q limits rq =
     (case gm_get limits (fst rq) of Some limit \<Rightarrow> q_cmp Q (snd rq) limit > 0 | None \<Rightarrow> False)"

definition validateResources :: "'q quantity_ops \<Rightarrow> 'q resource_requirements \<Rightarrow> go_error + unit" where
  "validateResources Q resources =
     (if Requests resources \<noteq> None \<and> Limits resources \<noteq> None then
        (case find (above_limit Q (Limits resources)) (gm_list (Requests resources)) of
           Some (resourceName, _) \<Rightarrow> Inl (Errorf (''resource request for '' @ resourceName @ '' exceeds limit''))
         | None \<Rightarrow> Inr ())
      else Inr ())"

definition validate_window :: "window_spec \<Rightarrow> go_error + unit" where
  "validate_window w =
     err_bind
       (if Duration w = '''' then Inr ()
        else case ParseDuration (Duration w) of
          Inl e \<Rightarrow> Inl (Wrapped ''invalid window duration format: '' e)
        | Inr _ \<Rightarrow> Inr ())
       (\<lambda>_. case StartTime w of
          None \<Rightarrow> Inr ()
        | Some s \<Rightarrow>
            if s = '''' then Inr ()
            else case ParseRFC3339 s of
              Inl e \<Rightarrow> Inl (Wrapped ''invalid start time format, must be RFC3339: '' e)
            | Inr _ \<Rightarrow> Inr ())"

definition negative :: "int32 option \<Rightarrow> bool" where
  "negative p \<longleftrightarrow> (case p of None \<Rightarrow> False | Some n \<Rightarrow> sint n < 0)"

definition validate_lifecycle :: "ticket_lifecycle option \<Rightarrow> go_error + unit" where
  "validate_lifecycle lc =
     (case lc of
        None \<Rightarrow> Inr ()
      | Some l \<Rightarrow> if negative (TTLSecondsAfterFinished l) then Inl (Errorf ''TTL seconds cannot be negative'') else Inr ())"

definition validateTicketTemplate :: "'q quantity_ops \<Rightarrow> 'q ticket_template \<Rightarrow> go_error + unit" where
  "validateTicketTemplate Q tpl =
     (let spec = template_spec tpl in
      err_bind (case Window spec of None \<Rightarrow> Inr () | Some w \<Rightarrow> validate_window w) (\<lambda>_.
      err_bind (validate_lifecycle (Lifecycle spec)) (\<lambda>_.
        case Resources spec of
          None \<Rightarrow> Inr ()
        | Some res \<Rightarrow>
            (case validateResources Q res of
               Inl e \<Rightarrow> Inl (Wrapped ''resource validation failed: '' e)
             | Inr _ \<Rightarrow> Inr ()))))"

definition empty_selector :: "label_selector option \<Rightarrow> bool" where
  "empty_selector sel \<longleftrightarrow>
     (case sel of None \<Rightarrow> False | Some s \<Rightarrow> gm_len (MatchLabels s) = 0 \<and> MatchExpressions s = [])"

definition many_replicas :: string where
  "many_replicas = ''High replica count may impact cluster performance''"

definition validateOrderSpec :: "'q quantity_ops \<Rightarrow> 'q order \<Rightarrow> admission" where
  "validateOrderSpec Q ord =
     (let spec = order_spec ord in
      if negative (Replicas spec) then ([], Some (Errorf ''replicas cannot be negative''))
      else
        let warnings = (case Replicas spec of Some n \<Rightarrow> if sint n > 100 then [many_replicas] else [] | None \<Rightarrow> []) in
        if negative (MinReadySeconds spec) then (warnings, Some (Errorf ''minReadySeconds cannot be negative''))
        else
          (case validateTicketTemplate Q (Template spec) of
             Inl e \<Rightarrow> (warnings, Some (Wrapped ''ticket template validation failed: '' e))
           | Inr _ \<Rightarrow>
               if empty_selector (Selector spec)
               then (warnings, Some (Errorf ''selector cannot be empty when specified''))
               else (warnings, None)))"

definition validateImmutableFields :: "'q order \<Rightarrow> 'q order \<Rightarrow> admission" where
  "validateImmutableFields oldOrder newOrder =
     ((case (Selector (order_spec oldOrder), Selector (order_spec newOrder)) of
         (Some a, Some b) \<Rightarrow>
           if gm_len (MatchLabels a) \<noteq> gm_len (MatchLabels b)
           then [''Changing selector may affect existing tickets''] else []
       | _ \<Rightarrow> []) @
      (if RefreshPolicy (order_spec oldOrder) \<noteq> RefreshPolicy (order_spec newOrder)
       then [''Changing refresh policy may affect existing ticket lifecycle''] else []),
      None)"

subsection \<open>Quotas\<close>

text \<open>What an order asks for: one order, its replicas, and the requests of its template times them.\<close>

definition order_replicas :: "'q order \<Rightarrow> int64" where
  "order_replicas ord = (case Replicas (order_spec ord) of None \<Rightarrow> 1 | Some n \<Rightarrow> of_int (sint n))"

definition reserved_name :: "string \<Rightarrow> string" where
  "reserved_name r = ''reserved.'' @ r"

definition reserve_request :: "'q quantity_ops \<Rightarrow> int64 \<Rightarrow> string \<times> 'q \<Rightarrow> 'q resource_list \<Rightarrow> 'q resource_list" where
  "reserve_request Q replicas rq requests =
     gm_put (reserved_name (fst rq)) (q_set Q (snd rq) (q_value Q (snd rq) * replicas)) requests"

definition calculateOrderResourceRequests :: "'q quantity_ops \<Rightarrow> 'q order \<Rightarrow> 'q resource_list" where
  "calculateOrderResourceRequests Q ord =
     (let replicas = order_replicas ord;
          requests = gm_put ''tickets'' (q_new Q replicas DecimalSI) (gm_put ''orders'' (q_new Q 1 DecimalSI) gm_make) in
      case Resources (template_spec (Template (order_spec ord))) of
        None \<Rightarrow> requests
      | Some res \<Rightarrow> fold (reserve_request Q replicas) (gm_list (Requests res)) requests)"

definition Order_doesQuotaApply :: "'q quota \<Rightarrow> string \<Rightarrow> bool" where
  "Order_doesQuotaApply quota namespace =
     (case ScopeType (Scope (quota_spec quota)) of
        ClusterScope \<Rightarrow> True
      | NamespaceListScope \<Rightarrow> list_ex (\<lambda>ns. ns = namespace) (Namespaces (Scope (quota_spec quota)))
      | _ \<Rightarrow> False)"

definition list_orders_tickets ::
  "('q, 'w) client \<Rightarrow> list_options \<Rightarrow> ('w, go_error + 'q order list \<times> 'q ticket list) state" where
  "list_orders_tickets C opts =
     on_ok (ListOrders C opts) (\<lambda>orders.
     on_ok (ListTickets C opts) (\<lambda>tickets. State_Monad.return (Inr (orders, tickets))))"

primrec list_orders_tickets_in ::
  "('q, 'w) client \<Rightarrow> string list \<Rightarrow> 'q order list \<times> 'q ticket list \<Rightarrow>
   ('w, go_error + 'q order list \<times> 'q ticket list) state" where
  "list_orders_tickets_in C [] acc = State_Monad.return (Inr acc)"
| "list_orders_tickets_in C (ns # nss) acc =
     on_ok (list_orders_tickets C (in_namespace ns)) (\<lambda>(os, ts).
       list_orders_tickets_in C nss (fst acc @ os, snd acc @ ts))"

definition Order_getResourcesInScope ::
  "('q, 'w) client \<Rightarrow> 'q quota \<Rightarrow> ('w, go_error + 'q order list \<times> 'q ticket list) state" where
  "Order_getResourcesInScope C quota =
     (case ScopeType (Scope (quota_spec quota)) of
        ClusterScope \<Rightarrow> list_orders_tickets C everything
      | NamespaceListScope \<Rightarrow> list_orders_tickets_in C (Namespaces (Scope (quota_spec quota))) ([], [])
      | _ \<Rightarrow> State_Monad.return (Inr ([], [])))"

definition calculateQuotaUsage ::
  "('q, 'w) client \<Rightarrow> 'q quantity_ops \<Rightarrow> 'q quota \<Rightarrow> ('w, go_error + 'q resource_list) state" where
  "calculateQuotaUsage C Q quota =
     on_ok (Order_getResourcesInScope C quota) (\<lambda>(orders, tickets).
       State_Monad.return (Inr
         (put_count Q ''tickets'' (length tickets) (put_count Q ''orders'' (length orders) gm_make))))"

definition Order_isQuotaExceeded :: "'q quantity_ops \<Rightarrow> 'q resource_list \<Rightarrow> 'q resource_list \<Rightarrow> bool" where
  "Order_isQuotaExceeded Q usage limits \<longleftrightarrow>
     list_ex (\<lambda>(r, limit). case gm_get usage r of Some used \<Rightarrow> q_cmp Q used limit > 0 | None \<Rightarrow> False)
       (gm_list limits)"

definition Order_check_quota ::
  "('q, 'w) client \<Rightarrow> 'q quantity_ops \<Rightarrow> string \<Rightarrow> 'q resource_list \<Rightarrow> 'q quota \<Rightarrow> ('w, go_error + unit) state" where
  "Order_check_quota C Q namespace requests quota =
     (if Order_doesQuotaApply quota namespace then
        on_ok (calculateQuotaUsage C Q quota) (\<lambda>usage.
          let projectedUsage = project_usage Q usage requests; limits = Hard (quota_spec quota) in
          if Order_isQuotaExceeded Q projectedUsage limits
          then State_Monad.return (Inl (quota_error Q quota projectedUsage limits))
          else State_Monad.return (Inr ()))
      else State_Monad.return (Inr ()))"

definition Order_validateAgainstQuotas ::
  "('q, 'w) client \<Rightarrow> 'q quantity_ops \<Rightarrow> string \<Rightarrow> 'q resource_list \<Rightarrow> ('w, go_error + unit) state" where
  "Order_validateAgainstQuotas C Q namespace requests =
     on_ok (ListQuotas C everything) (for_each (Order_check_quota C Q namespace requests))"

definition validateQuotaCompliance :: "('q, 'w) client \<Rightarrow> 'q quantity_ops \<Rightarrow> 'q order \<Rightarrow> ('w, go_error + unit) state" where
  "validateQuotaCompliance C Q ord =
     Order_validateAgainstQuotas C Q (Namespace (order_meta ord)) (calculateOrderResourceRequests Q ord)"

text \<open>The increase of the requests, key by key; keys that are only in the old ones do not count.\<close>

definition add_delta :: "'q quantity_ops \<Rightarrow> 'q resource_list \<Rightarrow> string \<times> 'q \<Rightarrow> 'q resource_list \<Rightarrow> 'q resource_list" where
  "add_delta Q old rq deltas =
     (case gm_get old (fst rq) of
        Some oldQuantity \<Rightarrow>
          let delta = q_sub Q (snd rq) oldQuantity in
          if q_is_zero Q delta then deltas else gm_put (fst rq) delta deltas
      | None \<Rightarrow> gm_put (fst rq) (snd rq) deltas)"

definition delta_requests :: "'q quantity_ops \<Rightarrow> 'q order \<Rightarrow> 'q order \<Rightarrow> 'q resource_list" where
  "delta_requests Q oldOrder newOrder =
     fold (add_delta Q (calculateOrderResourceRequests Q oldOrder))
       (gm_list (calculateOrderResourceRequests Q newOrder)) gm_make"

definition validateQuotaComplianceUpdate ::
  "('q, 'w) client \<Rightarrow> 'q quantity_ops \<Rightarrow> 'q order \<Rightarrow> 'q order \<Rightarrow> ('w, go_error + unit) state" where
  "validateQuotaComplianceUpdate C Q oldOrder newOrder =
     (let deltas = delta_requests Q oldOrder newOrder in
      if list_ex (\<lambda>rq. q_sign Q (snd rq) > 0) (gm_list deltas)
      then Order_validateAgainstQuotas C Q (Namespace (order_meta newOrder)) deltas
      else State_Monad.return (Inr ()))"

subsection \<open>The validator\<close>

definition Order_ValidateCreate :: "('q, 'w) client \<Rightarrow> 'q quantity_ops \<Rightarrow> 'q order \<Rightarrow> ('w, admission) state" where
  "Order_ValidateCreate C Q ord = do {
     r \<leftarrow> validateQuotaCompliance C Q ord;
     case r of
       Inl e \<Rightarrow> State_Monad.return ([], Some (Wrapped ''quota validation failed: '' e))
     | Inr _ \<Rightarrow>
         (case validateOrderSpec Q ord of
            (warnings, Some e) \<Rightarrow> State_Monad.return (warnings, Some (Wrapped ''order specification validation failed: '' e))
          | (warnings, None) \<Rightarrow> State_Monad.return ([], None))
   }"

definition Order_ValidateUpdate ::
  "('q, 'w) client \<Rightarrow> 'q quantity_ops \<Rightarrow> 'q order \<Rightarrow> 'q order \<Rightarrow> ('w, admission) state" where
  "Order_ValidateUpdate C Q oldOrder ord =
     (case validateImmutableFields oldOrder ord of
        (warnings, Some e) \<Rightarrow> State_Monad.return (warnings, Some (Wrapped ''immutable field validation failed: '' e))
      | (warnings, None) \<Rightarrow> do {
          r \<leftarrow> validateQuotaComplianceUpdate C Q oldOrder ord;
          case r of
            Inl e \<Rightarrow> State_Monad.return ([], Some (Wrapped ''quota validation failed: '' e))
          | Inr _ \<Rightarrow> State_Monad.return ([], None)
        })"

definition deletion_options :: "'q order \<Rightarrow> list_options" where
  "deletion_options ord =
     \<lparr>InNamespace = Some (Namespace (order_meta ord)), MatchingLabels = [(order_label, Name (order_meta ord))],
      MatchingLabelsSelector = None\<rparr>"

definition in_phase :: "ticket_phase \<Rightarrow> 'q ticket \<Rightarrow> bool" where
  "in_phase p t \<longleftrightarrow> Phase (ticket_status t) = p"

definition deletion_warnings :: "'q ticket list \<Rightarrow> string list" where
  "deletion_warnings tickets =
     (let activeTickets = length (filter (in_phase TicketReady) tickets);
          claimedTickets = length (filter (in_phase TicketClaimed) tickets) in
      (if activeTickets > 0
       then [''Order has '' @ show_nat activeTickets @ '' active (reserved) tickets that will be deleted''] else []) @
      (if claimedTickets > 0
       then [''Order has '' @ show_nat claimedTickets @ '' claimed tickets that will be deleted''] else []))"

definition Order_ValidateDelete :: "('q, 'w) client \<Rightarrow> 'q order \<Rightarrow> ('w, admission) state" where
  "Order_ValidateDelete C ord = do {
     r \<leftarrow> ListTickets C (deletion_options ord);
     case r of
       Inl e \<Rightarrow> State_Monad.return ([], Some (Wrapped ''failed to list tickets: '' e))
     | Inr tickets \<Rightarrow> State_Monad.return (deletion_warnings tickets, None)
   }"

section \<open>What the defaults give\<close>

lemma or_default_simps [simp]: "or_default (or_default p d) d' = or_default p d" "or_default p d \<noteq> None"
  by (simp_all add: or_default_def split: option.split)

lemma default_lifecycle_idem: "default_lifecycle (default_lifecycle lc) = default_lifecycle lc"
  by (simp add: default_lifecycle_def Let_def)

lemma template_defaults_idem: "setTicketTemplateDefaults (setTicketTemplateDefaults tpl) = setTicketTemplateDefaults tpl"
  by (simp add: setTicketTemplateDefaults_def Let_def default_lifecycle_idem split: option.split)

lemma template_labels_get:
  "gm_get (template_labels ord ls) k =
     (if k = order_uid_label then Some (UID (order_meta ord))
      else if k = order_label then Some (Name (order_meta ord)) else gm_get ls k)"
  by (cases ls) (simp_all add: template_labels_def gm_get_put gm_make_def)

lemma template_labels_idem: "template_labels ord (template_labels ord ls) = template_labels ord ls"
proof -
  let ?m = "template_labels ord ls"
  have "?m \<noteq> None" by (cases ls) (simp_all add: template_labels_def gm_make_def)
  then have "template_labels ord ?m = gm_put order_uid_label (UID (order_meta ord)) (gm_put order_label (Name (order_meta ord)) ?m)"
    by (auto simp: template_labels_def [of ord ?m])
  also have "gm_put order_label (Name (order_meta ord)) ?m = ?m"
    by (rule gm_put_present) (simp add: template_labels_get order_label_def order_uid_label_def)
  also have "gm_put order_uid_label (UID (order_meta ord)) ?m = ?m"
    by (rule gm_put_present) (simp add: template_labels_get)
  finally show ?thesis .
qed

lemma default_kept [simp]:
  "order_meta (Order_Default ord) = order_meta ord"
  "order_status (Order_Default ord) = order_status ord"
  "Selector (order_spec (Order_Default ord)) = Selector (order_spec ord)"
  by (simp_all add: Order_Default_def Let_def)

lemma template_labels_spec [simp]: "template_labels (ord\<lparr>order_spec := s\<rparr>) = template_labels ord"
  by (simp add: template_labels_def fun_eq_iff)

lemma set_template_labels [simp]:
  "template_meta (setTicketTemplateDefaults tpl) = template_meta tpl"
  "setTicketTemplateDefaults (tpl\<lparr>template_meta := m\<rparr>) = (setTicketTemplateDefaults tpl)\<lparr>template_meta := m\<rparr>"
  by (simp_all add: setTicketTemplateDefaults_def Let_def)

lemma Order_Default_idem: "Order_Default (Order_Default ord) = Order_Default ord"
  by (simp add: Order_Default_def Let_def template_defaults_idem template_labels_idem)

section \<open>What the specification check accepts\<close>

text \<open>A window whose non-empty duration and start time are in Go's and in the RFC 3339 format.\<close>

definition window_ok :: "window_spec option \<Rightarrow> bool" where
  "window_ok w \<longleftrightarrow>
     (case w of
        None \<Rightarrow> True
      | Some win \<Rightarrow>
          (Duration win = '''' \<or> \<not> isl (ParseDuration (Duration win))) \<and>
          (case StartTime win of None \<Rightarrow> True | Some s \<Rightarrow> s = '''' \<or> \<not> isl (ParseRFC3339 s)))"

definition resources_ok :: "('q \<Rightarrow> int) \<Rightarrow> 'q resource_requirements option \<Rightarrow> bool" where
  "resources_ok amount res \<longleftrightarrow>
     (case res of
        None \<Rightarrow> True
      | Some rr \<Rightarrow> \<forall>r request limit. gm_get (Requests rr) r = Some request \<longrightarrow> gm_get (Limits rr) r = Some limit \<longrightarrow>
          amount request \<le> amount limit)"

lemma validate_window_ok: "validate_window w = Inr () \<longleftrightarrow> window_ok (Some w)"
  by (auto simp: validate_window_def window_ok_def split: option.splits sum.splits)

lemma validate_lifecycle_ok:
  "validate_lifecycle lc = Inr () \<longleftrightarrow> \<not> negative (case lc of None \<Rightarrow> None | Some l \<Rightarrow> TTLSecondsAfterFinished l)"
  by (auto simp: validate_lifecycle_def negative_def split: option.splits)

context quantity_laws
begin

lemma validateResources_ok:
  assumes "gm_wf (Requests rr)"
  shows "validateResources Q rr = Inr () \<longleftrightarrow> resources_ok amount (Some rr)"
proof (cases "Requests rr = None \<or> Limits rr = None")
  case True
  then show ?thesis by (auto simp: validateResources_def resources_ok_def)
next
  case False
  have "validateResources Q rr = Inr () \<longleftrightarrow> find (above_limit Q (Limits rr)) (gm_list (Requests rr)) = None"
    using False by (simp add: validateResources_def case_prod_unfold split: option.split)
  also have "\<dots> \<longleftrightarrow> resources_ok amount (Some rr)"
    by (auto simp: gm_find_None [OF assms] resources_ok_def above_limit_def cmp_positive not_less split: option.splits)
  finally show ?thesis .
qed

end

lemma err_bind_ok: "err_bind r f = Inr y \<longleftrightarrow> (\<exists>x. r = Inr x \<and> f x = Inr y)"
  by (simp add: err_bind_def split: sum.split)

text \<open>The declarative form of the checks on a template.\<close>

definition template_ok :: "('q \<Rightarrow> int) \<Rightarrow> 'q ticket_spec \<Rightarrow> bool" where
  "template_ok amount spec \<longleftrightarrow>
     window_ok (Window spec) \<and>
     \<not> negative (case Lifecycle spec of None \<Rightarrow> None | Some l \<Rightarrow> TTLSecondsAfterFinished l) \<and>
     resources_ok amount (Resources spec)"

definition requests_wf :: "'q ticket_spec \<Rightarrow> bool" where
  "requests_wf spec \<longleftrightarrow>
     (case Resources spec of None \<Rightarrow> True | Some rr \<Rightarrow> gm_wf (Requests rr) \<and> gm_wf (Limits rr))"


context quantity_laws
begin

lemma validateTicketTemplate_ok:
  assumes "requests_wf (template_spec tpl)"
  shows "validateTicketTemplate Q tpl = Inr () \<longleftrightarrow> template_ok amount (template_spec tpl)"
proof -
  let ?spec = "template_spec tpl"
  have "(case Window ?spec of None \<Rightarrow> Inr () | Some w \<Rightarrow> validate_window w) = Inr () \<longleftrightarrow> window_ok (Window ?spec)"
    by (simp add: validate_window_ok window_ok_def [of None] split: option.split)
  moreover have "(case Resources ?spec of None \<Rightarrow> Inr () | Some res \<Rightarrow>
      (case validateResources Q res of Inl e \<Rightarrow> Inl (Wrapped ''resource validation failed: '' e) | Inr _ \<Rightarrow> Inr ())) = Inr ()
      \<longleftrightarrow> resources_ok amount (Resources ?spec)"
  proof (cases "Resources ?spec")
    case (Some res)
    with assms validateResources_ok [of res] show ?thesis
      by (cases "validateResources Q res") (auto simp: requests_wf_def)
  qed (simp add: resources_ok_def)
  ultimately show ?thesis
    unfolding validateTicketTemplate_def Let_def err_bind_ok template_ok_def by (simp add: validate_lifecycle_ok)
qed

lemma validateOrderSpec_ok:
  assumes "requests_wf (template_spec (Template (order_spec ord)))"
  shows "snd (validateOrderSpec Q ord) = None \<longleftrightarrow>
    \<not> negative (Replicas (order_spec ord)) \<and> \<not> negative (MinReadySeconds (order_spec ord)) \<and>
    template_ok amount (template_spec (Template (order_spec ord))) \<and> \<not> empty_selector (Selector (order_spec ord))"
  unfolding validateTicketTemplate_ok [OF assms, symmetric]
  by (auto simp: validateOrderSpec_def Let_def split: sum.split)

end


section \<open>The requests of an order\<close>

lemma reserved_name_simps [simp]:
  "reserved_name r = reserved_name s \<longleftrightarrow> r = s"
  "reserved_name r \<noteq> ''orders''" "reserved_name r \<noteq> ''tickets''"
  "''orders'' \<noteq> reserved_name r" "''tickets'' \<noteq> reserved_name r"
  by (simp_all add: reserved_name_def)

lemma fold_reserve:
  assumes "distinct (map fst rs)" "m \<noteq> None" "gm_wf m"
  shows "gm_wf (fold (reserve_request Q n) rs m) \<and>
    (\<forall>r. gm_get (fold (reserve_request Q n) rs m) (reserved_name r) =
      (case map_of rs r of
         Some q \<Rightarrow> Some (q_set Q q (q_value Q q * n)) | None \<Rightarrow> gm_get m (reserved_name r))) \<and>
    (\<forall>k. (\<forall>r. k \<noteq> reserved_name r) \<longrightarrow> gm_get (fold (reserve_request Q n) rs m) k = gm_get m k)"
  using assms
proof (induction rs arbitrary: m)
  case (Cons rq rs)
  obtain s q where rq: "rq = (s, q)" by fastforce
  define m' where "m' = reserve_request Q n rq m"
  have m': "m' \<noteq> None" "gm_wf m'" "gm_get m' j =
      (if j = reserved_name s then Some (q_set Q q (q_value Q q * n)) else gm_get m j)" for j
    using Cons.prems(2,3) by (auto simp: m'_def reserve_request_def gm_get_put rq simp del: not_None_eq)
  from Cons.prems(1) have d: "distinct (map fst rs)" "map_of rs s = None" by (simp_all add: rq map_of_eq_None_iff)
  have fold: "fold (reserve_request Q n) (rq # rs) m = fold (reserve_request Q n) rs m'" by (simp add: m'_def)
  from Cons.IH [OF d(1) m'(1,2)] show ?case
    unfolding fold by (simp add: m'(3) rq d(2) split: option.split)
qed auto

text \<open>Under every key, what an order asks for.\<close>

lemma order_requests_get:
  fixes Q :: "'q quantity_ops" and ord :: "'q order"
  assumes "requests_wf (template_spec (Template (order_spec ord)))"
  defines "R \<equiv> calculateOrderResourceRequests Q ord"
  shows "gm_wf R"
    and "gm_get R ''orders'' = Some (q_new Q 1 DecimalSI)"
    and "gm_get R ''tickets'' = Some (q_new Q (order_replicas ord) DecimalSI)"
    and "gm_get R (reserved_name r) = (case Resources (template_spec (Template (order_spec ord))) of
        None \<Rightarrow> None
      | Some res \<Rightarrow> map_option (\<lambda>q. q_set Q q (q_value Q q * order_replicas ord)) (gm_get (Requests res) r))"
proof -
  let ?m = "gm_put ''tickets'' (q_new Q (order_replicas ord) DecimalSI) (gm_put ''orders'' (q_new Q 1 DecimalSI) gm_make)"
  have m: "?m \<noteq> None" "gm_wf ?m" "gm_get ?m (reserved_name r) = None" for r
    by (auto simp: gm_get_put)
  have "gm_wf R \<and> gm_get R ''orders'' = Some (q_new Q 1 DecimalSI) \<and>
    gm_get R ''tickets'' = Some (q_new Q (order_replicas ord) DecimalSI) \<and>
    gm_get R (reserved_name r) = (case Resources (template_spec (Template (order_spec ord))) of
        None \<Rightarrow> None
      | Some res \<Rightarrow> map_option (\<lambda>q. q_set Q q (q_value Q q * order_replicas ord)) (gm_get (Requests res) r))" for r
  proof (cases "Resources (template_spec (Template (order_spec ord)))")
    case None
    with m show ?thesis by (auto simp: R_def calculateOrderResourceRequests_def Let_def gm_get_put)
  next
    case (Some res)
    with assms(1) have d: "distinct (map fst (gm_list (Requests res)))" by (simp add: requests_wf_def gm_wf_def)
    have R: "R = fold (reserve_request Q (order_replicas ord)) (gm_list (Requests res)) ?m"
      by (simp add: R_def calculateOrderResourceRequests_def Let_def Some)
    show ?thesis
      using fold_reserve [OF d m(1,2), of Q "order_replicas ord"] m(3)
      by (auto simp: R [symmetric] Some gm_get_put gm_get_def [of "Requests res"] split: option.split)
  qed
  then show "gm_wf R" "gm_get R ''orders'' = Some (q_new Q 1 DecimalSI)"
    "gm_get R ''tickets'' = Some (q_new Q (order_replicas ord) DecimalSI)"
    "gm_get R (reserved_name r) = (case Resources (template_spec (Template (order_spec ord))) of
        None \<Rightarrow> None
      | Some res \<Rightarrow> map_option (\<lambda>q. q_set Q q (q_value Q q * order_replicas ord)) (gm_get (Requests res) r))"
    by blast+
qed

section \<open>The increase of an update\<close>

lemma fold_add_delta:
  assumes "distinct (map fst rs)" "m \<noteq> None" "gm_wf m"
  shows "gm_wf (fold (add_delta Q old) rs m) \<and>
    (\<forall>k. gm_get (fold (add_delta Q old) rs m) k =
      (case map_of rs k of
         None \<Rightarrow> gm_get m k
       | Some q \<Rightarrow> (case gm_get old k of
             None \<Rightarrow> Some q
           | Some oq \<Rightarrow> if q_is_zero Q (q_sub Q q oq) then gm_get m k else Some (q_sub Q q oq))))"
  using assms
proof (induction rs arbitrary: m)
  case (Cons rq rs)
  obtain s q where rq: "rq = (s, q)" by fastforce
  define m' where "m' = add_delta Q old rq m"
  have m': "m' \<noteq> None" "gm_wf m'" "gm_get m' k = (if k = s then
      (case gm_get old s of None \<Rightarrow> Some q
       | Some oq \<Rightarrow> if q_is_zero Q (q_sub Q q oq) then gm_get m s else Some (q_sub Q q oq)) else gm_get m k)" for k
    using Cons.prems(2,3) by (auto simp: m'_def add_delta_def Let_def gm_get_put rq simp del: not_None_eq split: option.split)
  from Cons.prems(1) have d: "distinct (map fst rs)" "map_of rs s = None" by (simp_all add: rq map_of_eq_None_iff)
  have fold: "fold (add_delta Q old) (rq # rs) m = fold (add_delta Q old) rs m'" by (simp add: m'_def)
  from Cons.IH [OF d(1) m'(1,2)] show ?case
    unfolding fold by (simp add: m'(3) rq d(2) split: option.split)
qed auto

context quantity_laws
begin

lemma has_increase_iff:
  assumes "requests_wf (template_spec (Template (order_spec newOrder)))"
  shows "list_ex (\<lambda>rq. q_sign Q (snd rq) > 0) (gm_list (delta_requests Q oldOrder newOrder)) \<longleftrightarrow>
    (\<exists>k q. gm_get (calculateOrderResourceRequests Q newOrder) k = Some q \<and>
      amount_at amount (calculateOrderResourceRequests Q oldOrder) k < amount q)"
proof -
  let ?new = "calculateOrderResourceRequests Q newOrder" and ?old = "calculateOrderResourceRequests Q oldOrder"
  let ?d = "delta_requests Q oldOrder newOrder"
  have "distinct (map fst (gm_list ?new))" using order_requests_get(1) [OF assms] by (simp add: gm_wf_def)
  from fold_add_delta [OF this, of gm_make Q ?old]
  have wf: "gm_wf ?d" and d: "gm_get ?d k = (case gm_get ?new k of
         None \<Rightarrow> None
       | Some q \<Rightarrow> (case gm_get ?old k of
             None \<Rightarrow> Some q
           | Some oq \<Rightarrow> if q_is_zero Q (q_sub Q q oq) then None else Some (q_sub Q q oq)))" for k
    by (auto simp: delta_requests_def gm_get_def [of ?new] split: option.split)
  have "list_ex (\<lambda>rq. q_sign Q (snd rq) > 0) (gm_list ?d) \<longleftrightarrow> (\<exists>k q. gm_get ?d k = Some q \<and> amount q > 0)"
    using wf by (auto simp: list_ex_iff gm_get_def gm_wf_def sign_positive) (force dest: map_of_SomeD)+
  also have "\<dots> \<longleftrightarrow> (\<exists>k q. gm_get ?new k = Some q \<and> amount_at amount ?old k < amount q)"
    by (rule arg_cong [where f = Ex], rule ext)
      (auto simp: d amount_at_def amount_sub is_zero_iff split: option.splits)
  finally show ?thesis .
qed

end


section \<open>The admission decision\<close>

text \<open>What the webhook counts for a quota, and the quotas it consults.\<close>

definition counted :: "'q quota \<Rightarrow> object_meta \<Rightarrow> bool" where
  "counted quota m \<longleftrightarrow>
     (case ScopeType (Scope (quota_spec quota)) of
        ClusterScope \<Rightarrow> True
      | NamespaceListScope \<Rightarrow> Namespace m \<in> set (Namespaces (Scope (quota_spec quota)))
      | _ \<Rightarrow> False)"

definition counted_usage :: "'q cluster \<Rightarrow> 'q quota \<Rightarrow> string \<Rightarrow> int" where
  "counted_usage cl quota r =
     (if r = ''orders'' then int (length (filter (\<lambda>x. counted quota (order_meta x)) (c_orders cl))) * nano
      else if r = ''tickets'' then int (length (filter (\<lambda>x. counted quota (ticket_meta x)) (c_tickets cl))) * nano
      else 0)"

lemma Order_doesQuotaApply_counted: "Order_doesQuotaApply quota (Namespace m) \<longleftrightarrow> counted quota m"
  by (auto simp: Order_doesQuotaApply_def counted_def list_ex_iff split: quota_scope_type.split)

text \<open>A pair of lists that holds the selected objects.\<close>

definition pair_is :: "'q cluster \<Rightarrow> (object_meta \<Rightarrow> bool) \<Rightarrow> 'q order list \<times> 'q ticket list \<Rightarrow> bool" where
  "pair_is cl P s \<longleftrightarrow>
     mset (fst s) = filter_mset (\<lambda>x. P (order_meta x)) (mset (c_orders cl)) \<and>
     mset (snd s) = filter_mset (\<lambda>x. P (ticket_meta x)) (mset (c_tickets cl))"

context quota_server
begin

lemma list_orders_tickets_result:
  assumes "run_state (list_orders_tickets C opts) w = (r, w')"
  shows "snap w' = snap w \<and> (\<forall>s. r = Inr s \<longrightarrow> pair_is (snap w) (selects opts) s)"
proof -
  obtain r1 w1 where 1: "run_state (ListOrders C opts) w = (r1, w1)" by fastforce
  obtain r2 w2 where 2: "run_state (ListTickets C opts) w1 = (r2, w2)" by fastforce
  from assms show ?thesis
    by (cases r1; cases r2)
      (use 1 2 read_orders [OF 1] read_tickets [OF 2] in
        \<open>auto simp: list_orders_tickets_def run_on_ok pair_is_def dest: orders_listed tickets_listed\<close>)
qed

lemma list_orders_tickets_in_result:
  assumes "run_state (list_orders_tickets_in C nss acc) w = (r, w')" "pair_is (snap w) P acc" "distinct nss"
    and "\<And>m ns. ns \<in> set nss \<Longrightarrow> P m \<Longrightarrow> Namespace m \<noteq> ns"
  shows "snap w' = snap w \<and> (\<forall>s. r = Inr s \<longrightarrow> pair_is (snap w) (\<lambda>m. P m \<or> Namespace m \<in> set nss) s)"
  using assms
proof (induction nss arbitrary: acc w P)
  case (Cons ns nss)
  obtain r1 w1 where 1: "run_state (list_orders_tickets C (in_namespace ns)) w = (r1, w1)" by fastforce
  show ?case
  proof (cases r1)
    case (Inl e)
    with Cons.prems(1) 1 list_orders_tickets_result [OF 1] show ?thesis by (auto simp: run_on_ok)
  next
    case (Inr s)
    let ?P = "\<lambda>m. P m \<or> Namespace m = ns" and ?acc = "(fst acc @ fst s, snd acc @ snd s)"
    from list_orders_tickets_result [OF 1] Inr have w1: "snap w1 = snap w"
      and new: "pair_is (snap w) (\<lambda>m. Namespace m = ns) s" by auto
    have "pair_is (snap w) ?P ?acc"
      using Cons.prems(2,4) new by (auto simp: pair_is_def intro!: filter_mset_disjoint)
    moreover have "run_state (list_orders_tickets_in C nss ?acc) w1 = (r, w')"
      using Cons.prems(1) 1 by (simp add: run_on_ok Inr case_prod_unfold)
    ultimately show ?thesis
      using Cons.IH [of ?acc w1 ?P] Cons.prems(3,4) w1 by (auto simp: disj_assoc)
  qed
qed auto

lemma Order_getResourcesInScope_result:
  assumes "run_state (Order_getResourcesInScope C quota) w = (r, w')" "scope_distinct quota"
  shows "snap w' = snap w \<and> (\<forall>s. r = Inr s \<longrightarrow> pair_is (snap w) (counted quota) s)"
proof (cases "ScopeType (Scope (quota_spec quota))")
  case ClusterScope
  then show ?thesis using assms list_orders_tickets_result [of everything w r w']
    by (simp add: Order_getResourcesInScope_def counted_def [abs_def])
next
  case NamespaceListScope
  then show ?thesis using assms list_orders_tickets_in_result [of _ "([], [])" w r w' "\<lambda>_. False"]
    by (simp add: Order_getResourcesInScope_def counted_def [abs_def] pair_is_def scope_distinct_def)
qed (use assms in \<open>auto simp: Order_getResourcesInScope_def counted_def [abs_def] pair_is_def\<close>)

end

context quota_control
begin

lemma calculateQuotaUsage_result:
  assumes "run_state (calculateQuotaUsage C Q quota) w = (Inr u, w')" "scope_distinct quota" "countable_cluster (snap w)"
  shows "snap w' = snap w" "u \<noteq> None" "amount_at amount u k = counted_usage (snap w) quota k"
    "gm_get u k \<noteq> None \<longleftrightarrow> counted_usage (snap w) quota k \<noteq> 0"
proof -
  obtain r1 w1 where 1: "run_state (Order_getResourcesInScope C quota) w = (r1, w1)" by fastforce
  from assms(1) 1 obtain os ts where r1: "r1 = Inr (os, ts)"
    and u: "u = put_count Q ''tickets'' (length ts) (put_count Q ''orders'' (length os) gm_make)" and w': "w' = w1"
    by (cases r1) (auto simp: calculateQuotaUsage_def run_on_ok)
  from Order_getResourcesInScope_result [OF 1 assms(2)] r1 have s: "pair_is (snap w) (counted quota) (os, ts)"
    and w1: "snap w1 = snap w" by auto
  from s have m: "mset os = mset (filter (\<lambda>x. counted quota (order_meta x)) (c_orders (snap w)))"
    "mset ts = mset (filter (\<lambda>x. counted quota (ticket_meta x)) (c_tickets (snap w)))"
    by (simp_all add: pair_is_def)
  note len = m [THEN mset_eq_length]
  have bounds: "int (length os) < 2 ^ 63" "int (length ts) < 2 ^ 63"
    using assms(3) length_filter_le [of "\<lambda>x. counted quota (order_meta x)" "c_orders (snap w)"]
      length_filter_le [of "\<lambda>x. counted quota (ticket_meta x)" "c_tickets (snap w)"]
    unfolding len countable_cluster_def by linarith+
  show "snap w' = snap w" "u \<noteq> None" by (simp_all add: w' w1 u put_made del: not_None_eq)
  show "amount_at amount u k = counted_usage (snap w) quota k"
    using bounds by (simp add: u put_count_amount put_made counted_usage_def len del: not_None_eq)
  show "gm_get u k \<noteq> None \<longleftrightarrow> counted_usage (snap w) quota k \<noteq> 0"
    using bounds by (auto simp: u put_count_present put_made counted_usage_def len simp del: not_None_eq)
qed

lemma Order_isQuotaExceeded_eq: "Order_isQuotaExceeded = isQuotaExceeded"
  by (simp add: Order_isQuotaExceeded_def isQuotaExceeded_def fun_eq_iff)

end

context available_quota_control
begin

lemma list_orders_tickets_ok: "\<exists>s w'. run_state (list_orders_tickets C opts) w = (Inr s, w')"
proof -
  obtain os w1 where "run_state (ListOrders C opts) w = (Inr os, w1)" using orders_available by blast
  moreover obtain ts w2 where "run_state (ListTickets C opts) w1 = (Inr ts, w2)" using tickets_available by blast
  ultimately show ?thesis by (simp add: list_orders_tickets_def run_on_ok)
qed

lemma list_orders_tickets_in_ok: "\<exists>s w'. run_state (list_orders_tickets_in C nss acc) w = (Inr s, w')"
proof (induction nss arbitrary: acc w)
  case (Cons ns nss)
  obtain s w1 where "run_state (list_orders_tickets C (in_namespace ns)) w = (Inr s, w1)"
    using list_orders_tickets_ok by blast
  with Cons.IH [of "(fst acc @ fst s, snd acc @ snd s)" w1] show ?case by (simp add: run_on_ok case_prod_unfold)
qed simp

lemma calculateQuotaUsage_ok: "\<exists>u w'. run_state (calculateQuotaUsage C Q quota) w = (Inr u, w')"
proof -
  have "\<exists>s w'. run_state (Order_getResourcesInScope C quota) w = (Inr s, w')"
    using list_orders_tickets_ok list_orders_tickets_in_ok
    by (cases "ScopeType (Scope (quota_spec quota))") (simp_all add: Order_getResourcesInScope_def)
  then show ?thesis by (fastforce simp: calculateQuotaUsage_def run_on_ok)
qed

lemma Order_check_quota_result:
  assumes "run_state (Order_check_quota C Q namespace requests quota) w = (r, w')"
    and "countable_cluster (snap w)" "scope_distinct quota" "gm_wf requests" "gm_wf (Hard (quota_spec quota))"
  shows "snap w' = snap w \<and> (r = Inr () \<longleftrightarrow>
    (Order_doesQuotaApply quota namespace \<longrightarrow>
      within_limits amount (counted_usage (snap w) quota) requests (Hard (quota_spec quota))))"
proof (cases "Order_doesQuotaApply quota namespace")
  case True
  obtain u w1 where 1: "run_state (calculateQuotaUsage C Q quota) w = (Inr u, w1)" using calculateQuotaUsage_ok by blast
  note u = calculateQuotaUsage_result [OF 1 assms(3,2)]
  from exceeded_within [OF u(2,3,4) assms(4,5)] show ?thesis
    using assms(1) True 1 u(1)
    by (auto simp: Order_check_quota_def run_on_ok Let_def Order_isQuotaExceeded_eq split: if_splits)
qed (use assms(1) in \<open>auto simp: Order_check_quota_def\<close>)

lemma Order_validateAgainstQuotas_decides:
  assumes "run_state (Order_validateAgainstQuotas C Q namespace requests) w = (r, w')"
    and "countable_cluster (snap w)" "gm_wf requests"
    and "\<And>quota. quota \<in> set (c_quotas (snap w)) \<Longrightarrow> scope_distinct quota \<and> gm_wf (Hard (quota_spec quota))"
  shows "r = Inr () \<longleftrightarrow> (\<forall>quota \<in> set (c_quotas (snap w)). Order_doesQuotaApply quota namespace \<longrightarrow>
      within_limits amount (counted_usage (snap w) quota) requests (Hard (quota_spec quota)))"
  using quotas_decide [OF assms(1) [unfolded Order_validateAgainstQuotas_def],
      of "\<lambda>quota. Order_doesQuotaApply quota namespace \<longrightarrow>
        within_limits amount (counted_usage (snap w) quota) requests (Hard (quota_spec quota))"]
    Order_check_quota_result [OF _ _ _ assms(3)] assms(2,4) by metis

lemma Order_ValidateCreate_decides:
  assumes "run_state (Order_ValidateCreate C Q ord) w = ((warnings, err), w')"
    and "countable_cluster (snap w)" "requests_wf (template_spec (Template (order_spec ord)))"
    and "\<And>quota. quota \<in> set (c_quotas (snap w)) \<Longrightarrow> scope_distinct quota \<and> gm_wf (Hard (quota_spec quota))"
  shows "err = None \<longleftrightarrow> snd (validateOrderSpec Q ord) = None \<and>
    (\<forall>quota \<in> set (c_quotas (snap w)). Order_doesQuotaApply quota (Namespace (order_meta ord)) \<longrightarrow>
      within_limits amount (counted_usage (snap w) quota) (calculateOrderResourceRequests Q ord) (Hard (quota_spec quota)))"
    and "err = None \<Longrightarrow> warnings = []"
proof -
  obtain r w1 where 1: "run_state (validateQuotaCompliance C Q ord) w = (r, w1)" by fastforce
  note r = Order_validateAgainstQuotas_decides [OF 1 [unfolded validateQuotaCompliance_def] assms(2)
      order_requests_get(1) [OF assms(3)] assms(4)]
  obtain ws e where spec: "validateOrderSpec Q ord = (ws, e)" by fastforce
  from assms(1) 1 spec have "err = None \<longleftrightarrow> e = None \<and> r = Inr ()" "err = None \<longrightarrow> warnings = []"
    by (auto simp: Order_ValidateCreate_def run_simps split: sum.splits option.splits)
  with r spec show "err = None \<longleftrightarrow> snd (validateOrderSpec Q ord) = None \<and>
    (\<forall>quota \<in> set (c_quotas (snap w)). Order_doesQuotaApply quota (Namespace (order_meta ord)) \<longrightarrow>
      within_limits amount (counted_usage (snap w) quota) (calculateOrderResourceRequests Q ord) (Hard (quota_spec quota)))"
    "err = None \<Longrightarrow> warnings = []" by auto
qed

end


section \<open>The properties\<close>

text \<open>
  The order of the witnesses: tickets of a tenth of a CPU in \<open>team-a\<close>.
\<close>

definition team_order :: "int32 \<Rightarrow> exact order" where
  "team_order n =
     \<lparr>order_meta = empty_meta\<lparr>Name := ''web'', Namespace := ''team-a'', UID := ''u1''\<rparr>,
      order_spec = \<lparr>Paused = None, Replicas = Some n, RefreshPolicy = NoRefreshPolicy, MinReadySeconds = None, Selector = None,
        Template = \<lparr>template_meta = empty_meta, template_spec = ticket_spec (cpu_ticket ''team-a'' ''t'')\<rparr>\<rparr>,
      order_status = \<lparr>StatusReplicas = None, AvailableReplicas = None, UnavailableReplicas = None, TerminalReplicas = None,
        UpdatedReplicas = None, OrderObservedGeneration = None, CollisionCount = None, OrderConditions = []\<rparr>\<rparr>"

text \<open>
  C35. The defaults of an order are stable and change nothing that is given. A second run of
  \<open>Default\<close> changes nothing; the number of replicas the controller reads is the same before
  and after; the labels of the ticket template name the order; and a defaulted order passes the
  specification check exactly when the order itself does.
\<close>

theorem order_defaults_are_stable:
  assumes "quantity_laws Q amount" "requests_wf (template_spec (Template (order_spec ord)))"
  shows "Order_Default (Order_Default ord) = Order_Default ord \<and>
    desired_replicas (Order_Default ord) = desired_replicas ord \<and>
    gm_get (Labels (template_meta (Template (order_spec (Order_Default ord))))) order_label = Some (Name (order_meta ord)) \<and>
    gm_get (Labels (template_meta (Template (order_spec (Order_Default ord))))) order_uid_label = Some (UID (order_meta ord)) \<and>
    (snd (validateOrderSpec Q (Order_Default ord)) = None \<longleftrightarrow> snd (validateOrderSpec Q ord) = None)"
proof -
  let ?spec = "\<lambda>o'. template_spec (Template (order_spec o'))"
  have "\<exists>v. ParseDuration ''24h'' = Inr v" by (rule exI, code_simp)
  then have window: "window_ok (Window (?spec (Order_Default ord))) \<longleftrightarrow> window_ok (Window (?spec ord))"
    by (auto simp: Order_Default_def setTicketTemplateDefaults_def Let_def window_ok_def split: option.split)
  have ttl: "negative (case Lifecycle (?spec (Order_Default ord)) of None \<Rightarrow> None | Some l \<Rightarrow> TTLSecondsAfterFinished l) \<longleftrightarrow>
      negative (case Lifecycle (?spec ord) of None \<Rightarrow> None | Some l \<Rightarrow> TTLSecondsAfterFinished l)"
    by (auto simp: Order_Default_def setTicketTemplateDefaults_def default_lifecycle_def Let_def negative_def split: option.split)
  have rest: "Resources (?spec (Order_Default ord)) = Resources (?spec ord)"
    "negative (Replicas (order_spec (Order_Default ord))) \<longleftrightarrow> negative (Replicas (order_spec ord))"
    "negative (MinReadySeconds (order_spec (Order_Default ord))) \<longleftrightarrow> negative (MinReadySeconds (order_spec ord))"
    by (auto simp: Order_Default_def setTicketTemplateDefaults_def Let_def or_default_def negative_def split: option.split)
  have wf: "requests_wf (?spec (Order_Default ord))" using assms(2) by (simp add: requests_wf_def rest(1))
  have "desired_replicas (Order_Default ord) = desired_replicas ord"
    by (simp add: desired_replicas_def Order_Default_def Let_def or_default_def split: option.split)
  moreover have "Labels (template_meta (Template (order_spec (Order_Default ord)))) =
      template_labels ord (Labels (template_meta (Template (order_spec ord))))"
    by (simp add: Order_Default_def Let_def)
  ultimately show ?thesis
    by (simp add: Order_Default_idem template_labels_get order_label_def order_uid_label_def window ttl rest
        quantity_laws.validateOrderSpec_ok [OF assms(1,2)] quantity_laws.validateOrderSpec_ok [OF assms(1) wf] template_ok_def)
qed

theorem order_defaults_are_stable_witness:
  "snd (validateOrderSpec exact_ops (Order_Default (team_order 3))) = None \<and>
   snd (validateOrderSpec exact_ops (Order_Default (team_order (- 1)))) \<noteq> None"
proof -
  have wf: "requests_wf (template_spec (Template (order_spec (team_order n))))" for n
    by (simp add: requests_wf_def gm_wf_def team_order_def cpu_ticket_def)
  have "snd (validateOrderSpec exact_ops (team_order 3)) = None" "snd (validateOrderSpec exact_ops (team_order (- 1))) \<noteq> None"
    by code_simp+
  with order_defaults_are_stable [OF exact.quantity_laws_axioms wf [of 3]]
    order_defaults_are_stable [OF exact.quantity_laws_axioms wf [of "- 1"]]
  show ?thesis by argo
qed

text \<open>
  C9. The admission decision for a new order. With the API up, \<open>ValidateCreate\<close> accepts an order
  exactly when its replicas and ready seconds are not negative, its template has a readable
  window, a non-negative TTL and no request above its limit, its selector is not empty, and each
  cluster or listed-namespace quota that applies has room: for every limited resource that is
  counted or requested, what the webhook counts plus what the order asks for is at most the
  limit. An accepted order has no warnings. In particular an order over a limit on the number of
  orders is refused here, not created and held back later by the quota controller.
\<close>

theorem order_creation_is_decided:
  assumes "available_quota_control C snap Q amount"
    and "run_state (Order_ValidateCreate C Q ord) w = ((warnings, err), w')"
    and "countable_cluster (snap w)" "requests_wf (template_spec (Template (order_spec ord)))"
    and "\<And>quota. quota \<in> set (c_quotas (snap w)) \<Longrightarrow> scope_distinct quota \<and> gm_wf (Hard (quota_spec quota))"
  shows "(err = None \<longleftrightarrow>
      \<not> negative (Replicas (order_spec ord)) \<and> \<not> negative (MinReadySeconds (order_spec ord)) \<and>
      template_ok amount (template_spec (Template (order_spec ord))) \<and> \<not> empty_selector (Selector (order_spec ord)) \<and>
      (\<forall>quota \<in> set (c_quotas (snap w)). counted quota (order_meta ord) \<longrightarrow>
        within_limits amount (counted_usage (snap w) quota) (calculateOrderResourceRequests Q ord) (Hard (quota_spec quota)))) \<and>
    (err = None \<longrightarrow> warnings = [])"
proof -
  have "quantity_laws Q amount"
    using assms(1) by (simp add: available_quota_control_def quota_control_def)
  note spec = quantity_laws.validateOrderSpec_ok [OF this assms(4)]
  with available_quota_control.Order_ValidateCreate_decides [OF assms] show ?thesis
    by (simp add: Order_doesQuotaApply_counted)
qed

text \<open>
  The scenario of the repository's integration test on quota enforcement: a quota of one order and
  one ticket, one order in its namespace, and a second order. The test
  (\<open>test/integration/basic_workflow_test.go\<close>) expects the second one to be created; the webhook
  refuses it, because it would be the second of at most one order.
\<close>

definition numbered_order :: "string \<Rightarrow> exact order" where
  "numbered_order nm = (team_order 1)\<lparr>order_meta := (order_meta (team_order 1))\<lparr>Name := nm\<rparr>\<rparr>"

definition restrictive_quota :: "exact quota" where
  "restrictive_quota = list_quota [''team-a''] [(''orders'', 1), (''tickets'', 1)] []"

definition restricted_world :: "exact mem" where
  "restricted_world = empty_mem\<lparr>m_orders := [numbered_order ''order-1''], m_quotas := [restrictive_quota]\<rparr>"

theorem order_creation_is_decided_witness:
  "\<exists>e. snd (fst (run_state (Order_ValidateCreate mem_client exact_ops (numbered_order ''order-2'')) restricted_world)) = Some e"
proof -
  let ?o = "numbered_order ''order-2''" and ?w = restricted_world and ?q = restrictive_quota
  let ?r = "run_state (Order_ValidateCreate mem_client exact_ops ?o) ?w"
  have run: "?r = ((fst (fst ?r), snd (fst ?r)), snd ?r)" by simp
  have quotas: "c_quotas (mem_cluster ?w) = [?q]" by (simp add: mem_cluster_def restricted_world_def)
  have hyps: "countable_cluster (mem_cluster ?w)" "requests_wf (template_spec (Template (order_spec ?o)))"
    "scope_distinct ?q" "gm_wf (Hard (quota_spec ?q))" and counts: "counted ?q (order_meta ?o)"
    by code_simp+
  have "counted_usage (mem_cluster ?w) ?q ''orders'' = nano"
    "gm_get (Hard (quota_spec ?q)) ''orders'' = Some (nano, DecimalSI)"
    "gm_get (calculateOrderResourceRequests exact_ops ?o) ''orders'' = Some (nano, DecimalSI)"
    by code_simp+
  then have "\<not> within_limits fst (counted_usage (mem_cluster ?w) ?q) (calculateOrderResourceRequests exact_ops ?o)
      (Hard (quota_spec ?q))"
    by (auto simp: within_limits_def amount_at_def intro!: exI [of _ "''orders''"])
  with order_creation_is_decided [OF memx.available_quota_control_axioms, OF run hyps(1,2)] hyps(3,4) counts
  show ?thesis by (auto simp: quotas)
qed

text \<open>
  C31. Reserved amounts are rounded up per replica. For a request \<open>q\<close> of the template and \<open>n\<close>
  replicas the order asks for exactly \<open>k * n\<close> units, where \<open>k\<close> is the least whole number of units
  that is not below \<open>q\<close>: the request is rounded up before it is multiplied. The products must
  fit an \<open>int64\<close>.
\<close>

theorem reserved_requests_round_up:
  assumes "quantity_laws Q amount"
    and "Resources (template_spec (Template (order_spec ord))) = Some res" "gm_wf (Requests res)" "gm_wf (Limits res)"
    and "gm_get (Requests res) r = Some q" "0 \<le> amount q"
    and "sint (order_replicas ord) = int n" "0 < n" "(amount q + (nano - 1)) div nano * int n < 2 ^ 63"
  shows "\<exists>total k. gm_get (calculateOrderResourceRequests Q ord) (''reserved.'' @ r) = Some total \<and>
    amount total = k * nano * int n \<and> (k - 1) * nano < amount q \<and> amount q \<le> k * nano"
proof -
  let ?v = "(amount q + (nano - 1)) div nano"
  have v: "0 \<le> ?v" using assms(6) by (intro pos_imp_zdiv_nonneg_iff [THEN iffD2]) auto
  have "?v * 1 \<le> ?v * int n" using v assms(8) by (intro mult_left_mono) simp_all
  then have val: "sint (q_value Q q) = ?v" using quantity_laws.value_round [OF assms(1,6)] assms(9) by simp
  have "q_value Q q * order_replicas ord = of_int (?v * int n)"
    using int64_of_sint [of "q_value Q q"] int64_of_sint [of "order_replicas ord"] by (simp add: val assms(7))
  moreover have "sint (of_int (?v * int n) :: int64) = ?v * int n"
  proof (rule sint_int64_of_int)
    have "0 \<le> ?v * int n" using v by (intro mult_nonneg_nonneg) simp_all
    then show "- (2 ^ 63) \<le> ?v * int n" by simp
  qed (rule assms(9))
  ultimately have total: "amount (q_set Q q (q_value Q q * order_replicas ord)) = ?v * nano * int n"
    by (simp add: quantity_laws.amount_set [OF assms(1)] algebra_simps)
  have "requests_wf (template_spec (Template (order_spec ord)))" using assms(2-4) by (simp add: requests_wf_def)
  from order_requests_get(4) [OF this, of Q r] assms(2,5)
  have get: "gm_get (calculateOrderResourceRequests Q ord) (''reserved.'' @ r) =
      Some (q_set Q q (q_value Q q * order_replicas ord))"
    by (simp add: reserved_name_def)
  have "amount q \<le> ?v * nano" "?v * nano \<le> amount q + (nano - 1)"
    by (rule round_up_bounds, simp)+
  then have "(?v - 1) * nano < amount q" by (simp add: algebra_simps)
  with \<open>amount q \<le> ?v * nano\<close> show ?thesis unfolding get
    by (intro exI [of _ "q_set Q q (q_value Q q * order_replicas ord)"] exI [of _ ?v]) (simp add: total)
qed

theorem reserved_requests_round_up_witness:
  "\<exists>total. gm_get (calculateOrderResourceRequests exact_ops (team_order 10)) (''reserved.'' @ ''cpu'') = Some total \<and>
     fst total = 10 * nano"
proof -
  have res: "Resources (template_spec (Template (order_spec (team_order 10)))) =
      Some \<lparr>Requests = Some [(''cpu'', (100000000, DecimalSI))], Limits = None\<rparr>"
    by (simp add: team_order_def cpu_ticket_def)
  have "sint (order_replicas (team_order 10)) = int 10" by (simp add: order_replicas_def team_order_def)
  from reserved_requests_round_up [OF exact.quantity_laws_axioms res _ _ _ _ this, of "''cpu''" "(100000000, DecimalSI)"]
  obtain total k where total: "gm_get (calculateOrderResourceRequests exact_ops (team_order 10)) (''reserved.'' @ ''cpu'') = Some total"
    "fst total = k * nano * 10" "(k - 1) * nano < 100000000" "100000000 \<le> k * nano"
    by (auto simp: gm_wf_def)
  then have "k = 1" by simp
  with total(1,2) show ?thesis by auto
qed

text \<open>
  C34. An update is checked for increases only. When no amount the changed order asks for is
  above what the old one asked for, \<open>ValidateUpdate\<close> accepts it without reading a quota,
  whatever its specification, and without a warning, whatever has changed.
\<close>

theorem order_updates_check_increases_only:
  assumes "quantity_laws Q amount" "requests_wf (template_spec (Template (order_spec ord)))"
    and "\<And>k q. gm_get (calculateOrderResourceRequests Q ord) k = Some q \<Longrightarrow>
      amount q \<le> amount_at amount (calculateOrderResourceRequests Q oldOrder) k"
  shows "run_state (Order_ValidateUpdate C Q oldOrder ord) w = (([], None), w)"
proof -
  have "\<not> list_ex (\<lambda>rq. q_sign Q (snd rq) > 0) (gm_list (delta_requests Q oldOrder ord))"
    using quantity_laws.has_increase_iff [OF assms(1,2), of oldOrder] assms(3) by fastforce
  then have "run_state (validateQuotaComplianceUpdate C Q oldOrder ord) w = (Inr (), w)"
    by (simp add: validateQuotaComplianceUpdate_def Let_def)
  then show ?thesis by (simp add: Order_ValidateUpdate_def validateImmutableFields_def run_simps)
qed

text \<open>An order of a quota that is full, scaled to a negative number of replicas.\<close>

theorem order_updates_check_increases_only_witness:
  "run_state (Order_ValidateUpdate mem_client exact_ops (team_order 3) (team_order (- 5)))
     (quota_world [list_quota [''team-a''] [(''tickets'', 0)] []]) =
     (([], None), quota_world [list_quota [''team-a''] [(''tickets'', 0)] []]) \<and>
   snd (validateOrderSpec exact_ops (team_order (- 5))) \<noteq> None"
proof
  show "run_state (Order_ValidateUpdate mem_client exact_ops (team_order 3) (team_order (- 5)))
     (quota_world [list_quota [''team-a''] [(''tickets'', 0)] []]) =
     (([], None), quota_world [list_quota [''team-a''] [(''tickets'', 0)] []])"
  proof (rule order_updates_check_increases_only [OF exact.quantity_laws_axioms])
    have "calculateOrderResourceRequests exact_ops (team_order (- 5)) =
        Some [(''orders'', (nano, DecimalSI)), (''tickets'', (- 5 * nano, DecimalSI)), (''reserved.cpu'', (- 5 * nano, DecimalSI))]"
      "calculateOrderResourceRequests exact_ops (team_order 3) =
        Some [(''orders'', (nano, DecimalSI)), (''tickets'', (3 * nano, DecimalSI)), (''reserved.cpu'', (3 * nano, DecimalSI))]"
      by code_simp+
    then show "fst q \<le> amount_at fst (calculateOrderResourceRequests exact_ops (team_order 3)) k"
      if "gm_get (calculateOrderResourceRequests exact_ops (team_order (- 5))) k = Some q" for k q
      using that by (auto simp: amount_at_def split: if_splits)
    show "requests_wf (template_spec (Template (order_spec (team_order (- 5)))))" by code_simp
  qed
  show "snd (validateOrderSpec exact_ops (team_order (- 5))) \<noteq> None" by code_simp
qed

end
