(* ===== verification/TicketWebhook.thy ===== *)
theory TicketWebhook
  imports OrderWebhook
begin

text \<open>
  \<open>internal/webhook/v1alpha1/ticket_webhook.go\<close>: the admission webhook of tickets. The code comes
  first; then what the specification check accepts, what the defaults give, the admission
  decisions, and how the check relates to the one the order webhook makes on ticket templates.
  \<open>time.Now()\<close> is \<open>TimeNow\<close>, and the local time zone, which \<open>Format\<close> writes, is the parameter
  \<open>zone\<close>: the offset from UTC in seconds at an instant.
\<close>

section \<open>The code\<close>

subsection \<open>Defaults\<close>

definition current_time :: "('q, 'w) client \<Rightarrow> (time \<Rightarrow> int) \<Rightarrow> ('w, string) state" where
  "current_time C zone = do {
     now \<leftarrow> TimeNow C;
     State_Monad.return (FormatRFC3339 (zone now) now)
   }"

definition default_window :: "('q, 'w) client \<Rightarrow> (time \<Rightarrow> int) \<Rightarrow> window_spec option \<Rightarrow> ('w, window_spec) state" where
  "default_window C zone win = do {
     w \<leftarrow> (case win of
       None \<Rightarrow> do {
         currentTime \<leftarrow> current_time C zone;
         State_Monad.return \<lparr>StartTime = Some currentTime, TimeZone = Some ''UTC'', Duration = ''2h''\<rparr>
       }
     | Some w \<Rightarrow> State_Monad.return w);
     let w = (if Duration w = '''' then w\<lparr>Duration := ''2h''\<rparr> else w);
     w \<leftarrow> (case StartTime w of
       None \<Rightarrow> do {
         currentTime \<leftarrow> current_time C zone;
         State_Monad.return (w\<lparr>StartTime := Some currentTime\<rparr>)
       }
     | Some _ \<Rightarrow> State_Monad.return w);
     State_Monad.return (w\<lparr>TimeZone := or_default (TimeZone w) ''UTC''\<rparr>)
   }"

definition default_resources :: "'q quantity_ops \<Rightarrow> 'q resource_requirements" where
  "default_resources Q =
     \<lparr>Requests = Some [(''cpu'', q_must_parse Q ''100m''), (''memory'', q_must_parse Q ''128Mi'')], Limits = None\<rparr>"

definition Ticket_Default ::
  "('q, 'w) client \<Rightarrow> (time \<Rightarrow> int) \<Rightarrow> 'q quantity_ops \<Rightarrow> 'q ticket \<Rightarrow> ('w, 'q ticket) state" where
  "Ticket_Default C zone Q ticket =
     (let spec = ticket_spec ticket; lc = default_lifecycle (Lifecycle spec) in
      do {
        w \<leftarrow> default_window C zone (Window spec);
        State_Monad.return (ticket\<lparr>ticket_spec := spec
          \<lparr>Lifecycle := lc, Window := Some w,
           SchedulerName := or_default (SchedulerName spec) ''default-scheduler'',
           Resources := or_default (Resources spec) (default_resources Q)\<rparr>\<rparr>)
      })"

subsection \<open>The specification check\<close>

definition validateTicketResources :: "'q quantity_ops \<Rightarrow> 'q resource_requirements \<Rightarrow> go_error option" where
  "validateTicketResources Q resources =
     (case (if Requests resources \<noteq> None \<and> Limits resources \<noteq> None
            then find (above_limit Q (Limits resources)) (gm_list (Requests resources)) else None) of
        Some (resourceName, _) \<Rightarrow> Some (Errorf (''resource request for '' @ resourceName @ '' exceeds limit''))
      | None \<Rightarrow>
          (case find (\<lambda>rq. q_sign Q (snd rq) < 0) (gm_list (Requests resources)) of
             Some (resourceName, _) \<Rightarrow> Some (Errorf (''resource request for '' @ resourceName @ '' cannot be negative''))
           | None \<Rightarrow>
               (case find (\<lambda>rq. q_sign Q (snd rq) < 0) (gm_list (Limits resources)) of
                  Some (resourceName, _) \<Rightarrow> Some (Errorf (''resource limit for '' @ resourceName @ '' cannot be negative''))
                | None \<Rightarrow> None)))"

definition duration_error :: "string \<Rightarrow> go_error option" where
  "duration_error s =
     (if s = '''' then None
      else case ParseDuration s of
        Inl e \<Rightarrow> Some (Wrapped ''invalid window duration format: '' e)
      | Inr duration \<Rightarrow> if duration \<le> 0 then Some (Errorf ''window duration must be positive'') else None)"

definition past_warning :: string where
  "past_warning = ''Start time is in the past''"

definition check_start :: "('q, 'w) client \<Rightarrow> string option \<Rightarrow> ('w, admission) state" where
  "check_start C start =
     (case start of
        None \<Rightarrow> State_Monad.return ([], None)
      | Some s \<Rightarrow>
          if s = '''' then State_Monad.return ([], None)
          else case ParseRFC3339 s of
            Inl e \<Rightarrow> State_Monad.return ([], Some (Wrapped ''invalid start time format, must be RFC3339: '' e))
          | Inr startTime \<Rightarrow> do {
              now \<leftarrow> TimeNow C;
              State_Monad.return (if startTime < now then [past_warning] else [], None)
            })"

definition check_window :: "('q, 'w) client \<Rightarrow> window_spec option \<Rightarrow> ('w, admission) state" where
  "check_window C win =
     (case win of
        None \<Rightarrow> State_Monad.return ([], None)
      | Some w \<Rightarrow>
          (case duration_error (Duration w) of
             Some e \<Rightarrow> State_Monad.return ([], Some e)
           | None \<Rightarrow> check_start C (StartTime w)))"

definition both_nodes_warning :: string where
  "both_nodes_warning = ''Both nodeName and nodeSelector are specified; nodeName takes precedence''"

definition validateTicketSpec :: "('q, 'w) client \<Rightarrow> 'q quantity_ops \<Rightarrow> 'q ticket \<Rightarrow> ('w, admission) state" where
  "validateTicketSpec C Q ticket =
     (let spec = ticket_spec ticket in
      do {
        wr \<leftarrow> check_window C (Window spec);
        State_Monad.return (case wr of
          (warnings, Some e) \<Rightarrow> (warnings, Some e)
        | (warnings, None) \<Rightarrow>
            (case validate_lifecycle (Lifecycle spec) of
               Inl e \<Rightarrow> (warnings, Some e)
             | Inr _ \<Rightarrow>
                 (case (case Resources spec of None \<Rightarrow> None | Some res \<Rightarrow> validateTicketResources Q res) of
                    Some e \<Rightarrow> (warnings, Some (Wrapped ''resource validation failed: '' e))
                  | None \<Rightarrow>
                      (warnings @ (if NodeName spec \<noteq> None \<and> gm_len (NodeSelector spec) > 0 then [both_nodes_warning] else []),
                       None))))
      })"

subsection \<open>Changes\<close>

definition quantities_equal :: "'q quantity_ops \<Rightarrow> 'q resource_list \<Rightarrow> 'q resource_list \<Rightarrow> bool" where
  "quantities_equal Q old new \<longleftrightarrow>
     list_all (\<lambda>(name, quantity). case gm_get new name of Some q \<Rightarrow> q_equal Q quantity q | None \<Rightarrow> False) (gm_list old)"

definition resourcesEqual :: "'q quantity_ops \<Rightarrow> 'q resource_requirements \<Rightarrow> 'q resource_requirements \<Rightarrow> bool" where
  "resourcesEqual Q old new \<longleftrightarrow>
     (if gm_len (Requests old) \<noteq> gm_len (Requests new) \<or> gm_len (Limits old) \<noteq> gm_len (Limits new) then False
      else quantities_equal Q (Requests old) (Requests new) \<and> quantities_equal Q (Limits old) (Limits new))"

definition validateTicketImmutableFields :: "'q quantity_ops \<Rightarrow> 'q ticket \<Rightarrow> 'q ticket \<Rightarrow> admission" where
  "validateTicketImmutableFields Q oldTicket newTicket =
     (let old = ticket_spec oldTicket; new = ticket_spec newTicket;
          warnings =
            (case (Window old, Window new) of
               (Some a, Some b) \<Rightarrow>
                 if Duration a \<noteq> Duration b then [''Changing window duration may not affect existing guardian pods''] else []
             | _ \<Rightarrow> []) @
            (case (Resources old, Resources new) of
               (Some a, Some b) \<Rightarrow>
                 if \<not> resourcesEqual Q a b
                 then [''Changing resource requirements may not affect existing guardian pods''] else []
             | _ \<Rightarrow> []) in
      case (NodeName old, NodeName new) of
        (Some a, Some b) \<Rightarrow>
          if a \<noteq> b then (warnings, Some (Errorf ''node name cannot be changed once set'')) else (warnings, None)
      | _ \<Rightarrow> (warnings, None))"

subsection \<open>Quotas\<close>

definition put_reserved :: "string \<times> 'q \<Rightarrow> 'q resource_list \<Rightarrow> 'q resource_list" where
  "put_reserved rq requests = gm_put (reserved_name (fst rq)) (snd rq) requests"

definition calculateTicketResourceRequests :: "'q quantity_ops \<Rightarrow> 'q ticket \<Rightarrow> 'q resource_list" where
  "calculateTicketResourceRequests Q ticket =
     (let requests = gm_put ''tickets'' (q_new Q 1 DecimalSI) gm_make in
      case Resources (ticket_spec ticket) of
        None \<Rightarrow> requests
      | Some res \<Rightarrow> fold put_reserved (gm_list (Requests res)) requests)"

definition Ticket_doesQuotaApply :: "'q quota \<Rightarrow> string \<Rightarrow> bool" where
  "Ticket_doesQuotaApply quota namespace =
     (case ScopeType (Scope (quota_spec quota)) of
        ClusterScope \<Rightarrow> True
      | NamespaceListScope \<Rightarrow> list_ex (\<lambda>ns. ns = namespace) (Namespaces (Scope (quota_spec quota)))
      | _ \<Rightarrow> False)"

definition request_error :: "'q quantity_ops \<Rightarrow> 'q resource_list \<Rightarrow> string \<times> 'q \<Rightarrow> go_error" where
  "request_error Q hard rq =
     Errorf (''ticket request for '' @ fst rq @ '' ('' @ q_show Q (snd rq) @ '') exceeds quota limit ('' @
       (case gm_get hard (fst rq) of Some limit \<Rightarrow> q_show Q limit | None \<Rightarrow> '''') @ '')'')"

definition Ticket_check_quota ::
  "'q quantity_ops \<Rightarrow> string \<Rightarrow> 'q resource_list \<Rightarrow> 'q quota \<Rightarrow> ('w, go_error + unit) state" where
  "Ticket_check_quota Q namespace requests quota =
     (if Ticket_doesQuotaApply quota namespace then
        (case find (above_limit Q (Hard (quota_spec quota))) (gm_list requests) of
           Some rq \<Rightarrow> State_Monad.return (Inl (request_error Q (Hard (quota_spec quota)) rq))
         | None \<Rightarrow> State_Monad.return (Inr ()))
      else State_Monad.return (Inr ()))"

definition Ticket_validateAgainstQuotas ::
  "('q, 'w) client \<Rightarrow> 'q quantity_ops \<Rightarrow> string \<Rightarrow> 'q resource_list \<Rightarrow> ('w, go_error + unit) state" where
  "Ticket_validateAgainstQuotas C Q namespace requests =
     on_ok (ListQuotas C everything) (for_each (Ticket_check_quota Q namespace requests))"

definition validateTicketQuotaCompliance ::
  "('q, 'w) client \<Rightarrow> 'q quantity_ops \<Rightarrow> 'q ticket \<Rightarrow> ('w, go_error + unit) state" where
  "validateTicketQuotaCompliance C Q ticket =
     Ticket_validateAgainstQuotas C Q (Namespace (ticket_meta ticket)) (calculateTicketResourceRequests Q ticket)"

subsection \<open>The validator\<close>

definition Ticket_ValidateCreate :: "('q, 'w) client \<Rightarrow> 'q quantity_ops \<Rightarrow> 'q ticket \<Rightarrow> ('w, admission) state" where
  "Ticket_ValidateCreate C Q ticket = do {
     spec \<leftarrow> validateTicketSpec C Q ticket;
     case spec of
       (warnings, Some e) \<Rightarrow> State_Monad.return (warnings, Some (Wrapped ''ticket specification validation failed: '' e))
     | (warnings, None) \<Rightarrow> do {
         r \<leftarrow> validateTicketQuotaCompliance C Q ticket;
         case r of
           Inl e \<Rightarrow> State_Monad.return (warnings, Some (Wrapped ''quota validation failed: '' e))
         | Inr _ \<Rightarrow> State_Monad.return (warnings, None)
       }
   }"

definition Ticket_ValidateUpdate ::
  "('q, 'w) client \<Rightarrow> 'q quantity_ops \<Rightarrow> 'q ticket \<Rightarrow> 'q ticket \<Rightarrow> ('w, admission) state" where
  "Ticket_ValidateUpdate C Q oldTicket ticket =
     (case validateTicketImmutableFields Q oldTicket ticket of
        (warnings, Some e) \<Rightarrow> State_Monad.return (warnings, Some (Wrapped ''immutable field validation failed: '' e))
      | (warnings, None) \<Rightarrow> do {
          spec \<leftarrow> validateTicketSpec C Q ticket;
          case spec of
            (specWarnings, Some e) \<Rightarrow>
              State_Monad.return (warnings @ specWarnings, Some (Wrapped ''ticket specification validation failed: '' e))
          | (specWarnings, None) \<Rightarrow> State_Monad.return (warnings @ specWarnings, None)
        })"

definition Ticket_ValidateDelete :: "'q ticket \<Rightarrow> admission" where
  "Ticket_ValidateDelete ticket =
     ((if Phase (ticket_status ticket) = TicketClaimed then [''Deleting a claimed ticket may affect running pods''] else []) @
      (case GuardianPod (ticket_status ticket) of
         Some guardian \<Rightarrow> [''Guardian pod '' @ guardian @ '' will be deleted'']
       | None \<Rightarrow> []),
      None)"

section \<open>What the specification check accepts\<close>

definition positive_window :: "window_spec option \<Rightarrow> bool" where
  "positive_window win \<longleftrightarrow>
     (case win of
        None \<Rightarrow> True
      | Some w \<Rightarrow> Duration w = '''' \<or> (case ParseDuration (Duration w) of Inl e \<Rightarrow> True | Inr d \<Rightarrow> 0 < d))"

definition ticket_window_ok :: "window_spec option \<Rightarrow> bool" where
  "ticket_window_ok win \<longleftrightarrow> window_ok win \<and> positive_window win"

definition nonnegative :: "('q \<Rightarrow> int) \<Rightarrow> 'q resource_list \<Rightarrow> bool" where
  "nonnegative amount m \<longleftrightarrow> (\<forall>r q. gm_get m r = Some q \<longrightarrow> 0 \<le> amount q)"

definition ticket_spec_ok :: "('q \<Rightarrow> int) \<Rightarrow> 'q ticket_spec \<Rightarrow> bool" where
  "ticket_spec_ok amount spec \<longleftrightarrow>
     template_ok amount spec \<and> ticket_window_ok (Window spec) \<and>
     (case Resources spec of None \<Rightarrow> True | Some rr \<Rightarrow> nonnegative amount (Requests rr) \<and> nonnegative amount (Limits rr))"

lemma check_window_ok:
  "run_state (check_window C win) w = ((warnings, err), w') \<Longrightarrow> err = None \<longleftrightarrow> ticket_window_ok win"
  by (auto simp: check_window_def check_start_def duration_error_def ticket_window_ok_def positive_window_def window_ok_def run_simps
      split: option.splits sum.splits if_splits prod.splits)

context quantity_laws
begin

lemma validateTicketResources_ok:
  assumes "gm_wf (Requests rr)" "gm_wf (Limits rr)"
  shows "validateTicketResources Q rr = None \<longleftrightarrow>
    resources_ok amount (Some rr) \<and> nonnegative amount (Requests rr) \<and> nonnegative amount (Limits rr)"
proof -
  have "(if Requests rr \<noteq> None \<and> Limits rr \<noteq> None then find (above_limit Q (Limits rr)) (gm_list (Requests rr)) else None) = None
      \<longleftrightarrow> resources_ok amount (Some rr)"
    by (cases "Requests rr"; cases "Limits rr")
      (use gm_find_None [OF assms(1), of "above_limit Q (Limits rr)"] in
        \<open>auto simp: resources_ok_def above_limit_def cmp_positive not_less split: option.splits\<close>)
  moreover
  have "find (\<lambda>rq. q_sign Q (snd rq) < 0) (gm_list m) = None \<longleftrightarrow> nonnegative amount m" if "gm_wf m" for m
    by (simp add: gm_find_None [OF that] nonnegative_def sign_negative not_less)
  note this [OF assms(1)] this [OF assms(2)]
  moreover have "validateTicketResources Q rr = None \<longleftrightarrow>
      (if Requests rr \<noteq> None \<and> Limits rr \<noteq> None then find (above_limit Q (Limits rr)) (gm_list (Requests rr)) else None) = None \<and>
      find (\<lambda>rq. q_sign Q (snd rq) < 0) (gm_list (Requests rr)) = None \<and>
      find (\<lambda>rq. q_sign Q (snd rq) < 0) (gm_list (Limits rr)) = None"
    unfolding validateTicketResources_def by (simp split: option.split)
  ultimately show ?thesis by simp
qed

lemma validateTicketSpec_ok:
  assumes "run_state (validateTicketSpec C Q t) w = ((warnings, err), w')" "requests_wf (ticket_spec t)"
  shows "err = None \<longleftrightarrow> ticket_spec_ok amount (ticket_spec t)"
proof -
  let ?spec = "ticket_spec t"
  obtain ws e w1 where 1: "run_state (check_window C (Window ?spec)) w = ((ws, e), w1)" by (metis prod.exhaust)
  have "(case Resources ?spec of None \<Rightarrow> None | Some res \<Rightarrow> validateTicketResources Q res) = None \<longleftrightarrow>
      resources_ok amount (Resources ?spec) \<and>
      (case Resources ?spec of None \<Rightarrow> True | Some rr \<Rightarrow> nonnegative amount (Requests rr) \<and> nonnegative amount (Limits rr))"
    using assms(2) by (cases "Resources ?spec") (simp_all add: requests_wf_def resources_ok_def [of _ None] validateTicketResources_ok)
  moreover have "err = None \<longleftrightarrow> e = None \<and> validate_lifecycle (Lifecycle ?spec) = Inr () \<and>
      (case Resources ?spec of None \<Rightarrow> None | Some res \<Rightarrow> validateTicketResources Q res) = None"
    using assms(1) 1 by (auto simp: validateTicketSpec_def Let_def run_simps split: option.splits sum.splits)
  ultimately show ?thesis
    using check_window_ok [OF 1] by (auto simp: ticket_spec_ok_def template_ok_def validate_lifecycle_ok ticket_window_ok_def)
qed

end

section \<open>What the defaults give\<close>

lemma default_window_run:
  assumes "run_state (default_window C zone win) w = (win', w')"
  shows "Duration win' = (case win of None \<Rightarrow> ''2h'' | Some x \<Rightarrow> if Duration x = '''' then ''2h'' else Duration x)"
    and "(win \<noteq> None \<and> StartTime (the win) \<noteq> None \<and> StartTime win' = StartTime (the win) \<and> w' = w) \<or>
      ((win = None \<or> StartTime (the win) = None) \<and>
       (\<exists>now. run_state (TimeNow C) w = (now, w') \<and> StartTime win' = Some (FormatRFC3339 (zone now) now)))"
    and "TimeZone win' \<noteq> None"
  using assms by (auto simp: default_window_def current_time_def run_simps Let_def or_default_def split: option.splits prod.splits if_splits)

lemma default_window_idem:
  assumes "run_state (default_window C zone win) w = (win', w')"
  shows "run_state (default_window C zone (Some win')) v = (win', v)"
proof -
  from default_window_run [OF assms] have "Duration win' \<noteq> ''''" "StartTime win' \<noteq> None" "TimeZone win' \<noteq> None"
    by (auto split: option.splits if_splits)
  then show ?thesis by (auto simp: default_window_def run_simps Let_def or_default_def)
qed


lemma run_Ticket_Default:
  assumes "run_state (Ticket_Default C zone Q t) w = (t', w')"
  obtains win' where "run_state (default_window C zone (Window (ticket_spec t))) w = (win', w')"
    and "t' = t\<lparr>ticket_spec := (ticket_spec t)
          \<lparr>Lifecycle := default_lifecycle (Lifecycle (ticket_spec t)), Window := Some win',
           SchedulerName := or_default (SchedulerName (ticket_spec t)) ''default-scheduler'',
           Resources := or_default (Resources (ticket_spec t)) (default_resources Q)\<rparr>\<rparr>"
  using assms by (auto simp: Ticket_Default_def Let_def run_simps split: prod.splits)

lemma Ticket_Default_idem:
  assumes "run_state (Ticket_Default C zone Q t) w = (t', w')"
  shows "run_state (Ticket_Default C zone Q t') v = (t', v)"
  by (rule run_Ticket_Default [OF assms])
    (simp add: Ticket_Default_def Let_def run_simps default_window_idem default_lifecycle_idem)

text \<open>An instant that \<open>Format\<close> writes in a way \<open>Parse\<close> reads: a zone of whole minutes, a year of four digits.\<close>

definition readable :: "(time \<Rightarrow> int) \<Rightarrow> time \<Rightarrow> bool" where
  "readable zone now \<longleftrightarrow>
     zone now mod 60 = 0 \<and> \<bar>zone now\<bar> < 86400 \<and>
     (case civil ((now div 10 ^ 9 + zone now) div 86400) of (y, m, d) \<Rightarrow> 0 \<le> y \<and> y < 10000)"

lemma readable_parse:
  assumes "readable zone now"
  shows "ParseRFC3339 (FormatRFC3339 (zone now) now) = Inr (now div 10 ^ 9 * 10 ^ 9)"
proof -
  obtain y m d where c: "civil ((now div 10 ^ 9 + zone now) div 86400) = (y, m, d)" by (metis prod_cases3)
  with assms have "zone now mod 60 = 0" "\<bar>zone now\<bar> < 86400" "0 \<le> y" "y < 10000"
    unfolding readable_def c by simp_all
  from parse_format [OF this(1,2) c this(3,4)] show ?thesis .
qed

lemma parse_2h: "ParseDuration ''2h'' = Inr 7200000000000"
  by code_simp

lemma default_window_ok:
  assumes "run_state (default_window C zone win) w = (win', w')"
    and "\<And>now v. win = None \<or> StartTime (the win) = None \<Longrightarrow> run_state (TimeNow C) w = (now, v) \<Longrightarrow>
      readable zone now"
  shows "ticket_window_ok (Some win') \<longleftrightarrow> ticket_window_ok win"
proof -
  note d = default_window_run [OF assms(1)]
  have start: "(case StartTime win' of None \<Rightarrow> True | Some s \<Rightarrow> s = '''' \<or> \<not> isl (ParseRFC3339 s)) \<longleftrightarrow>
      (case win of None \<Rightarrow> True | Some x \<Rightarrow> (case StartTime x of None \<Rightarrow> True | Some s \<Rightarrow> s = '''' \<or> \<not> isl (ParseRFC3339 s)))"
    using d(2) assms(2) readable_parse by (auto split: option.split)
  show ?thesis
    unfolding ticket_window_ok_def positive_window_def window_ok_def option.case start d(1)
    by (auto simp: parse_2h split: option.split)
qed

context quantity_laws
begin

lemma Ticket_Default_ok:
  assumes "run_state (Ticket_Default C zone Q t) w = (t', w')"
    and "\<And>now v. Window (ticket_spec t) = None \<or> StartTime (the (Window (ticket_spec t))) = None \<Longrightarrow>
      run_state (TimeNow C) w = (now, v) \<Longrightarrow> readable zone now"
    and "0 \<le> amount (q_must_parse Q ''100m'')" "0 \<le> amount (q_must_parse Q ''128Mi'')"
  shows "ticket_spec_ok amount (ticket_spec t') \<longleftrightarrow> ticket_spec_ok amount (ticket_spec t)"
proof (rule run_Ticket_Default [OF assms(1)])
  fix win' assume win: "run_state (default_window C zone (Window (ticket_spec t))) w = (win', w')"
    and t': "t' = t\<lparr>ticket_spec := (ticket_spec t)
          \<lparr>Lifecycle := default_lifecycle (Lifecycle (ticket_spec t)), Window := Some win',
           SchedulerName := or_default (SchedulerName (ticket_spec t)) ''default-scheduler'',
           Resources := or_default (Resources (ticket_spec t)) (default_resources Q)\<rparr>\<rparr>"
  let ?lc = "Lifecycle (ticket_spec t)" and ?res = "Resources (ticket_spec t)"
  have ttl: "negative (case default_lifecycle ?lc of None \<Rightarrow> None | Some l \<Rightarrow> TTLSecondsAfterFinished l) \<longleftrightarrow>
      negative (case ?lc of None \<Rightarrow> None | Some l \<Rightarrow> TTLSecondsAfterFinished l)"
    by (auto simp: default_lifecycle_def Let_def negative_def split: option.split)
  have "resources_ok amount (or_default ?res (default_resources Q)) \<longleftrightarrow> resources_ok amount ?res"
    "(case or_default ?res (default_resources Q) of None \<Rightarrow> True
       | Some rr \<Rightarrow> nonnegative amount (Requests rr) \<and> nonnegative amount (Limits rr)) \<longleftrightarrow>
     (case ?res of None \<Rightarrow> True | Some rr \<Rightarrow> nonnegative amount (Requests rr) \<and> nonnegative amount (Limits rr))"
    using assms(3,4) by (auto simp: or_default_def resources_ok_def nonnegative_def default_resources_def split: option.split if_splits)
  with default_window_ok [OF win assms(2)] ttl show ?thesis
    by (auto simp: t' ticket_spec_ok_def template_ok_def ticket_window_ok_def)
qed

end


section \<open>The admission decisions\<close>

lemma ticket_requests_get:
  fixes Q :: "'q quantity_ops" and t :: "'q ticket"
  assumes "requests_wf (ticket_spec t)"
  shows "gm_wf (calculateTicketResourceRequests Q t)"
proof -
  have "gm_wf (fold put_reserved rs m)" if "gm_wf m" for rs and m :: "'q resource_list"
    using that by (induction rs arbitrary: m) (auto simp: put_reserved_def)
  then show ?thesis by (auto simp: calculateTicketResourceRequests_def Let_def split: option.split)
qed

lemma Ticket_doesQuotaApply_counted: "Ticket_doesQuotaApply quota (Namespace m) \<longleftrightarrow> counted quota m"
  by (auto simp: Ticket_doesQuotaApply_def counted_def list_ex_iff split: quota_scope_type.split)

text \<open>The clock is read, and nothing else: the specification check leaves the cluster alone.\<close>

lemma run_check_window: "snd (run_state (check_window C win) w) \<in> {w, snd (run_state (TimeNow C) w)}"
  by (auto simp: check_window_def check_start_def run_simps split: option.splits sum.splits prod.splits)

lemma run_validateTicketSpec:
  "snd (run_state (validateTicketSpec C Q t) w) \<in> {w, snd (run_state (TimeNow C) w)}"
  using run_check_window [of C "Window (ticket_spec t)" w]
  by (simp add: validateTicketSpec_def Let_def run_simps case_prod_unfold)

context quantity_laws
begin

lemma above_limit_find:
  assumes "gm_wf requests"
  shows "find (above_limit Q limits) (gm_list requests) = None \<longleftrightarrow>
    resources_ok amount (Some \<lparr>Requests = requests, Limits = limits\<rparr>)"
  by (auto simp: gm_find_None [OF assms] resources_ok_def above_limit_def cmp_positive not_less split: option.splits)

lemma Ticket_check_quota_result:
  assumes "gm_wf requests"
  shows "snd (run_state (Ticket_check_quota Q namespace requests quota) w) = w"
    and "fst (run_state (Ticket_check_quota Q namespace requests quota) w) = Inr () \<longleftrightarrow>
      (Ticket_doesQuotaApply quota namespace \<longrightarrow>
        resources_ok amount (Some \<lparr>Requests = requests, Limits = Hard (quota_spec quota)\<rparr>))"
  using above_limit_find [OF assms, of "Hard (quota_spec quota)"]
  by (auto simp: Ticket_check_quota_def split: option.splits)

end

context available_quota_control
begin

lemma Ticket_validateAgainstQuotas_decides:
  assumes "run_state (Ticket_validateAgainstQuotas C Q namespace requests) w = (r, w')" "gm_wf requests"
  shows "r = Inr () \<longleftrightarrow> (\<forall>quota \<in> set (c_quotas (snap w)). Ticket_doesQuotaApply quota namespace \<longrightarrow>
      resources_ok amount (Some \<lparr>Requests = requests, Limits = Hard (quota_spec quota)\<rparr>))"
  using quotas_decide [OF assms(1) [unfolded Ticket_validateAgainstQuotas_def],
      of "\<lambda>quota. Ticket_doesQuotaApply quota namespace \<longrightarrow>
        resources_ok amount (Some \<lparr>Requests = requests, Limits = Hard (quota_spec quota)\<rparr>)"]
    Ticket_check_quota_result [OF assms(2)] by (metis fst_conv snd_conv)

lemma Ticket_ValidateCreate_decides:
  assumes "run_state (Ticket_ValidateCreate C Q t) w = ((warnings, err), w')"
    and "requests_wf (ticket_spec t)"
  shows "err = None \<longleftrightarrow> ticket_spec_ok amount (ticket_spec t) \<and>
    (\<forall>quota \<in> set (c_quotas (snap w)). counted quota (ticket_meta t) \<longrightarrow>
      resources_ok amount (Some \<lparr>Requests = calculateTicketResourceRequests Q t, Limits = Hard (quota_spec quota)\<rparr>))"
proof -
  obtain ws e w1 where 1: "run_state (validateTicketSpec C Q t) w = ((ws, e), w1)" by (metis prod.exhaust)
  obtain r w2 where 2: "run_state (validateTicketQuotaCompliance C Q t) w1 = (r, w2)" by fastforce
  have "snap (snd (run_state (TimeNow C) w)) = snap w" by (rule read_clock) (rule prod.collapse [symmetric])
  then have w1: "snap w1 = snap w" using run_validateTicketSpec [of C Q t w] 1 by auto
  note Ticket_validateAgainstQuotas_decides [OF 2 [unfolded validateTicketQuotaCompliance_def] ticket_requests_get [OF assms(2)]]
  moreover have "err = None \<longleftrightarrow> e = None \<and> r = Inr ()"
    using assms(1) 1 2 by (auto simp: Ticket_ValidateCreate_def run_simps split: sum.splits option.splits)
  ultimately show ?thesis
    unfolding w1 validateTicketSpec_ok [OF 1 assms(2), symmetric] Ticket_doesQuotaApply_counted by blast
qed

end

text \<open>Two lists with the same amounts under the same keys.\<close>

definition same_amounts :: "('q \<Rightarrow> int) \<Rightarrow> 'q resource_list \<Rightarrow> 'q resource_list \<Rightarrow> bool" where
  "same_amounts amount a b \<longleftrightarrow> (\<forall>r. map_option amount (gm_get a r) = map_option amount (gm_get b r))"



context quantity_laws
begin

lemma quantities_equal_iff:
  assumes "gm_wf a"
  shows "quantities_equal Q a b \<longleftrightarrow>
    (\<forall>r q. gm_get a r = Some q \<longrightarrow> (\<exists>q'. gm_get b r = Some q' \<and> amount q = amount q'))"
  using assms
  by (auto simp: quantities_equal_def list_all_iff equal_iff gm_get_def [of a] gm_wf_def dest: map_of_SomeD split: option.splits)
    (fastforce dest: map_of_is_SomeI)+

lemma quantities_same:
  assumes "gm_wf a" "gm_wf b"
  shows "gm_len a = gm_len b \<and> quantities_equal Q a b \<longleftrightarrow> same_amounts amount a b"
proof
  assume l: "gm_len a = gm_len b \<and> quantities_equal Q a b"
  then have ab: "\<And>r q. gm_get a r = Some q \<Longrightarrow> \<exists>q'. gm_get b r = Some q' \<and> amount q = amount q'"
    using quantities_equal_iff [OF assms(1)] by blast
  then have "gm_get b r \<noteq> None" if "gm_get a r \<noteq> None" for r using that by fastforce
  from gm_keys_eq [OF assms _ this] l have ba: "gm_get b r \<noteq> None \<Longrightarrow> gm_get a r \<noteq> None" for r by blast
  show "same_amounts amount a b"
    unfolding same_amounts_def
  proof
    fix r show "map_option amount (gm_get a r) = map_option amount (gm_get b r)"
      using ab [of r] ba [of r] by (cases "gm_get a r"; cases "gm_get b r") auto
  qed
next
  assume s: "same_amounts amount a b"
  then have dom: "gm_get a r = None \<longleftrightarrow> gm_get b r = None" for r
    unfolding same_amounts_def by (metis map_option_is_None)
  have "gm_len m = card {r. gm_get m r \<noteq> None}" if "gm_wf m" for m :: "'a resource_list"
  proof -
    have "{r. gm_get m r \<noteq> None} = fst ` set (gm_list m)" by (auto simp: gm_get_def map_of_eq_None_iff simp del: not_None_eq)
    then show ?thesis using that distinct_card [of "map fst (gm_list m)"] by (simp add: gm_wf_def gm_len_def)
  qed
  from this [OF assms(1)] this [OF assms(2)] dom have "gm_len a = gm_len b" by simp
  moreover have "quantities_equal Q a b"
    unfolding quantities_equal_iff [OF assms(1)]
  proof (intro allI impI)
    fix r q assume "gm_get a r = Some q"
    with s [unfolded same_amounts_def, rule_format, of r] show "\<exists>q'. gm_get b r = Some q' \<and> amount q = amount q'"
      by (cases "gm_get b r") auto
  qed
  ultimately show "gm_len a = gm_len b \<and> quantities_equal Q a b" ..
qed

lemma resourcesEqual_iff:
  assumes "gm_wf (Requests a)" "gm_wf (Requests b)" "gm_wf (Limits a)" "gm_wf (Limits b)"
  shows "resourcesEqual Q a b \<longleftrightarrow> same_amounts amount (Requests a) (Requests b) \<and> same_amounts amount (Limits a) (Limits b)"
  using quantities_same [OF assms(1,2)] quantities_same [OF assms(3,4)] by (auto simp: resourcesEqual_def)

end

lemma spec_warnings:
  assumes "run_state (validateTicketSpec C Q t) w = ((warnings, err), w')"
  shows "set warnings \<subseteq> {past_warning, both_nodes_warning}"
proof -
  obtain ws e w1 where 1: "run_state (check_window C (Window (ticket_spec t))) w = ((ws, e), w1)" by (metis prod.exhaust)
  then have "set ws \<subseteq> {past_warning}"
    by (auto simp: check_window_def check_start_def run_simps split: option.splits sum.splits if_splits prod.splits)
  with assms 1 show ?thesis
    by (auto simp: validateTicketSpec_def Let_def run_simps split: option.splits sum.splits if_splits)
qed

definition resources_warning :: string where
  "resources_warning = ''Changing resource requirements may not affect existing guardian pods''"

lemma Ticket_ValidateUpdate_result:
  assumes "quantity_laws Q amount" "run_state (Ticket_ValidateUpdate C Q old new) w = ((warnings, err), w')"
    and "requests_wf (ticket_spec old)" "requests_wf (ticket_spec new)"
  shows "err = None \<longleftrightarrow> ticket_spec_ok amount (ticket_spec new) \<and>
      (\<forall>a b. NodeName (ticket_spec old) = Some a \<longrightarrow> NodeName (ticket_spec new) = Some b \<longrightarrow> a = b)"
    and "resources_warning \<in> set warnings \<longleftrightarrow>
      (\<exists>a b. Resources (ticket_spec old) = Some a \<and> Resources (ticket_spec new) = Some b \<and>
        \<not> (same_amounts amount (Requests a) (Requests b) \<and> same_amounts amount (Limits a) (Limits b)))"
proof -
  obtain ws e where imm: "validateTicketImmutableFields Q old new = (ws, e)" by fastforce
  obtain ss se w1 where 1: "run_state (validateTicketSpec C Q new) w = ((ss, se), w1)" by (metis prod.exhaust)
  have e: "e = None \<longleftrightarrow> (\<forall>a b. NodeName (ticket_spec old) = Some a \<longrightarrow> NodeName (ticket_spec new) = Some b \<longrightarrow> a = b)"
    using imm by (auto simp: validateTicketImmutableFields_def Let_def split: option.splits if_splits)
  have "resources_warning \<in> set ws \<longleftrightarrow>
      (\<exists>a b. Resources (ticket_spec old) = Some a \<and> Resources (ticket_spec new) = Some b \<and> \<not> resourcesEqual Q a b)"
    using imm by (auto simp: validateTicketImmutableFields_def Let_def resources_warning_def split: option.splits if_splits)
  also have "\<dots> \<longleftrightarrow> (\<exists>a b. Resources (ticket_spec old) = Some a \<and> Resources (ticket_spec new) = Some b \<and>
        \<not> (same_amounts amount (Requests a) (Requests b) \<and> same_amounts amount (Limits a) (Limits b)))"
    using assms(3,4) quantity_laws.resourcesEqual_iff [OF assms(1)] by (auto simp: requests_wf_def)
  finally have ws: "resources_warning \<in> set ws \<longleftrightarrow> \<dots>" .
  have "resources_warning \<notin> set ss"
    using spec_warnings [OF 1] by (auto simp: resources_warning_def past_warning_def both_nodes_warning_def)
  then have "err = None \<longleftrightarrow> e = None \<and> se = None" "resources_warning \<in> set warnings \<longleftrightarrow> resources_warning \<in> set ws"
    using assms(2) imm 1 by (auto simp: Ticket_ValidateUpdate_def run_simps split: option.splits)
  with e ws quantity_laws.validateTicketSpec_ok [OF assms(1) 1 assms(4)]
  show "err = None \<longleftrightarrow> ticket_spec_ok amount (ticket_spec new) \<and>
      (\<forall>a b. NodeName (ticket_spec old) = Some a \<longrightarrow> NodeName (ticket_spec new) = Some b \<longrightarrow> a = b)"
    "resources_warning \<in> set warnings \<longleftrightarrow>
      (\<exists>a b. Resources (ticket_spec old) = Some a \<and> Resources (ticket_spec new) = Some b \<and>
        \<not> (same_amounts amount (Requests a) (Requests b) \<and> same_amounts amount (Limits a) (Limits b)))"
    by blast+
qed


text \<open>A ticket that was given no start time gets the current time, cut to the second.\<close>

lemma default_start:
  assumes "run_state (Ticket_Default C zone Q t) w = (t', w1)" "run_state (TimeNow C) w = (now, w1')"
    and "Window (ticket_spec t) = None \<or> StartTime (the (Window (ticket_spec t))) = None"
  obtains win' where "Window (ticket_spec t') = Some win'" "StartTime win' = Some (FormatRFC3339 (zone now) now)" "w1 = w1'"
proof (rule run_Ticket_Default [OF assms(1)])
  fix win' assume "run_state (default_window C zone (Window (ticket_spec t))) w = (win', w1)"
    and "t' = t\<lparr>ticket_spec := (ticket_spec t)
          \<lparr>Lifecycle := default_lifecycle (Lifecycle (ticket_spec t)), Window := Some win',
           SchedulerName := or_default (SchedulerName (ticket_spec t)) ''default-scheduler'',
           Resources := or_default (Resources (ticket_spec t)) (default_resources Q)\<rparr>\<rparr>"
  with default_window_run(2) [OF this(1)] assms(2,3) that show thesis by fastforce
qed

lemma FormatRFC3339_not_Nil: "readable zone now \<Longrightarrow> FormatRFC3339 (zone now) now \<noteq> ''''"
  using readable_parse [of zone now] by (auto simp: ParseRFC3339_def parse_year_def)

text \<open>A ticket built from a template passes the check after the defaults exactly when the template would.\<close>

lemma defaulted_requests_wf:
  assumes "run_state (Ticket_Default C zone Q t) w = (t', w')" "requests_wf (ticket_spec t)"
  shows "requests_wf (ticket_spec t')"
  by (rule run_Ticket_Default [OF assms(1)])
    (use assms(2) in \<open>auto simp: requests_wf_def or_default_def default_resources_def gm_wf_def split: option.split\<close>)

section \<open>The properties\<close>

text \<open>
  The defaults of a ticket are stable. A second run of \<open>Default\<close> changes nothing and reads
  nothing, and a defaulted ticket passes the specification check exactly when the ticket itself
  does: the values \<open>Default\<close> writes are ones the check reads. The clock must show a year of four
  digits in a zone of whole minutes, and the default requests parse to amounts that are not
  negative.
\<close>

theorem ticket_defaults_are_stable:
  assumes "quantity_laws Q amount" "run_state (Ticket_Default C zone Q t) w = (t', w')"
    and "\<And>now v. run_state (TimeNow C) w = (now, v) \<Longrightarrow> readable zone now"
    and "0 \<le> amount (q_must_parse Q ''100m'')" "0 \<le> amount (q_must_parse Q ''128Mi'')"
  shows "run_state (Ticket_Default C zone Q t') v = (t', v) \<and>
    (ticket_spec_ok amount (ticket_spec t') \<longleftrightarrow> ticket_spec_ok amount (ticket_spec t))"
proof
  show "run_state (Ticket_Default C zone Q t') v = (t', v)" by (rule Ticket_Default_idem [OF assms(2)])
  show "ticket_spec_ok amount (ticket_spec t') \<longleftrightarrow> ticket_spec_ok amount (ticket_spec t)"
    by (rule quantity_laws.Ticket_Default_ok [OF assms(1,2) _ assms(4,5)]) (rule assms(3))
qed

text \<open>The clock of the witnesses shows 3600.5 seconds after the epoch, in a zone one hour east.\<close>

definition clock_at :: "time \<Rightarrow> exact mem" where
  "clock_at now = empty_mem\<lparr>m_clock := now\<rparr>"

lemma clock_runs: "run_state (TimeNow mem_client) (clock_at now) = (now, clock_at (now + 1))"
  by (simp add: mem_client_def clock_at_def)

lemma early_readable: "readable (\<lambda>_. 3600) 3600500000000"
  by code_simp

theorem ticket_defaults_are_stable_witness:
  "\<exists>t'. run_state (Ticket_Default mem_client (\<lambda>_. 3600) exact_ops (cpu_ticket ''team-a'' ''t'')) (clock_at 3600500000000) = (t', clock_at 3600500000001) \<and>
     run_state (Ticket_Default mem_client (\<lambda>_. 3600) exact_ops t') (clock_at 0) = (t', clock_at 0) \<and> ticket_spec_ok fst (ticket_spec t')"
proof -
  let ?t = "cpu_ticket ''team-a'' ''t''"
  let ?r = "run_state (Ticket_Default mem_client (\<lambda>_. 3600) exact_ops ?t) (clock_at 3600500000000)"
  have run: "?r = (fst ?r, snd ?r)" by simp
  have same: "snd ?r = clock_at 3600500000001"
    by (simp add: Ticket_Default_def default_window_def current_time_def run_simps clock_runs Let_def cpu_ticket_def)
  have "ticket_spec_ok fst (ticket_spec ?t)"
    by (simp add: ticket_spec_ok_def template_ok_def window_ok_def ticket_window_ok_def positive_window_def negative_def
        resources_ok_def nonnegative_def cpu_ticket_def)
  moreover have parse: "0 \<le> fst (q_must_parse exact_ops ''100m'')" "0 \<le> fst (q_must_parse exact_ops ''128Mi'')" by code_simp+
  moreover have "readable (\<lambda>_. 3600) now" if "run_state (TimeNow mem_client) (clock_at 3600500000000) = (now, v)" for now v
    using that early_readable by (simp add: clock_runs)
  ultimately show ?thesis
    using ticket_defaults_are_stable [OF exact.quantity_laws_axioms, OF run, of "clock_at 0"] run same by metis
qed

text \<open>
  Default start times are in the past. A ticket without a start time gets the current
  time, but written to the second; when the check then reads the clock at \<open>now'\<close>, it warns that
  the start time is in the past whenever \<open>now'\<close> is after the beginning of that second.
\<close>

theorem default_start_times_are_in_the_past:
  assumes "run_state (Ticket_Default C zone Q t) w = (t', w1)"
    and "Window (ticket_spec t) = None \<or> StartTime (the (Window (ticket_spec t))) = None"
    and "run_state (TimeNow C) w = (now, w1)" "readable zone now"
    and "run_state (validateTicketSpec C Q t') w1 = ((warnings, None), w2)" "run_state (TimeNow C) w1 = (now', w3)"
  shows "past_warning \<in> set warnings \<longleftrightarrow> now div 10 ^ 9 * 10 ^ 9 < now'"
proof -
  obtain win' where win: "Window (ticket_spec t') = Some win'" "StartTime win' = Some (FormatRFC3339 (zone now) now)"
    using default_start [OF assms(1,3,2)] by blast
  obtain ws e w2' where 1: "run_state (check_window C (Window (ticket_spec t'))) w1 = ((ws, e), w2')" by (metis prod.exhaust)
  have "e = None" and warn: "past_warning \<in> set warnings \<longleftrightarrow> past_warning \<in> set ws"
    using assms(5) 1 by (auto simp: validateTicketSpec_def Let_def run_simps past_warning_def both_nodes_warning_def
        split: option.splits sum.splits if_splits)
  then have "past_warning \<in> set ws \<longleftrightarrow> now div 10 ^ 9 * 10 ^ 9 < now'"
    using 1 win assms(6) FormatRFC3339_not_Nil [OF assms(4)]
    by (auto simp: check_window_def check_start_def run_simps readable_parse [OF assms(4)] split: option.splits if_splits)
  with warn show ?thesis by simp
qed

theorem default_start_times_are_in_the_past_witness:
  "past_warning \<in> set (fst (fst (run_state (validateTicketSpec mem_client exact_ops
     (fst (run_state (Ticket_Default mem_client (\<lambda>_. 3600) exact_ops (cpu_ticket ''team-a'' ''t'')) (clock_at 3600500000000)))) (clock_at 3600500000001))))"
proof -
  let ?t = "cpu_ticket ''team-a'' ''t''"
  let ?r = "run_state (Ticket_Default mem_client (\<lambda>_. 3600) exact_ops ?t) (clock_at 3600500000000)"
  let ?s = "run_state (validateTicketSpec mem_client exact_ops (fst ?r)) (clock_at 3600500000001)"
  have "snd ?r = clock_at 3600500000001"
    by (simp add: Ticket_Default_def default_window_def current_time_def run_simps clock_runs Let_def cpu_ticket_def)
  then have run: "?r = (fst ?r, clock_at 3600500000001)" by (simp add: prod_eq_iff)
  have none: "Window (ticket_spec ?t) = None \<or> StartTime (the (Window (ticket_spec ?t))) = None" by (simp add: cpu_ticket_def)
  have "snd (fst ?s) = None" by code_simp
  then have spec: "?s = ((fst (fst ?s), None), snd ?s)" by (simp add: prod_eq_iff)
  from default_start_times_are_in_the_past [OF run none clock_runs [of 3600500000000, simplified] early_readable spec clock_runs] show ?thesis by simp
qed


text \<open>
  C17. The admission decision for a new ticket. With the API up, \<open>ValidateCreate\<close> accepts a ticket
  exactly when its specification is right and each request of the ticket, taken alone, is at most
  the limit of every cluster or listed-namespace quota that applies. The tickets that are there
  already play no part.
\<close>

theorem ticket_creation_is_decided:
  assumes "available_quota_control C snap Q amount"
    and "run_state (Ticket_ValidateCreate C Q t) w = ((warnings, err), w')"
    and "requests_wf (ticket_spec t)"
  shows "err = None \<longleftrightarrow> ticket_spec_ok amount (ticket_spec t) \<and>
    (\<forall>quota \<in> set (c_quotas (snap w)). counted quota (ticket_meta t) \<longrightarrow>
      resources_ok amount (Some \<lparr>Requests = calculateTicketResourceRequests Q t, Limits = Hard (quota_spec quota)\<rparr>))"
  using assms by (rule available_quota_control.Ticket_ValidateCreate_decides)

text \<open>A quota of one ticket, a namespace that holds two, and a third that is accepted.\<close>

theorem ticket_creation_is_decided_witness:
  "resources_ok fst (Some \<lparr>Requests = calculateTicketResourceRequests exact_ops (cpu_ticket ''team-a'' ''t9''),
     Limits = Hard (quota_spec (list_quota [''team-a''] [(''tickets'', 1)] []))\<rparr>) \<and>
   length (filter (\<lambda>t. Namespace (ticket_meta t) = ''team-a'')
     (c_tickets (mem_cluster (quota_world [list_quota [''team-a''] [(''tickets'', 1)] []])))) = 2"
proof
  let ?q = "list_quota [''team-a''] [(''tickets'', 1)] []" and ?t = "cpu_ticket ''team-a'' ''t9''"
  let ?w = "quota_world [?q]"
  let ?r = "run_state (Ticket_ValidateCreate mem_client exact_ops ?t) ?w"
  have run: "?r = ((fst (fst ?r), snd (fst ?r)), snd ?r)" by simp
  have "snd (fst ?r) = None" by code_simp
  moreover have "counted ?q (ticket_meta ?t)" "requests_wf (ticket_spec ?t)" by code_simp+
  moreover have "c_quotas (mem_cluster ?w) = [?q]" by (simp add: mem_cluster_def quota_world_def)
  ultimately show "resources_ok fst (Some \<lparr>Requests = calculateTicketResourceRequests exact_ops ?t, Limits = Hard (quota_spec ?q)\<rparr>)"
    using ticket_creation_is_decided [OF memx.available_quota_control_axioms, OF run] by simp
  show "length (filter (\<lambda>t. Namespace (ticket_meta t) = ''team-a'') (c_tickets (mem_cluster ?w))) = 2" by code_simp
qed

text \<open>
  C29. The decision on an update of a ticket. \<open>ValidateUpdate\<close> accepts it exactly when the new
  specification is right and a node name is not replaced by another one; it warns about the
  resources exactly when both tickets have some and an amount under some key differs. Removing a
  node name is accepted, so it can be replaced in two steps.
\<close>

theorem ticket_updates_are_decided:
  assumes "quantity_laws Q amount" "run_state (Ticket_ValidateUpdate C Q old new) w = ((warnings, err), w')"
    and "requests_wf (ticket_spec old)" "requests_wf (ticket_spec new)"
  shows "(err = None \<longleftrightarrow> ticket_spec_ok amount (ticket_spec new) \<and>
      (\<forall>a b. NodeName (ticket_spec old) = Some a \<longrightarrow> NodeName (ticket_spec new) = Some b \<longrightarrow> a = b)) \<and>
    (resources_warning \<in> set warnings \<longleftrightarrow>
      (\<exists>a b. Resources (ticket_spec old) = Some a \<and> Resources (ticket_spec new) = Some b \<and>
        \<not> (same_amounts amount (Requests a) (Requests b) \<and> same_amounts amount (Limits a) (Limits b))))"
  using Ticket_ValidateUpdate_result [OF assms] by blast

definition on_node :: "string option \<Rightarrow> exact ticket" where
  "on_node n = (cpu_ticket ''team-a'' ''t'')\<lparr>ticket_spec := (ticket_spec (cpu_ticket ''team-a'' ''t''))\<lparr>NodeName := n\<rparr>\<rparr>"

theorem ticket_updates_are_decided_witness:
  "snd (fst (run_state (Ticket_ValidateUpdate mem_client exact_ops (on_node (Some ''n1'')) (on_node None)) (clock_at 0))) = None \<and>
   snd (fst (run_state (Ticket_ValidateUpdate mem_client exact_ops (on_node None) (on_node (Some ''n2''))) (clock_at 0))) = None \<and>
   snd (fst (run_state (Ticket_ValidateUpdate mem_client exact_ops (on_node (Some ''n1'')) (on_node (Some ''n2''))) (clock_at 0)))
     \<noteq> None"
proof -
  have ok: "ticket_spec_ok fst (ticket_spec (on_node n))" "requests_wf (ticket_spec (on_node n))" for n
    by (simp_all add: ticket_spec_ok_def template_ok_def window_ok_def ticket_window_ok_def positive_window_def negative_def
        resources_ok_def nonnegative_def requests_wf_def gm_wf_def cpu_ticket_def on_node_def)
  have node: "NodeName (ticket_spec (on_node n)) = n" for n by (simp add: on_node_def)
  have run: "run_state m (clock_at 0) = ((fst (fst (run_state m (clock_at 0))), snd (fst (run_state m (clock_at 0)))),
      snd (run_state m (clock_at 0)))" for m :: "(exact mem, admission) state"
    by simp
  have "snd (fst (run_state (Ticket_ValidateUpdate mem_client exact_ops (on_node a) (on_node b)) (clock_at 0))) = None
      \<longleftrightarrow> (\<forall>x y. a = Some x \<longrightarrow> b = Some y \<longrightarrow> x = y)" for a b
    using ticket_updates_are_decided [OF exact.quantity_laws_axioms, OF run ok(2) ok(2)] by (simp add: node ok(1))
  then show ?thesis by simp
qed

text \<open>
  C30. The order webhook checks ticket templates less strictly than the ticket webhook checks
  tickets. When the specification of an order is accepted, a ticket built from its template, with
  the defaults filled in, is accepted exactly when the template's duration, if any, is positive
  and its requests and limits are not negative: of the other templates no ticket is ever
  admitted, though the order was.
\<close>

theorem order_templates_are_checked_less:
  assumes "quantity_laws Q amount" "requests_wf (template_spec (Template (order_spec ord)))"
    and "snd (validateOrderSpec Q ord) = None"
    and "run_state (Ticket_Default C zone Q (new_ticket ord i)) w = (t', w1)"
    and "run_state (validateTicketSpec C Q t') w1 = ((warnings, err), w2)"
    and "\<And>now v. run_state (TimeNow C) w = (now, v) \<Longrightarrow> readable zone now"
    and "0 \<le> amount (q_must_parse Q ''100m'')" "0 \<le> amount (q_must_parse Q ''128Mi'')"
  shows "err = None \<longleftrightarrow>
    positive_window (Window (template_spec (Template (order_spec ord)))) \<and>
    (case Resources (template_spec (Template (order_spec ord))) of
       None \<Rightarrow> True
     | Some rr \<Rightarrow> nonnegative amount (Requests rr) \<and> nonnegative amount (Limits rr))"
proof -
  let ?spec = "template_spec (Template (order_spec ord))"
  have new: "ticket_spec (new_ticket ord i) = ?spec" by (simp add: new_ticket_def)
  have "requests_wf (ticket_spec t')" by (rule defaulted_requests_wf [OF assms(4)]) (simp add: new assms(2))
  from quantity_laws.validateTicketSpec_ok [OF assms(1,5) this]
  have "err = None \<longleftrightarrow> ticket_spec_ok amount (ticket_spec t')" .
  also have "\<dots> \<longleftrightarrow> ticket_spec_ok amount ?spec"
    unfolding new [symmetric] by (rule quantity_laws.Ticket_Default_ok [OF assms(1,4) _ assms(7,8)]) (rule assms(6))
  moreover have "template_ok amount ?spec" using quantity_laws.validateOrderSpec_ok [OF assms(1,2)] assms(3) by blast
  ultimately show ?thesis by (auto simp: ticket_spec_ok_def template_ok_def ticket_window_ok_def)
qed

definition zero_window_order :: "exact order" where
  "zero_window_order =
     (let ord = team_order 1; tpl = Template (order_spec ord) in
      ord\<lparr>order_spec := (order_spec ord)\<lparr>Template := tpl\<lparr>template_spec := (template_spec tpl)
        \<lparr>Window := Some \<lparr>StartTime = None, TimeZone = None, Duration = ''0s''\<rparr>\<rparr>\<rparr>\<rparr>\<rparr>)"

theorem order_templates_are_checked_less_witness:
  "\<not> positive_window (Window (template_spec (Template (order_spec zero_window_order))))"
proof -
  let ?d = "run_state (Ticket_Default mem_client (\<lambda>_. 3600) exact_ops (new_ticket zero_window_order 0)) (clock_at 3600500000000)"
  let ?s = "run_state (validateTicketSpec mem_client exact_ops (fst ?d)) (snd ?d)"
  have runs: "?d = (fst ?d, snd ?d)" "?s = ((fst (fst ?s), snd (fst ?s)), snd ?s)" by simp_all
  have order: "requests_wf (template_spec (Template (order_spec zero_window_order)))"
    "snd (validateOrderSpec exact_ops zero_window_order) = None"
    by code_simp+
  have parse: "0 \<le> fst (q_must_parse exact_ops ''100m'')" "0 \<le> fst (q_must_parse exact_ops ''128Mi'')" by code_simp+
  have "readable (\<lambda>_. 3600) now" if "run_state (TimeNow mem_client) (clock_at 3600500000000) = (now, v)" for now v
    using that early_readable by (simp add: clock_runs)
  from order_templates_are_checked_less [OF exact.quantity_laws_axioms, OF order, OF runs this parse]
  have "snd (fst ?s) = None \<longleftrightarrow> positive_window (Window (template_spec (Template (order_spec zero_window_order))))"
    by (simp add: zero_window_order_def Let_def team_order_def cpu_ticket_def nonnegative_def)
  moreover have "snd (fst ?s) \<noteq> None" by code_simp
  ultimately show ?thesis by blast
qed

end
