(* ===== verification/Admission.thy ===== *)
theory Admission
  imports TicketWebhook
begin

text \<open>
  The ticket webhook in front of the API server, as the order controller meets it: the server
  gives every ticket that is to be created to \<open>Default\<close> and the result to \<open>ValidateCreate\<close>
  (\<open>internal/webhook/v1alpha1/ticket_webhook.go\<close>, registered for creates with \<open>failurePolicy=fail\<close>),
  and stores it only if it is accepted. The server with the webhook is again an
  \<open>available_ticket_store\<close>, which lets in the tickets the webhook accepts; with that, what
  \<open>OrderController\<close> shows of scaling up holds behind the webhook.
\<close>

section \<open>The server with the webhook\<close>

definition ticket_admission ::
  "('q, 'w) client \<Rightarrow> (time \<Rightarrow> int) \<Rightarrow> 'q quantity_ops \<Rightarrow> 'q ticket \<Rightarrow> ('w, go_error + 'q ticket) state" where
  "ticket_admission C zone Q t = do {
     t' \<leftarrow> Ticket_Default C zone Q t;
     a \<leftarrow> Ticket_ValidateCreate C Q t';
     State_Monad.return (case snd a of None \<Rightarrow> Inr t' | Some e \<Rightarrow> Inl e)
   }"

definition admitting :: "('q, 'w) client \<Rightarrow> (time \<Rightarrow> int) \<Rightarrow> 'q quantity_ops \<Rightarrow> ('q, 'w) client" where
  "admitting C zone Q =
     C\<lparr>CreateTicket := \<lambda>t. on_ok (ticket_admission C zone Q t) (CreateTicket C)\<rparr>"

lemma admitting_simps [simp]:
  "CreateTicket (admitting C zone Q) t = on_ok (ticket_admission C zone Q t) (CreateTicket C)"
  "ListTickets (admitting C zone Q) = ListTickets C"
  "DeleteTicket (admitting C zone Q) = DeleteTicket C"
  "CounterInc (admitting C zone Q) = CounterInc C"
  "HistogramObserve (admitting C zone Q) = HistogramObserve C"
  "TimeNow (admitting C zone Q) = TimeNow C"
  "GetOrder (admitting C zone Q) = GetOrder C"
  "UpdateOrder (admitting C zone Q) = UpdateOrder C"
  "UpdateOrderStatus (admitting C zone Q) = UpdateOrderStatus C"
  "SetControllerReference (admitting C zone Q) = SetControllerReference C"
  by (simp_all add: admitting_def)

text \<open>
  Which tickets the webhook accepts: the specification is right, and what the ticket asks for,
  the default requests included, is within each counted quota on its own. A ticket with no start
  time gets the time of the clock, which must be one that RFC 3339 can write.
\<close>

definition clock_readable :: "('q, 'w) client \<Rightarrow> (time \<Rightarrow> int) \<Rightarrow> bool" where
  "clock_readable C zone \<longleftrightarrow> (\<forall>w now w'. run_state (TimeNow C) w = (now, w') \<longrightarrow> readable zone now)"

definition spec_readable :: "('q, 'w) client \<Rightarrow> (time \<Rightarrow> int) \<Rightarrow> 'q ticket_spec \<Rightarrow> bool" where
  "spec_readable C zone spec \<longleftrightarrow>
     requests_wf spec \<and> (Window spec = None \<or> StartTime (the (Window spec)) = None \<longrightarrow> clock_readable C zone)"

definition with_default_resources :: "'q quantity_ops \<Rightarrow> 'q ticket \<Rightarrow> 'q ticket" where
  "with_default_resources Q t =
     t\<lparr>ticket_spec := (ticket_spec t)\<lparr>Resources := or_default (Resources (ticket_spec t)) (default_resources Q)\<rparr>\<rparr>"

definition webhook_accepts :: "'q quantity_ops \<Rightarrow> ('q \<Rightarrow> int) \<Rightarrow> 'q quota set \<Rightarrow> 'q ticket \<Rightarrow> bool" where
  "webhook_accepts Q amount quotas t \<longleftrightarrow>
     ticket_spec_ok amount (ticket_spec t) \<and>
     (\<forall>quota \<in> quotas. counted quota (ticket_meta t) \<longrightarrow>
        resources_ok amount (Some \<lparr>Requests = calculateTicketResourceRequests Q (with_default_resources Q t),
          Limits = Hard (quota_spec quota)\<rparr>))"

definition defaulted_accepted ::
  "('q, 'w) client \<Rightarrow> (time \<Rightarrow> int) \<Rightarrow> 'q quantity_ops \<Rightarrow> ('w \<Rightarrow> 'q ticket \<Rightarrow> bool) \<Rightarrow> 'w \<Rightarrow> 'q ticket \<Rightarrow> bool" where
  "defaulted_accepted C zone Q accepts w t \<longleftrightarrow>
     (\<forall>u t' u'. run_state (Ticket_Default C zone Q t) u = (t', u') \<longrightarrow> accepts w t')"

section \<open>The webhook only reads\<close>

lemma run_for_each_pure:
  assumes "\<And>x v. snd (run_state (f x) v) = v"
  shows "snd (run_state (for_each f xs) w) = w"
proof (induction xs arbitrary: w)
  case (Cons x xs)
  obtain r v where "run_state (f x) w = (r, v)" by fastforce
  with assms [of x w] Cons.IH [of w] show ?case by (simp add: run_on_ok split: sum.split)
qed simp

text \<open>What every read of the webhook keeps is kept by the webhook.\<close>

lemma ticket_admission_frame:
  assumes run: "run_state (ticket_admission C zone Q t) w = (r, w')"
    and now: "\<And>v. f (snd (run_state (TimeNow C) v)) = f v"
    and quotas: "\<And>v opts. f (snd (run_state (ListQuotas C opts) v)) = f v"
  shows "f w' = f w"
proof -
  obtain t' u where d: "run_state (Ticket_Default C zone Q t) w = (t', u)" by fastforce
  obtain a v where a: "run_state (Ticket_ValidateCreate C Q t') u = (a, v)" by fastforce
  have "f u = f w"
  proof (rule run_Ticket_Default [OF d])
    fix win' assume "run_state (default_window C zone (Window (ticket_spec t))) w = (win', u)"
    from default_window_run(2) [OF this] now [of w] show "f u = f w" by auto
  qed
  moreover have "f v = f u"
  proof -
    obtain s x where s: "run_state (validateTicketSpec C Q t') u = (s, x)" by fastforce
    have "f x = f u" using run_validateTicketSpec [of C Q t' u] now [of u] s by auto
    moreover have "f (snd (run_state (validateTicketQuotaCompliance C Q t') x)) = f x"
    proof -
      let ?check = "Ticket_check_quota Q (Namespace (ticket_meta t')) (calculateTicketResourceRequests Q t')
          :: 'a quota \<Rightarrow> ('b, go_error + unit) state"
      have pure: "snd (run_state (for_each ?check qs) y) = y" for qs y
        by (rule run_for_each_pure) (simp add: Ticket_check_quota_def split: option.split)
      obtain rq y where y: "run_state (ListQuotas C everything) x = (rq, y)" by fastforce
      then have "f y = f x" using quotas [of everything x] by simp
      with y pure show ?thesis
        by (simp add: validateTicketQuotaCompliance_def Ticket_validateAgainstQuotas_def run_on_ok split: sum.split)
    qed
    ultimately show ?thesis
      using a s by (auto simp: Ticket_ValidateCreate_def run_simps split: option.splits sum.splits prod.splits)
  qed
  moreover have "w' = v" using run d a by (simp add: ticket_admission_def run_simps)
  ultimately show ?thesis by simp
qed

lemma ticket_admission_meta:
  assumes "run_state (ticket_admission C zone Q t) w = (Inr t', w')"
  obtains u where "run_state (Ticket_Default C zone Q t) w = (t', u)" "ticket_meta t' = ticket_meta t"
proof -
  obtain s u where d: "run_state (Ticket_Default C zone Q t) w = (s, u)" by fastforce
  have "s = t'" using assms d by (auto simp: ticket_admission_def run_simps split: prod.splits option.splits)
  moreover have "ticket_meta s = ticket_meta t" by (rule run_Ticket_Default [OF d]) simp
  ultimately show thesis using d that by simp
qed

section \<open>The server with the webhook is a server\<close>

text \<open>
  What is relied on beyond the two contracts: a list of quotas and a reading of the clock change
  neither the tickets nor what the server accepts, writing a ticket or a metric changes no quota,
  and the two default requests parse to amounts that are not negative. \<open>accepts\<close> is what the
  server itself lets in, without the webhook: its schema check. (A Kubernetes \<open>ResourceQuota\<close> that
  counts tickets would make it depend on the tickets stored before, and is not considered.)
\<close>

locale admission_server =
  available_quota_control C snap Q amount + available_ticket_store C view accepts
  for C :: "('q, 'w) client" and snap and Q :: "'q quantity_ops" and amount
    and view :: "'w \<Rightarrow> object_key \<Rightarrow> 'q ticket option" and accepts +
  fixes zone :: "time \<Rightarrow> int"
  assumes quotas_frame: "run_state (ListQuotas C opts) w = (rq, w') \<Longrightarrow> view w' = view w"
    and quotas_accepts: "run_state (ListQuotas C opts) w = (rq, w') \<Longrightarrow> accepts w' t = accepts w t"
    and clock_accepts: "run_state (TimeNow C) w = (now, w') \<Longrightarrow> accepts w' t = accepts w t"
    and create_quotas: "run_state (CreateTicket C t) w = (rt, w') \<Longrightarrow> set (c_quotas (snap w')) = set (c_quotas (snap w))"
    and counter_quotas: "run_state (CounterInc C nm ls) w = (u, w') \<Longrightarrow> set (c_quotas (snap w')) = set (c_quotas (snap w))"
    and default_amounts: "0 \<le> amount (q_must_parse Q ''100m'')" "0 \<le> amount (q_must_parse Q ''128Mi'')"
begin

lemma admission_frames:
  assumes "run_state (ticket_admission C zone Q t) w = (r, w')"
  shows "view w' = view w" "snap w' = snap w" "accepts w' = accepts w"
proof -
  show "view w' = view w"
    by (rule ticket_admission_frame [OF assms])
      (use now_frame quotas_frame [OF prod.collapse [symmetric]] in simp_all)
  show "snap w' = snap w"
    by (rule ticket_admission_frame [OF assms])
      (use read_clock [OF prod.collapse [symmetric]] read_quotas [OF prod.collapse [symmetric]] in simp_all)
  show "accepts w' = accepts w"
    by (rule ticket_admission_frame [OF assms])
      (use clock_accepts [OF prod.collapse [symmetric]] quotas_accepts [OF prod.collapse [symmetric]] in \<open>auto simp: fun_eq_iff\<close>)
qed

text \<open>The decision of the webhook on a ticket that has yet to get its defaults.\<close>

lemma ticket_admission_decides:
  assumes run: "run_state (ticket_admission C zone Q t) w = (r, w')"
    and spec: "spec_readable C zone (ticket_spec t)"
  shows "(\<exists>t'. r = Inr t') \<longleftrightarrow> webhook_accepts Q amount (set (c_quotas (snap w))) t"
proof -
  obtain t' u where d: "run_state (Ticket_Default C zone Q t) w = (t', u)" by fastforce
  obtain ws e v where a: "run_state (Ticket_ValidateCreate C Q t') u = ((ws, e), v)" by (metis prod.exhaust)
  have wf: "requests_wf (ticket_spec t')"
    by (rule defaulted_requests_wf [OF d]) (use spec in \<open>simp add: spec_readable_def\<close>)
  have u: "snap u = snap w"
  proof (rule run_Ticket_Default [OF d])
    fix win' assume "run_state (default_window C zone (Window (ticket_spec t))) w = (win', u)"
    from default_window_run(2) [OF this] read_clock show "snap u = snap w" by auto
  qed
  have "ticket_spec_ok amount (ticket_spec t') \<longleftrightarrow> ticket_spec_ok amount (ticket_spec t)"
    using spec by (intro Ticket_Default_ok [OF d _ default_amounts]) (auto simp: spec_readable_def clock_readable_def)
  moreover have "ticket_meta t' = ticket_meta t"
    "calculateTicketResourceRequests Q t' = calculateTicketResourceRequests Q (with_default_resources Q t)"
    by (rule run_Ticket_Default [OF d],
        simp add: with_default_resources_def calculateTicketResourceRequests_def)+
  ultimately have "e = None \<longleftrightarrow> webhook_accepts Q amount (set (c_quotas (snap w))) t"
    using Ticket_ValidateCreate_decides [OF a wf] u by (simp add: webhook_accepts_def)
  then show ?thesis using run d a by (auto simp: ticket_admission_def run_simps split: option.splits)
qed

end

definition webhook_admits ::
  "('q, 'w) client \<Rightarrow> (time \<Rightarrow> int) \<Rightarrow> 'q quantity_ops \<Rightarrow> ('q \<Rightarrow> int) \<Rightarrow> ('w \<Rightarrow> 'q cluster) \<Rightarrow>
   ('w \<Rightarrow> 'q ticket \<Rightarrow> bool) \<Rightarrow> 'w \<Rightarrow> 'q ticket \<Rightarrow> bool" where
  "webhook_admits C zone Q amount snap accepts w t \<longleftrightarrow>
     spec_readable C zone (ticket_spec t) \<and> webhook_accepts Q amount (set (c_quotas (snap w))) t \<and>
     defaulted_accepted C zone Q accepts w t"

lemma webhook_admits_cong:
  assumes "set (c_quotas (snap v)) = set (c_quotas (snap w))" "accepts v = accepts w"
  shows "webhook_admits C zone Q amount snap accepts v t = webhook_admits C zone Q amount snap accepts w t"
  using assms by (simp add: webhook_admits_def defaulted_accepted_def)

context admission_server
begin

lemma admitting_create:
  assumes "run_state (CreateTicket (admitting C zone Q) t) w = (r, w')"
  obtains v where "view v = view w" "snap v = snap w" "accepts v = accepts w"
    and "(w' = v \<and> (\<exists>e. r = Inl e)) \<or> (\<exists>s. ticket_meta s = ticket_meta t \<and> run_state (CreateTicket C s) v = (r, w'))"
proof -
  obtain a v where a: "run_state (ticket_admission C zone Q t) w = (a, v)" by fastforce
  have "(w' = v \<and> (\<exists>e. r = Inl e)) \<or> (\<exists>s. ticket_meta s = ticket_meta t \<and> run_state (CreateTicket C s) v = (r, w'))"
  proof (cases a)
    case (Inl e)
    with assms a show ?thesis by (auto simp: run_on_ok)
  next
    case (Inr s)
    with a have "ticket_meta s = ticket_meta t" by (auto elim: ticket_admission_meta)
    with Inr assms a show ?thesis by (auto simp: run_on_ok)
  qed
  with admission_frames [OF a] show thesis by (rule that)
qed

lemma admitting_keeps_admission:
  assumes "run_state (CreateTicket (admitting C zone Q) t) w = (r, w')"
  shows "set (c_quotas (snap w')) = set (c_quotas (snap w))" "accepts w' = accepts w"
  by (rule admitting_create [OF assms], use create_quotas create_admits in \<open>force simp: fun_eq_iff\<close>)+

lemma admitting_available:
  assumes "webhook_admits C zone Q amount snap accepts w t" "view w (ticket_key t) = None"
  shows "\<exists>t' w'. run_state (CreateTicket (admitting C zone Q) t) w = (Inr t', w')"
proof -
  obtain r v where run: "run_state (ticket_admission C zone Q t) w = (r, v)" by fastforce
  with assms(1) ticket_admission_decides [OF run] obtain s where s: "r = Inr s" by (auto simp: webhook_admits_def)
  note a = run [unfolded s]
  obtain u where "run_state (Ticket_Default C zone Q t) w = (s, u)" using a by (rule ticket_admission_meta)
  then have "accepts w s" using assms(1) by (auto simp: webhook_admits_def defaulted_accepted_def)
  moreover have "ticket_key s = ticket_key t" using a by (auto elim: ticket_admission_meta)
  ultimately obtain t' w' where "run_state (CreateTicket C s) v = (Inr t', w')"
    using create_available [of v s] admission_frames [OF a] assms(2) by auto
  with a show ?thesis by (simp add: run_on_ok)
qed

end

text \<open>The server with the webhook meets the contract of a server that is up.\<close>

sublocale admission_server \<subseteq> adm:
  available_ticket_store "admitting C zone Q" view "webhook_admits C zone Q amount snap accepts"
proof (unfold_locales, unfold admitting_simps(2-))
  show "view w (ticket_key t) = None \<and>
      (\<exists>s. view w' = (view w)(ticket_key t \<mapsto> s) \<and> same_identity (ticket_meta t) (ticket_meta s) \<and>
         Phase (ticket_status s) = NoPhase)"
    if "run_state (CreateTicket (admitting C zone Q) t) w = (Inr t', w')" for t w t' w'
  proof (rule admitting_create [OF that])
    fix v assume "view v = view w" "(w' = v \<and> (\<exists>e. Inr t' = Inl e)) \<or>
        (\<exists>s. ticket_meta s = ticket_meta t \<and> run_state (CreateTicket C s) v = (Inr t', w'))"
    then obtain s where "view v = view w" "ticket_meta s = ticket_meta t" "run_state (CreateTicket C s) v = (Inr t', w')"
      by auto
    with create_result [OF this(3)] show ?thesis by simp
  qed
  show "view w' = view w"
    if "run_state (CreateTicket (admitting C zone Q) t) w = (Inl e, w')" for t w e w'
    by (rule admitting_create [OF that]) (auto dest: create_failure)
  show "webhook_admits C zone Q amount snap accepts w' t' = webhook_admits C zone Q amount snap accepts w t'"
    if "run_state (CreateTicket (admitting C zone Q) t) w = (rt, w')" for t w rt w' t'
    by (rule webhook_admits_cong; rule admitting_keeps_admission [OF that])
  show "webhook_admits C zone Q amount snap accepts w' t = webhook_admits C zone Q amount snap accepts w t"
    if "run_state (ListTickets C opts) w = (r, w')" for opts w r w' t
    using read_tickets [OF that] list_admits [OF that] by (intro webhook_admits_cong) auto
  show "webhook_admits C zone Q amount snap accepts w' t = webhook_admits C zone Q amount snap accepts w t"
    if "run_state (CounterInc C nm ls) w = (u, w')" for nm ls w u w' t
    using counter_quotas [OF that] counter_admits [OF that] by (intro webhook_admits_cong) auto
  show "\<exists>t' w'. run_state (CreateTicket (admitting C zone Q) t) w = (Inr t', w')"
    if "webhook_admits C zone Q amount snap accepts w t" "view w (ticket_key t) = None" for w t
    using that by (rule admitting_available)
qed (rule view_key view_finite list_frame list_result delete_result delete_failure delete_not_found counter_frame
  histogram_frame now_frame get_order_frame update_order_frame update_order_status_frame set_reference_identity
  list_available set_reference_available; assumption?)+

section \<open>Scaling up behind the webhook\<close>

lemma new_ticket_accepted:
  assumes "same_identity (ticket_meta (new_ticket ord i)) m"
  shows "webhook_accepts Q amount quotas ((new_ticket ord i)\<lparr>ticket_meta := m\<rparr>) \<longleftrightarrow>
    webhook_accepts Q amount quotas (new_ticket ord j)"
  using assms
  by (auto simp: webhook_accepts_def with_default_resources_def calculateTicketResourceRequests_def counted_def
      new_ticket_def same_identity_def cong: quota_scope_type.case_cong)

context admission_server
begin

lemma scale_up_admitted:
  assumes spec: "spec_readable C zone (template_spec (Template (order_spec ord)))"
    and ok: "webhook_accepts Q amount (set (c_quotas (snap w))) (new_ticket ord 0)"
    and bound: "card (active_keys view ord w) < 2 ^ 31"
    and few: "int (card (active_keys view ord w)) \<le> sint (desired_replicas ord)"
    and free: "\<And>j. int j < sint (desired_replicas ord) - int (card (active_keys view ord w)) \<Longrightarrow>
         view w (new_key ord (of_nat (card (owned_keys view ord w) + j))) = None \<and>
         lets_in C (defaulted_accepted C zone Q accepts) w ord (of_nat (card (owned_keys view ord w) + j))"
  shows "\<exists>w'. run_state (reconcileTickets (admitting C zone Q) ord) w = (requeue_5m, w') \<and>
     int (card (active_keys view ord w')) = sint (desired_replicas ord)"
proof (rule adm.reconcileTickets_available [OF bound few])
  fix j assume "int j < sint (desired_replicas ord) - int (card (active_keys view ord w))"
  from free [OF this] ok spec set_reference_identity
  show "view w (new_key ord (of_nat (card (owned_keys view ord w) + j))) = None \<and>
      lets_in (admitting C zone Q) (webhook_admits C zone Q amount snap accepts) w ord
        (of_nat (card (owned_keys view ord w) + j))"
    by (auto simp: lets_in_def webhook_admits_def new_ticket_accepted [where j = 0])
      (simp add: new_ticket_def)
qed

lemma scale_up_refused:
  assumes spec: "spec_readable C zone (template_spec (Template (order_spec ord)))"
    and refused: "\<not> webhook_accepts Q amount (set (c_quotas (snap w))) (new_ticket ord 0)"
    and bound: "card (active_keys view ord w) < 2 ^ 31"
    and few: "int (card (active_keys view ord w)) < sint (desired_replicas ord)"
  shows "\<exists>e w'. run_state (reconcileTickets (admitting C zone Q) ord) w = (Inl e, w') \<and> view w' = view w"
proof (rule adm.reconcileTickets_blocked [OF bound few])
  let ?i = "of_nat (card (owned_keys view ord w)) :: int32"
  fix ts v assume l: "run_state (getOwnedTickets (admitting C zone Q) ord) w = (Inr ts, v)"
  then have snap: "snap v = snap w" by (auto simp: getOwnedTickets_def dest: read_tickets)
  from set_reference_available obtain m
    where m: "SetControllerReference C ''Order'' (order_meta ord) (ticket_meta (new_ticket ord ?i)) = Inr m" by blast
  define t where "t = (new_ticket ord ?i)\<lparr>ticket_meta := m\<rparr>"
  obtain a u where a: "run_state (ticket_admission C zone Q t) v = (a, u)" by fastforce
  have "spec_readable C zone (ticket_spec t)" using spec by (simp add: t_def new_ticket_def)
  from ticket_admission_decides [OF a this] refused new_ticket_accepted [OF set_reference_identity [OF m], where j = 0] snap
  obtain e where "a = Inl e" by (cases a) (auto simp: t_def)
  with a have "run_state (CreateTicket (admitting C zone Q) t) v = (Inl e, u)" by (simp add: run_on_ok)
  with m show "\<exists>e u. run_state (createTicket (admitting C zone Q) ord ?i) v = (Inl e, u)"
    by (auto simp: createTicket_def Let_def t_def run_simps split: prod.splits)
qed

end

text \<open>The in-memory server with the webhook in front of it, in a zone one hour east.\<close>

interpretation mema: admission_server mem_client mem_cluster exact_ops fst ticket_view "\<lambda>_ _. True" "\<lambda>_. 3600"
proof unfold_locales
  show "0 \<le> fst (q_must_parse exact_ops ''100m'')" "0 \<le> fst (q_must_parse exact_ops ''128Mi'')" by code_simp+
qed (auto simp: mem_client_def ticket_view_def mem_cluster_def run_mem_write split: prod.splits)

definition dated_order :: "int32 \<Rightarrow> exact order" where
  "dated_order n =
     (let ord = team_order n; tpl = Template (order_spec ord) in
      ord\<lparr>order_spec := (order_spec ord)\<lparr>Template := tpl\<lparr>template_spec := (template_spec tpl)
        \<lparr>Window := Some \<lparr>StartTime = Some ''2026-01-01T09:00:00Z'', TimeZone = None, Duration = ''1h''\<rparr>\<rparr>\<rparr>\<rparr>\<rparr>)"

text \<open>
  C11. Scaling up behind the ticket webhook, when the names it will use are free. The new tickets
  are numbered from the number of all owned tickets on, expired ones included. With the API up,
  and the schema of the server accepting the defaulted tickets, the outcome rests on the template
  alone. If the specification of its tickets is right and what one of them asks for is within each
  quota that applies, the pass returns without error and reaches the wanted number, whatever the
  tickets that are there already use. Otherwise a pass that needs a ticket returns an error and
  leaves the stored tickets as they are.
\<close>

theorem scale_up_succeeds_when_names_are_free:
  assumes "admission_server C snap Q amount view accepts"
    and "card (active_keys view ord w) < 2 ^ 31"
    and "int (card (active_keys view ord w)) \<le> sint (desired_replicas ord)"
    and "\<And>j. int j < sint (desired_replicas ord) - int (card (active_keys view ord w)) \<Longrightarrow>
         view w (new_key ord (of_nat (card (owned_keys view ord w) + j))) = None \<and>
         lets_in C (defaulted_accepted C zone Q accepts) w ord (of_nat (card (owned_keys view ord w) + j))"
    and "spec_readable C zone (template_spec (Template (order_spec ord)))"
  shows "if webhook_accepts Q amount (set (c_quotas (snap w))) (new_ticket ord 0)
    then \<exists>w'. run_state (reconcileTickets (admitting C zone Q) ord) w = (requeue_5m, w') \<and>
      int (card (active_keys view ord w')) = sint (desired_replicas ord)
    else int (card (active_keys view ord w)) < sint (desired_replicas ord) \<longrightarrow>
      (\<exists>e w'. run_state (reconcileTickets (admitting C zone Q) ord) w = (Inl e, w') \<and> view w' = view w)"
  using admission_server.scale_up_admitted [OF assms(1,5) _ assms(2,3,4)]
    admission_server.scale_up_refused [OF assms(1,5) _ assms(2)] by simp

text \<open>
  A namespace with two tickets and a quota of one: an order gets its two. With a quota that allows
  no CPU it gets none.
\<close>

theorem scale_up_succeeds_when_names_are_free_witness:
  "(\<exists>w'. run_state (reconcileTickets (admitting mem_client (\<lambda>_. 3600) exact_ops) (dated_order 2))
        (quota_world [list_quota [''team-a''] [(''tickets'', 1)] []]) = (requeue_5m, w') \<and>
      card (active_keys ticket_view (dated_order 2) w') = 2) \<and>
   (\<exists>e w'. run_state (reconcileTickets (admitting mem_client (\<lambda>_. 3600) exact_ops) (dated_order 2))
        (quota_world [list_quota [''team-a''] [(''reserved.cpu'', 0)] []]) = (Inl e, w') \<and>
      ticket_view w' = ticket_view (quota_world [list_quota [''team-a''] [(''reserved.cpu'', 0)] []]))"
proof -
  let ?o = "dated_order 2"
  have count: "length (filterActiveTickets (store_list ticket_kind (owned_options ?o) (m_tickets (quota_world qs)))) = 0"
    "length (store_list ticket_kind (owned_options ?o) (m_tickets (quota_world qs))) = 0" for qs
    by (simp_all add: quota_world_def) code_simp+
  have desired: "sint (desired_replicas ?o) = 2" by code_simp
  have *: "ticket_view (quota_world qs) (new_key ?o (of_nat 0)) = None"
    "ticket_view (quota_world qs) (new_key ?o (of_nat 1)) = None" for qs
    by (simp_all add: quota_world_def ticket_view_def) code_simp+
  have free: "ticket_view (quota_world qs) (new_key ?o (of_nat j)) = None" if "int j < 2" for j qs
  proof -
    have "j = 0 \<or> j = 1" using that by auto
    with * show ?thesis by auto
  qed
  have spec: "spec_readable mem_client (\<lambda>_. 3600) (template_spec (Template (order_spec ?o)))"
    by (simp add: spec_readable_def dated_order_def Let_def) code_simp
  have quotas: "set (c_quotas (mem_cluster (quota_world [q]))) = {q}" for q
    by (simp add: mem_cluster_def quota_world_def)
  have counts: "card (active_keys ticket_view ?o (quota_world qs)) = 0" "card (owned_keys ticket_view ?o (quota_world qs)) = 0"
    for qs by (simp_all only: active_count_mem count)
  have scale: "if webhook_accepts exact_ops fst {q} (new_ticket ?o 0)
      then \<exists>w'. run_state (reconcileTickets (admitting mem_client (\<lambda>_. 3600) exact_ops) ?o) (quota_world [q]) = (requeue_5m, w') \<and>
        int (card (active_keys ticket_view ?o w')) = 2
      else \<exists>e w'. run_state (reconcileTickets (admitting mem_client (\<lambda>_. 3600) exact_ops) ?o) (quota_world [q]) = (Inl e, w') \<and>
        ticket_view w' = ticket_view (quota_world [q])" for q
    using scale_up_succeeds_when_names_are_free [OF mema.admission_server_axioms, of ?o "quota_world [q]", OF _ _ _ spec,
        unfolded counts desired quotas] free
    by (simp add: lets_in_def defaulted_accepted_def split: if_splits)
  have times: "ParseDuration ''1h'' = Inr 3600000000000" "\<not> isl (ParseRFC3339 ''2026-01-01T09:00:00Z'')"
    by code_simp+
  have spec_ok: "ticket_spec_ok fst (ticket_spec (new_ticket ?o 0))"
    by (simp add: dated_order_def team_order_def Let_def new_ticket_def cpu_ticket_def ticket_spec_ok_def template_ok_def
        window_ok_def ticket_window_ok_def positive_window_def negative_def resources_ok_def nonnegative_def times)
  have requests: "calculateTicketResourceRequests exact_ops (with_default_resources exact_ops (new_ticket ?o 0)) =
      Some [(''tickets'', (nano, DecimalSI)), (''reserved.cpu'', (100000000, DecimalSI))]"
    by code_simp
  have counted: "counted (list_quota [''team-a''] [h] []) (ticket_meta (new_ticket ?o 0))"
    and hard: "Hard (quota_spec (list_quota [''team-a''] [h] [])) = Some [(fst h, (snd h * nano, DecimalSI))]" for h
    by (simp_all add: counted_def list_quota_def new_ticket_def dated_order_def team_order_def Let_def case_prod_unfold)
  have "webhook_accepts exact_ops fst {list_quota [''team-a''] [(''tickets'', 1)] []} (new_ticket ?o 0)"
    "\<not> webhook_accepts exact_ops fst {list_quota [''team-a''] [(''reserved.cpu'', 0)] []} (new_ticket ?o 0)"
    unfolding webhook_accepts_def requests using spec_ok counted hard [of "(''tickets'', 1)"] hard [of "(''reserved.cpu'', 0)"]
    by (auto simp: resources_ok_def gm_get_def)
  with scale [of "list_quota [''team-a''] [(''tickets'', 1)] []"] scale [of "list_quota [''team-a''] [(''reserved.cpu'', 0)] []"]
  show ?thesis by simp
qed

end
