(* ===== verification/QuotaWebhook.thy ===== *)
theory QuotaWebhook
  imports OrderWebhook
begin

text \<open>
  \<open>internal/webhook/v1alpha1/quota_webhook.go\<close>: the admission webhook of quotas. The code comes
  first; then what the defaults give, what the specification check accepts, the admission
  decision, and the set of quotas that admission lets come about, as a step relation with its
  invariant.
\<close>

section \<open>The code\<close>

subsection \<open>Defaults\<close>

definition default_limits :: "'q quantity_ops \<Rightarrow> 'q resource_list \<Rightarrow> 'q resource_list" where
  "default_limits Q hard =
     (if gm_len hard = 0 then
        gm_put ''reserved.memory'' (q_must_parse Q ''2000Gi'')
          (gm_put ''reserved.cpu'' (q_must_parse Q ''1000'')
            (gm_put ''tickets'' (q_new Q 1000 DecimalSI)
              (gm_put ''orders'' (q_new Q 100 DecimalSI) hard)))
      else hard)"

definition default_max_duration :: "'q quantity_ops \<Rightarrow> 'q resource_list \<Rightarrow> 'q resource_list" where
  "default_max_duration Q hard =
     (if gm_get hard ''max-duration'' = None
      then gm_put ''max-duration'' (q_new Q (of_int (3600 * 10 ^ 9 * 24 * 7 div time_Second)) DecimalSI) hard
      else hard)"

definition Quota_Default :: "'q quantity_ops \<Rightarrow> 'q quota \<Rightarrow> 'q quota" where
  "Quota_Default Q quota =
     (let spec = quota_spec quota; scope = Scope spec;
          hard = (case Hard spec of None \<Rightarrow> gm_make | Some kvs \<Rightarrow> Some kvs) in
      quota\<lparr>quota_spec := spec
        \<lparr>Scope := scope\<lparr>ScopeType := (if ScopeType scope = NoScope then ClusterScope else ScopeType scope)\<rparr>,
         Hard := default_max_duration Q (default_limits Q hard)\<rparr>\<rparr>)"

subsection \<open>The specification check\<close>

definition negative_entry :: "'q quantity_ops \<Rightarrow> string \<times> 'q \<Rightarrow> bool" where
  "negative_entry Q rq \<longleftrightarrow> q_sign Q (snd rq) < 0"

definition known_resource :: "string \<Rightarrow> bool" where
  "known_resource r \<longleftrightarrow>
     r \<in> set [''orders'', ''tickets'', ''reserved.cpu'', ''reserved.memory'', ''max-duration''] \<or> go_has_prefix r ''reserved.''"

definition unknown_warnings :: "'q resource_list \<Rightarrow> string list" where
  "unknown_warnings hard =
     map (\<lambda>rq. ''Unknown resource type: '' @ fst rq) (filter (\<lambda>rq. \<not> known_resource (fst rq)) (gm_list hard))"

definition scope_error :: "quota_scope \<Rightarrow> go_error option" where
  "scope_error scope =
     (case ScopeType scope of
        NoScope \<Rightarrow> Some (Errorf ''scope type must be specified'')
      | NamespaceListScope \<Rightarrow>
          if Namespaces scope = [] then Some (Errorf ''namespace list scope requires at least one namespace'') else None
      | NamespaceSelectorScope \<Rightarrow>
          if NamespaceSelector scope = None then Some (Errorf ''namespace selector scope requires namespace selector'') else None
      | ObjectSelectorScope \<Rightarrow>
          if ObjectSelector scope = None then Some (Errorf ''object selector scope requires object selector'') else None
      | ClusterScope \<Rightarrow> None
      | OtherScope s \<Rightarrow> Some (Errorf (''unknown scope type: '' @ s)))"

fun windows_error :: "nat \<Rightarrow> time_window list \<Rightarrow> go_error option" where
  "windows_error i [] = None"
| "windows_error i (win # wins) =
     (if WindowName win = '''' then Some (Errorf (''time window '' @ show_nat i @ '' must have a name''))
      else if WindowSchedule win = '''' then Some (Errorf (''time window '' @ WindowName win @ '' must have a schedule''))
      else if Multiplier win = '''' then Some (Errorf (''time window '' @ WindowName win @ '' must have a multiplier''))
      else windows_error (Suc i) wins)"

text \<open>The limits of one allocation: the warnings grow until an error ends the loop.\<close>

fun check_limits :: "'q quantity_ops \<Rightarrow> 'q resource_list \<Rightarrow> nat \<Rightarrow> string \<Rightarrow> (string \<times> 'q) list \<Rightarrow> string list \<Rightarrow> admission" where
  "check_limits Q hard i namespace [] warnings = (warnings, None)"
| "check_limits Q hard i namespace ((r, quantity) # rest) warnings =
     (if q_sign Q quantity < 0
      then (warnings, Some (Errorf (''allocation '' @ show_nat i @ '' limit for '' @ r @ '' cannot be negative'')))
      else check_limits Q hard i namespace rest
        (case gm_get hard r of
           Some totalLimit \<Rightarrow>
             if q_cmp Q quantity totalLimit > 0
             then warnings @ [''Allocation for namespace '' @ namespace @ '' exceeds total quota for '' @ r] else warnings
         | None \<Rightarrow> warnings))"

fun check_allocations :: "'q quantity_ops \<Rightarrow> 'q resource_list \<Rightarrow> nat \<Rightarrow> 'q quota_allocation list \<Rightarrow> string list \<Rightarrow> admission" where
  "check_allocations Q hard i [] warnings = (warnings, None)"
| "check_allocations Q hard i (a # as) warnings =
     (if AllocNamespace a = ''''
      then (warnings, Some (Errorf (''allocation '' @ show_nat i @ '' must specify namespace'')))
      else case check_limits Q hard i (AllocNamespace a) (gm_list (AllocLimits a)) warnings of
        (ws, Some e) \<Rightarrow> (ws, Some e)
      | (ws, None) \<Rightarrow> check_allocations Q hard (Suc i) as ws)"

definition validateQuotaSpec :: "'q quantity_ops \<Rightarrow> 'q quota \<Rightarrow> admission" where
  "validateQuotaSpec Q quota =
     (let spec = quota_spec quota in
      case find (negative_entry Q) (gm_list (Hard spec)) of
        Some (r, _) \<Rightarrow> ([], Some (Errorf (''resource limit for '' @ r @ '' cannot be negative'')))
      | None \<Rightarrow>
          let warnings = unknown_warnings (Hard spec) in
          (case scope_error (Scope spec) of
             Some e \<Rightarrow> (warnings, Some e)
           | None \<Rightarrow>
               (case windows_error 0 (TimeWindows spec) of
                  Some e \<Rightarrow> (warnings, Some e)
                | None \<Rightarrow> check_allocations Q (Hard spec) 0 (Allocation spec) warnings)))"

subsection \<open>Scopes\<close>

definition validateQuotaScope :: "'q quota \<Rightarrow> go_error option" where
  "validateQuotaScope quota =
     (let scope = Scope (quota_spec quota) in
      if ScopeType scope = NamespaceListScope then
        if Namespaces scope = [] then Some (Errorf ''namespace list scope requires at least one namespace'')
        else if list_ex (\<lambda>ns. ns = '''') (Namespaces scope) then Some (Errorf ''namespace name cannot be empty'')
        else None
      else None)"

definition quotaScopesConflict :: "'q quota \<Rightarrow> 'q quota \<Rightarrow> bool" where
  "quotaScopesConflict quota1 quota2 \<longleftrightarrow>
     ScopeType (Scope (quota_spec quota1)) = ClusterScope \<and> ScopeType (Scope (quota_spec quota2)) = ClusterScope"

definition check_conflict :: "'q quota \<Rightarrow> 'q quota \<Rightarrow> ('w, go_error + unit) state" where
  "check_conflict quota existingQuota =
     (if Name (quota_meta existingQuota) = Name (quota_meta quota) \<and>
         Namespace (quota_meta existingQuota) = Namespace (quota_meta quota) then State_Monad.return (Inr ())
      else if quotaScopesConflict existingQuota quota
      then State_Monad.return (Inl (Errorf (''quota scope conflicts with existing quota '' @ Name (quota_meta existingQuota))))
      else State_Monad.return (Inr ()))"

definition validateNoConflictingQuotas :: "('q, 'w) client \<Rightarrow> 'q quota \<Rightarrow> ('w, go_error + unit) state" where
  "validateNoConflictingQuotas C quota = on_ok (ListQuotas C everything) (for_each (check_conflict quota))"

definition stringSlicesEqual :: "string list \<Rightarrow> string list \<Rightarrow> bool" where
  "stringSlicesEqual a b \<longleftrightarrow>
     (if length a \<noteq> length b then False else list_all (\<lambda>i. a ! i = b ! i) [0..<length a])"

definition validateQuotaImmutableFields :: "'q quota \<Rightarrow> 'q quota \<Rightarrow> admission" where
  "validateQuotaImmutableFields oldQuota newQuota =
     (let old = Scope (quota_spec oldQuota); new = Scope (quota_spec newQuota) in
      if ScopeType old \<noteq> ScopeType new then ([], Some (Errorf ''scope type is immutable''))
      else
        (if ScopeType old = NamespaceListScope \<and> \<not> stringSlicesEqual (Namespaces old) (Namespaces new)
         then [''Changing namespace list may affect existing resources''] else [], None))"

subsection \<open>Usage\<close>

definition checkQuotaUsage :: "('q, 'w) client \<Rightarrow> ('w, go_error + unit) state" where
  "checkQuotaUsage C =
     on_ok (ListOrders C everything) (\<lambda>orders.
       if length orders > 0
       then State_Monad.return (Inl (Errorf (''quota may be in use by '' @ show_nat (length orders) @ '' orders'')))
       else on_ok (ListTickets C everything) (\<lambda>tickets.
         if length tickets > 0
         then State_Monad.return (Inl (Errorf (''quota may be in use by '' @ show_nat (length tickets) @ '' tickets'')))
         else State_Monad.return (Inr ())))"

subsection \<open>The validator\<close>

definition Quota_ValidateCreate :: "('q, 'w) client \<Rightarrow> 'q quantity_ops \<Rightarrow> 'q quota \<Rightarrow> ('w, admission) state" where
  "Quota_ValidateCreate C Q quota =
     (case validateQuotaSpec Q quota of
        (warnings, Some e) \<Rightarrow> State_Monad.return (warnings, Some (Wrapped ''quota specification validation failed: '' e))
      | (warnings, None) \<Rightarrow>
          (case validateQuotaScope quota of
             Some e \<Rightarrow> State_Monad.return (warnings, Some (Wrapped ''quota scope validation failed: '' e))
           | None \<Rightarrow> do {
               r \<leftarrow> validateNoConflictingQuotas C quota;
               case r of
                 Inl e \<Rightarrow> State_Monad.return (warnings, Some (Wrapped ''quota conflict validation failed: '' e))
               | Inr _ \<Rightarrow> State_Monad.return (warnings, None)
             }))"

definition Quota_ValidateUpdate :: "'q quantity_ops \<Rightarrow> 'q quota \<Rightarrow> 'q quota \<Rightarrow> admission" where
  "Quota_ValidateUpdate Q oldQuota quota =
     (case validateQuotaImmutableFields oldQuota quota of
        (warnings, Some e) \<Rightarrow> (warnings, Some (Wrapped ''immutable field validation failed: '' e))
      | (warnings, None) \<Rightarrow>
          (case validateQuotaSpec Q quota of
             (specWarnings, Some e) \<Rightarrow>
               (warnings @ specWarnings, Some (Wrapped ''quota specification validation failed: '' e))
           | (specWarnings, None) \<Rightarrow> (warnings @ specWarnings, None)))"

definition Quota_ValidateDelete :: "('q, 'w) client \<Rightarrow> ('w, admission) state" where
  "Quota_ValidateDelete C = do {
     r \<leftarrow> checkQuotaUsage C;
     case r of
       Inl e \<Rightarrow> State_Monad.return ([''Quota is currently in use: '' @ error_text e], None)
     | Inr _ \<Rightarrow> State_Monad.return ([], None)
   }"

section \<open>What the specification check accepts\<close>

definition scope_ok :: "quota_scope \<Rightarrow> bool" where
  "scope_ok scope \<longleftrightarrow>
     (case ScopeType scope of
        ClusterScope \<Rightarrow> True
      | NamespaceListScope \<Rightarrow> Namespaces scope \<noteq> []
      | NamespaceSelectorScope \<Rightarrow> NamespaceSelector scope \<noteq> None
      | ObjectSelectorScope \<Rightarrow> ObjectSelector scope \<noteq> None
      | _ \<Rightarrow> False)"

definition window_named :: "time_window \<Rightarrow> bool" where
  "window_named win \<longleftrightarrow> WindowName win \<noteq> '''' \<and> WindowSchedule win \<noteq> '''' \<and> Multiplier win \<noteq> ''''"

definition limits_nonnegative :: "('q \<Rightarrow> int) \<Rightarrow> 'q resource_list \<Rightarrow> bool" where
  "limits_nonnegative amount m \<longleftrightarrow> (\<forall>rq \<in> set (gm_list m). 0 \<le> amount (snd rq))"

definition quota_spec_ok :: "('q \<Rightarrow> int) \<Rightarrow> 'q quota_spec \<Rightarrow> bool" where
  "quota_spec_ok amount spec \<longleftrightarrow>
     limits_nonnegative amount (Hard spec) \<and> scope_ok (Scope spec) \<and> (\<forall>win \<in> set (TimeWindows spec). window_named win) \<and>
     (\<forall>a \<in> set (Allocation spec). AllocNamespace a \<noteq> '''' \<and> limits_nonnegative amount (AllocLimits a))"

lemma scope_error_ok: "scope_error scope = None \<longleftrightarrow> scope_ok scope"
  by (simp add: scope_error_def scope_ok_def split: quota_scope_type.split)

lemma windows_error_ok: "windows_error i wins = None \<longleftrightarrow> (\<forall>win \<in> set wins. window_named win)"
  by (induction wins arbitrary: i) (auto simp: window_named_def)

context quantity_laws
begin

lemma check_limits_ok:
  "snd (check_limits Q hard i ns rqs warnings) = None \<longleftrightarrow> (\<forall>rq \<in> set rqs. 0 \<le> amount (snd rq))"
proof (induction rqs arbitrary: warnings)
  case (Cons rq rqs)
  then show ?case by (cases rq) (simp add: sign_negative not_less)
qed simp

lemma check_allocations_ok:
  "snd (check_allocations Q hard i as warnings) = None \<longleftrightarrow>
     (\<forall>a \<in> set as. AllocNamespace a \<noteq> '''' \<and> limits_nonnegative amount (AllocLimits a))"
proof (induction as arbitrary: i warnings)
  case (Cons a as)
  note limits = check_limits_ok [of hard i "AllocNamespace a" "gm_list (AllocLimits a)" warnings]
  show ?case
    using limits Cons.IH by (auto simp: limits_nonnegative_def split: prod.split option.split)
qed simp

lemma validateQuotaSpec_ok: "snd (validateQuotaSpec Q quota) = None \<longleftrightarrow> quota_spec_ok amount (quota_spec quota)"
proof -
  let ?spec = "quota_spec quota"
  have "find (negative_entry Q) (gm_list (Hard ?spec)) = None \<longleftrightarrow> limits_nonnegative amount (Hard ?spec)"
    by (auto simp: find_None_iff limits_nonnegative_def negative_entry_def sign_negative not_less)
  moreover note check_allocations_ok [of "Hard ?spec" 0 "Allocation ?spec" "unknown_warnings (Hard ?spec)"]
  ultimately show ?thesis
    unfolding validateQuotaSpec_def Let_def quota_spec_ok_def scope_error_ok [symmetric] windows_error_ok [of 0, symmetric]
    by (auto split: option.split)
qed

end

section \<open>What the defaults give\<close>

definition defaulted_scope :: "quota_scope \<Rightarrow> quota_scope" where
  "defaulted_scope scope = scope\<lparr>ScopeType := (if ScopeType scope = NoScope then ClusterScope else ScopeType scope)\<rparr>"

lemma default_limits_get:
  assumes "hard \<noteq> None"
  shows "default_limits Q hard \<noteq> None" and "gm_get hard r = Some limit \<Longrightarrow> gm_get (default_limits Q hard) r = Some limit"
  using assms by (auto simp: default_limits_def gm_len_def gm_get_def simp del: not_None_eq)

lemma default_max_duration_get:
  assumes "hard \<noteq> None"
  shows "default_max_duration Q hard \<noteq> None" and "gm_get (default_max_duration Q hard) ''max-duration'' \<noteq> None"
    and "gm_get hard r = Some limit \<Longrightarrow> gm_get (default_max_duration Q hard) r = Some limit"
  using assms by (auto simp: default_max_duration_def gm_get_put simp del: not_None_eq)

lemma default_max_duration_idem:
  "default_max_duration Q (default_limits Q (default_max_duration Q (default_limits Q (Some kvs)))) =
   default_max_duration Q (default_limits Q (Some kvs))"
proof -
  let ?h = "default_max_duration Q (default_limits Q (Some kvs))"
  have h: "gm_get ?h ''max-duration'' \<noteq> None" by (rule default_max_duration_get(2)) (rule default_limits_get(1), simp)
  then have "gm_len ?h \<noteq> 0" by (auto simp: gm_len_def gm_get_def)
  then have "default_limits Q ?h = ?h" by (simp add: default_limits_def)
  with h show ?thesis by (simp add: default_max_duration_def [of Q ?h] del: not_None_eq)
qed

lemma Quota_Default_idem: "Quota_Default Q (Quota_Default Q quota) = Quota_Default Q quota"
proof -
  obtain kvs where kvs: "(case Hard (quota_spec quota) of None \<Rightarrow> gm_make | Some kvs \<Rightarrow> Some kvs) = Some kvs"
    by (cases "Hard (quota_spec quota)") (auto simp: gm_make_def)
  obtain kvs' where kvs': "default_max_duration Q (default_limits Q (Some kvs)) = Some kvs'"
    using default_max_duration_get(1) [OF default_limits_get(1), of "Some kvs" Q Q] by auto
  from default_max_duration_idem [of Q kvs] show ?thesis
    by (simp add: Quota_Default_def Let_def kvs kvs')
qed


context quantity_laws
begin

text \<open>The limits the defaults add are not negative.\<close>

lemma default_limits_nonnegative:
  assumes "0 \<le> amount (q_must_parse Q ''1000'')" "0 \<le> amount (q_must_parse Q ''2000Gi'')"
  shows "limits_nonnegative amount (default_max_duration Q (default_limits Q (Some kvs))) \<longleftrightarrow> limits_nonnegative amount (Some kvs)"
proof -
  have max: "limits_nonnegative amount (default_max_duration Q (Some xs)) \<longleftrightarrow> limits_nonnegative amount (Some xs)" for xs
    by (auto simp: default_max_duration_def gm_put_def limits_nonnegative_def update_absent amount_new time_Second_def)
  show ?thesis
  proof (cases kvs)
    case Nil
    have "default_limits Q (Some []) = Some [(''orders'', q_new Q 100 DecimalSI), (''tickets'', q_new Q 1000 DecimalSI),
        (''reserved.cpu'', q_must_parse Q ''1000''), (''reserved.memory'', q_must_parse Q ''2000Gi'')]"
      by (simp add: default_limits_def gm_len_def gm_put_def)
    with Nil assms show ?thesis by (simp add: max) (simp add: limits_nonnegative_def amount_new)
  qed (simp add: default_limits_def gm_len_def max)
qed

lemma Quota_Default_ok:
  assumes "0 \<le> amount (q_must_parse Q ''1000'')" "0 \<le> amount (q_must_parse Q ''2000Gi'')"
  shows "quota_spec_ok amount (quota_spec (Quota_Default Q quota)) \<longleftrightarrow>
    quota_spec_ok amount ((quota_spec quota)\<lparr>Scope := defaulted_scope (Scope (quota_spec quota))\<rparr>)"
proof (cases "Hard (quota_spec quota)")
  case None
  have "limits_nonnegative amount (default_max_duration Q (default_limits Q gm_make)) \<longleftrightarrow> limits_nonnegative amount None"
    unfolding gm_make_def by (subst default_limits_nonnegative [OF assms]) (simp add: limits_nonnegative_def)
  with None show ?thesis by (simp add: Quota_Default_def Let_def quota_spec_ok_def defaulted_scope_def)
next
  case (Some kvs)
  with default_limits_nonnegative [OF assms, of kvs] show ?thesis
    by (simp add: Quota_Default_def Let_def quota_spec_ok_def defaulted_scope_def)
qed

end

section \<open>The admission decision\<close>

definition quota_key :: "'q quota \<Rightarrow> object_key" where
  "quota_key quota = meta_key (quota_meta quota)"

definition cluster_wide :: "'q quota \<Rightarrow> bool" where
  "cluster_wide quota \<longleftrightarrow> ScopeType (Scope (quota_spec quota)) = ClusterScope"

lemma check_conflict_result:
  "run_state (check_conflict quota other) w = (r, w') \<Longrightarrow>
   w' = w \<and> (r = Inr () \<longleftrightarrow> quota_key other = quota_key quota \<or> \<not> (cluster_wide other \<and> cluster_wide quota))"
  by (auto simp: check_conflict_def quotaScopesConflict_def quota_key_def meta_key_def cluster_wide_def run_simps split: if_splits)

lemma stringSlicesEqual_iff [simp]: "stringSlicesEqual a b \<longleftrightarrow> a = b"
  by (auto simp: stringSlicesEqual_def list_all_iff intro: nth_equalityI)

context available_quota_control
begin

lemma Quota_ValidateCreate_decides:
  assumes "run_state (Quota_ValidateCreate C Q quota) w = ((warnings, err), w')"
  shows "err = None \<longleftrightarrow> quota_spec_ok amount (quota_spec quota) \<and>
    (ScopeType (Scope (quota_spec quota)) = NamespaceListScope \<longrightarrow> '''' \<notin> set (Namespaces (Scope (quota_spec quota)))) \<and>
    (cluster_wide quota \<longrightarrow> (\<forall>other \<in> set (c_quotas (snap w)). cluster_wide other \<longrightarrow> quota_key other = quota_key quota))"
proof -
  obtain ws e where spec: "validateQuotaSpec Q quota = (ws, e)" by fastforce
  obtain r w1 where 1: "run_state (validateNoConflictingQuotas C quota) w = (r, w1)" by fastforce
  have "r = Inr () \<longleftrightarrow> (\<forall>other \<in> set (c_quotas (snap w)).
      quota_key other = quota_key quota \<or> \<not> (cluster_wide other \<and> cluster_wide quota))"
    using quotas_decide [OF 1 [unfolded validateNoConflictingQuotas_def],
        of "\<lambda>other. quota_key other = quota_key quota \<or> \<not> (cluster_wide other \<and> cluster_wide quota)"]
      check_conflict_result by metis
  moreover have "err = None \<longleftrightarrow> e = None \<and> validateQuotaScope quota = None \<and> r = Inr ()"
    using assms 1 spec by (auto simp: Quota_ValidateCreate_def run_simps split: option.splits sum.splits)
  moreover have "quota_spec_ok amount (quota_spec quota) \<Longrightarrow> validateQuotaScope quota = None \<longleftrightarrow>
      (ScopeType (Scope (quota_spec quota)) = NamespaceListScope \<longrightarrow> '''' \<notin> set (Namespaces (Scope (quota_spec quota))))"
    by (auto simp: validateQuotaScope_def Let_def quota_spec_ok_def scope_ok_def list_ex_iff)
  ultimately show ?thesis using validateQuotaSpec_ok [of quota] spec by auto
qed

end

lemma Quota_ValidateUpdate_decides:
  assumes "quantity_laws Q amount" "Quota_ValidateUpdate Q old new = (warnings, err)"
  shows "err = None \<longleftrightarrow>
    quota_spec_ok amount (quota_spec new) \<and> ScopeType (Scope (quota_spec old)) = ScopeType (Scope (quota_spec new))"
  using quantity_laws.validateQuotaSpec_ok [OF assms(1), of new] assms(2)
  by (auto simp: Quota_ValidateUpdate_def validateQuotaImmutableFields_def Let_def split: prod.splits option.splits if_splits)

section \<open>The quotas that come about\<close>

text \<open>
  The stored quotas change when a request is admitted, one at a time: a new quota under a new
  key, a new version of a stored quota, the removal of one.
\<close>

inductive admits :: "('q, 'w) client \<Rightarrow> ('w \<Rightarrow> 'q cluster) \<Rightarrow> 'q quantity_ops \<Rightarrow> 'q quota list \<Rightarrow> 'q quota list \<Rightarrow> bool"
  for C snap Q where
  created: "run_state (Quota_ValidateCreate C Q quota) w = ((warnings, None), w') \<Longrightarrow> set (c_quotas (snap w)) = set qs \<Longrightarrow>
    quota_key quota \<notin> quota_key ` set qs \<Longrightarrow> admits C snap Q qs (quota # qs)"
| updated: "Quota_ValidateUpdate Q old new = (warnings, None) \<Longrightarrow> quota_key new = quota_key old \<Longrightarrow>
    admits C snap Q (pre @ old # post) (pre @ new # post)"
| deleted: "run_state (Quota_ValidateDelete C) w = ((warnings, None), w') \<Longrightarrow> admits C snap Q (pre @ quota # post) (pre @ post)"

definition quotas_ok :: "('q \<Rightarrow> int) \<Rightarrow> 'q quota list \<Rightarrow> bool" where
  "quotas_ok amount qs \<longleftrightarrow>
     (\<forall>quota \<in> set qs. quota_spec_ok amount (quota_spec quota)) \<and> distinct (map quota_key qs) \<and>
     length (filter cluster_wide qs) \<le> 1"

context available_quota_control
begin

lemma admits_ok:
  assumes "admits C snap Q qs qs'" "quotas_ok amount qs"
  shows "quotas_ok amount qs'"
  using assms
proof (cases rule: admits.cases)
  case (created quota w warnings w')
  from Quota_ValidateCreate_decides [OF created(2)]
  have ok: "quota_spec_ok amount (quota_spec quota)"
    and other: "cluster_wide quota \<longrightarrow> (\<forall>other \<in> set qs. cluster_wide other \<longrightarrow> quota_key other = quota_key quota)"
    using created(3) by auto
  with created(4) have "cluster_wide quota \<Longrightarrow> filter cluster_wide qs = []"
    by (auto simp: filter_empty_conv) (metis image_eqI)
  with assms(2) ok created(1,4) show ?thesis by (auto simp: quotas_ok_def)
next
  case (updated old new warnings pre post)
  from Quota_ValidateUpdate_decides [OF quantity_laws_axioms updated(3)]
  have "quota_spec_ok amount (quota_spec new)" "cluster_wide new \<longleftrightarrow> cluster_wide old" by (auto simp: cluster_wide_def)
  with assms(2) updated(1,2,4) show ?thesis by (auto simp: quotas_ok_def)
next
  case (deleted w warnings w' pre quota post)
  with assms(2) show ?thesis by (auto simp: quotas_ok_def split: if_splits)
qed

lemma admitted_quotas_ok: "(admits C snap Q)\<^sup>*\<^sup>* [] qs \<Longrightarrow> quotas_ok amount qs"
  by (induction rule: rtranclp_induct) (auto simp: quotas_ok_def [of _ "[]"] intro: admits_ok)

end


section \<open>The properties\<close>

text \<open>The quotas of the witnesses cover the whole cluster.\<close>

definition cluster_quota :: "string \<Rightarrow> exact quota" where
  "cluster_quota nm =
     (list_quota [] [(''tickets'', 5)] [])\<lparr>quota_meta := empty_meta\<lparr>Name := nm\<rparr>,
        quota_spec := (quota_spec (list_quota [] [(''tickets'', 5)] []))\<lparr>Scope :=
          \<lparr>ScopeType = ClusterScope, NamespaceSelector = None, Namespaces = [], ObjectSelector = None\<rparr>\<rparr>\<rparr>"

text \<open>
  C28. The admission decision for a new quota. With the API up, \<open>ValidateCreate\<close> accepts a quota
  exactly when its limits and allocations are not negative, its scope is of a known type with
  what that type needs and no empty namespace name, its time windows and allocations are filled
  in, and, for a cluster quota, no other cluster quota is stored.
\<close>

theorem quota_creation_is_decided:
  assumes "available_quota_control C snap Q amount"
    and "run_state (Quota_ValidateCreate C Q quota) w = ((warnings, err), w')"
  shows "err = None \<longleftrightarrow> quota_spec_ok amount (quota_spec quota) \<and>
    (ScopeType (Scope (quota_spec quota)) = NamespaceListScope \<longrightarrow> '''' \<notin> set (Namespaces (Scope (quota_spec quota)))) \<and>
    (cluster_wide quota \<longrightarrow> (\<forall>other \<in> set (c_quotas (snap w)). cluster_wide other \<longrightarrow> quota_key other = quota_key quota))"
  using assms by (rule available_quota_control.Quota_ValidateCreate_decides)

theorem quota_creation_is_decided_witness:
  "snd (fst (run_state (Quota_ValidateCreate mem_client exact_ops (cluster_quota ''b'')) (quota_world [cluster_quota ''a'']))) \<noteq> None \<and>
   snd (fst (run_state (Quota_ValidateCreate mem_client exact_ops (cluster_quota ''a'')) (quota_world [cluster_quota ''a'']))) = None"
proof -
  let ?w = "quota_world [cluster_quota ''a'']"
  have run: "run_state m ?w = ((fst (fst (run_state m ?w)), snd (fst (run_state m ?w))), snd (run_state m ?w))"
    for m :: "(exact mem, admission) state"
    by simp
  have "quota_spec_ok fst (quota_spec (cluster_quota nm))" "cluster_wide (cluster_quota nm)"
    "ScopeType (Scope (quota_spec (cluster_quota nm))) = ClusterScope" "quota_key (cluster_quota nm) = Key '''' nm" for nm
    by (simp_all add: quota_spec_ok_def scope_ok_def limits_nonnegative_def cluster_quota_def list_quota_def cluster_wide_def
        quota_key_def meta_key_def empty_meta_def)
  moreover have "c_quotas (mem_cluster ?w) = [cluster_quota ''a'']" by (simp add: mem_cluster_def quota_world_def)
  ultimately show ?thesis
    using quota_creation_is_decided [OF memx.available_quota_control_axioms, OF run, of "cluster_quota ''b''"]
      quota_creation_is_decided [OF memx.available_quota_control_axioms, OF run, of "cluster_quota ''a''"] by simp
qed

text \<open>
  The defaults of a quota are stable and keep what is given. A second run of \<open>Default\<close>
  changes nothing; every given limit is kept and \<open>max-duration\<close> is there; and the defaulted quota
  passes the specification check exactly when the quota passes it with the scope \<open>Cluster\<close> in
  place of an empty one. The default limits must parse to amounts that are not negative.
\<close>

theorem quota_defaults_are_stable:
  assumes "quantity_laws Q amount" "0 \<le> amount (q_must_parse Q ''1000'')" "0 \<le> amount (q_must_parse Q ''2000Gi'')"
  shows "Quota_Default Q (Quota_Default Q quota) = Quota_Default Q quota \<and>
    gm_get (Hard (quota_spec (Quota_Default Q quota))) ''max-duration'' \<noteq> None \<and>
    (\<forall>r limit. gm_get (Hard (quota_spec quota)) r = Some limit \<longrightarrow>
      gm_get (Hard (quota_spec (Quota_Default Q quota))) r = Some limit) \<and>
    (snd (validateQuotaSpec Q (Quota_Default Q quota)) = None \<longleftrightarrow>
     quota_spec_ok amount ((quota_spec quota)\<lparr>Scope := defaulted_scope (Scope (quota_spec quota))\<rparr>))"
proof (intro conjI allI impI)
  let ?made = "case Hard (quota_spec quota) of None \<Rightarrow> gm_make | Some kvs \<Rightarrow> Some kvs"
  have made: "?made \<noteq> None" by (cases "Hard (quota_spec quota)") (simp_all add: gm_make_def)
  have hard: "Hard (quota_spec (Quota_Default Q quota)) = default_max_duration Q (default_limits Q ?made)"
    by (simp add: Quota_Default_def Let_def)
  note limits = default_limits_get [OF made]
  show "Quota_Default Q (Quota_Default Q quota) = Quota_Default Q quota" by (rule Quota_Default_idem)
  show "gm_get (Hard (quota_spec (Quota_Default Q quota))) ''max-duration'' \<noteq> None"
    unfolding hard by (rule default_max_duration_get(2)) (rule limits(1))
  show "gm_get (Hard (quota_spec (Quota_Default Q quota))) r = Some limit"
    if "gm_get (Hard (quota_spec quota)) r = Some limit" for r limit
  proof -
    from that have "gm_get ?made r = Some limit" by (cases "Hard (quota_spec quota)") simp_all
    then show ?thesis unfolding hard by (intro default_max_duration_get(3) limits)
  qed
  show "snd (validateQuotaSpec Q (Quota_Default Q quota)) = None \<longleftrightarrow>
     quota_spec_ok amount ((quota_spec quota)\<lparr>Scope := defaulted_scope (Scope (quota_spec quota))\<rparr>)"
    unfolding quantity_laws.validateQuotaSpec_ok [OF assms(1)] by (rule quantity_laws.Quota_Default_ok [OF assms])
qed

definition bare_quota :: "exact quota" where
  "bare_quota = (list_quota [] [] [])\<lparr>quota_spec := \<lparr>Scope =
     \<lparr>ScopeType = NoScope, NamespaceSelector = None, Namespaces = [], ObjectSelector = None\<rparr>,
     Hard = None, TimeWindows = [], Allocation = []\<rparr>\<rparr>"

theorem quota_defaults_are_stable_witness:
  "snd (validateQuotaSpec exact_ops (Quota_Default exact_ops bare_quota)) = None"
proof -
  have "0 \<le> fst (q_must_parse exact_ops ''1000'')" "0 \<le> fst (q_must_parse exact_ops ''2000Gi'')" by code_simp+
  from quota_defaults_are_stable [OF exact.quantity_laws_axioms, OF this, of bare_quota] show ?thesis
    by (simp add: quota_spec_ok_def scope_ok_def limits_nonnegative_def bare_quota_def defaulted_scope_def)
qed

text \<open>
  C16. The stored quotas stay well-formed. Whatever requests are admitted, one at a time, from an
  empty cluster on, every stored quota has a valid specification, no two have the same key, and
  at most one covers the whole cluster.
\<close>

theorem admitted_quotas_are_well_formed:
  assumes "available_quota_control C snap Q amount" "rtranclp (admits C snap Q) [] qs"
  shows "quotas_ok amount qs"
  using assms by (rule available_quota_control.admitted_quotas_ok)

theorem admitted_quotas_are_well_formed_witness:
  "quotas_ok fst [list_quota [''team-a''] [(''tickets'', 4)] [], cluster_quota ''a'']"
proof -
  let ?a = "cluster_quota ''a''" and ?b = "list_quota [''team-a''] [(''tickets'', 4)] []"
  let ?r = "\<lambda>quota qs. run_state (Quota_ValidateCreate mem_client exact_ops quota) (quota_world qs)"
  have "snd (fst (?r ?a [])) = None" "snd (fst (?r ?b [?a])) = None" by code_simp+
  then have runs: "?r ?a [] = ((fst (fst (?r ?a [])), None), snd (?r ?a []))"
    "?r ?b [?a] = ((fst (fst (?r ?b [?a])), None), snd (?r ?b [?a]))"
    by (simp_all add: prod_eq_iff)
  have sets: "set (c_quotas (mem_cluster (quota_world []))) = set []" "set (c_quotas (mem_cluster (quota_world [?a]))) = set [?a]"
    by (simp_all add: mem_cluster_def quota_world_def)
  have new: "quota_key ?a \<notin> quota_key ` set []" "quota_key ?b \<notin> quota_key ` set [?a]"
    by (simp_all add: quota_key_def meta_key_def cluster_quota_def list_quota_def)
  have "admits mem_client mem_cluster exact_ops [] [?a]" "admits mem_client mem_cluster exact_ops [?a] [?b, ?a]"
    by (rule admits.created [where snap = mem_cluster, OF runs(1) sets(1) new(1)], rule admits.created [where snap = mem_cluster, OF runs(2) sets(2) new(2)])
  then have "rtranclp (admits mem_client mem_cluster exact_ops) [] [?b, ?a]" by (rule converse_rtranclp_into_rtranclp [OF _ r_into_rtranclp])
  from admitted_quotas_are_well_formed [OF memx.available_quota_control_axioms this] show ?thesis .
qed

end
