(* ===== verification/Flags.thy ===== *)
theory Flags
  imports GoStd
begin

text \<open>
  The command line of \<open>cmd/main.go\<close>: the flags of the program with their defaults, and Go's
  \<open>flag.Parse\<close>, which reads them. Packages the program links register flags of their own on
  the same flag set; they are a parameter. Then \<open>filepath.Join\<close>, with which the certificate
  files are named.
\<close>

section \<open>The flags\<close>

record flags =
  metricsAddr :: string
  probeAddr :: string
  enableLeaderElection :: bool
  secureMetrics :: bool
  webhookCertPath :: string
  webhookCertName :: string
  webhookCertKey :: string
  metricsCertPath :: string
  metricsCertName :: string
  metricsCertKey :: string
  enableHTTP2 :: bool

definition default_flags :: flags where
  "default_flags = \<lparr>metricsAddr = ''0'', probeAddr = '':8081'', enableLeaderElection = False, secureMetrics = True,
     webhookCertPath = '''', webhookCertName = ''tls.crt'', webhookCertKey = ''tls.key'',
     metricsCertPath = '''', metricsCertName = ''tls.crt'', metricsCertKey = ''tls.key'', enableHTTP2 = False\<rparr>"

definition string_flags :: "(string \<times> (string \<Rightarrow> flags \<Rightarrow> flags)) list" where
  "string_flags =
     [(''metrics-bind-address'', \<lambda>v. metricsAddr_update (\<lambda>_. v)),
      (''health-probe-bind-address'', \<lambda>v. probeAddr_update (\<lambda>_. v)),
      (''webhook-cert-path'', \<lambda>v. webhookCertPath_update (\<lambda>_. v)),
      (''webhook-cert-name'', \<lambda>v. webhookCertName_update (\<lambda>_. v)),
      (''webhook-cert-key'', \<lambda>v. webhookCertKey_update (\<lambda>_. v)),
      (''metrics-cert-path'', \<lambda>v. metricsCertPath_update (\<lambda>_. v)),
      (''metrics-cert-name'', \<lambda>v. metricsCertName_update (\<lambda>_. v)),
      (''metrics-cert-key'', \<lambda>v. metricsCertKey_update (\<lambda>_. v))]"

definition bool_flags :: "(string \<times> (bool \<Rightarrow> flags \<Rightarrow> flags)) list" where
  "bool_flags =
     [(''leader-elect'', \<lambda>b. enableLeaderElection_update (\<lambda>_. b)),
      (''metrics-secure'', \<lambda>b. secureMetrics_update (\<lambda>_. b)),
      (''enable-http2'', \<lambda>b. enableHTTP2_update (\<lambda>_. b))]"

section \<open>flag.Parse\<close>

datatype flag_error =
    HelpRequested
  | BadSyntax string
  | NotDefined string
  | NeedsArgument string
  | InvalidValue string string

text \<open>A flag of another package: whether it is boolean, and the values its setter takes.\<close>

record other_flag =
  IsBoolFlag :: bool
  Accepts :: "string \<Rightarrow> bool"

definition ParseBool :: "string \<Rightarrow> bool option" where
  "ParseBool s =
     (if s \<in> {''1'', ''t'', ''T'', ''TRUE'', ''true'', ''True''} then Some True
      else if s \<in> {''0'', ''f'', ''F'', ''FALSE'', ''false'', ''False''} then Some False
      else None)"

text \<open>A flag of the set: boolean or not, and its \<open>Set\<close>.\<close>

definition find_flag ::
  "(string \<Rightarrow> other_flag option) \<Rightarrow> string \<Rightarrow> (bool \<times> (string \<Rightarrow> flags \<Rightarrow> flags option)) option" where
  "find_flag others nm =
     (case map_of bool_flags nm of
        Some upd \<Rightarrow> Some (True, \<lambda>v f. map_option (\<lambda>b. upd b f) (ParseBool v))
      | None \<Rightarrow>
          (case map_of string_flags nm of
             Some upd \<Rightarrow> Some (False, \<lambda>v f. Some (upd v f))
           | None \<Rightarrow> map_option (\<lambda>other. (IsBoolFlag other, \<lambda>v f. if Accepts other v then Some f else None)) (others nm)))"

text \<open>\<open>parseOne\<close>: stop at the first argument that is no flag, or take one flag and its value.\<close>

datatype parsed = Stop "string list" | Fail flag_error | Next flags "string list"

definition set_value ::
  "(string \<Rightarrow> flags \<Rightarrow> flags option) \<Rightarrow> string \<Rightarrow> string \<Rightarrow> flags \<Rightarrow> string list \<Rightarrow> parsed" where
  "set_value st nm v f args = (case st v f of None \<Rightarrow> Fail (InvalidValue nm v) | Some f' \<Rightarrow> Next f' args)"

definition give_flag ::
  "(string \<Rightarrow> other_flag option) \<Rightarrow> flags \<Rightarrow> string \<Rightarrow> string option \<Rightarrow> string list \<Rightarrow> parsed" where
  "give_flag others f nm given args =
     (case find_flag others nm of
        None \<Rightarrow> Fail (if nm = ''help'' \<or> nm = ''h'' then HelpRequested else NotDefined nm)
      | Some (isbool, st) \<Rightarrow>
          if isbool then set_value st nm (case given of None \<Rightarrow> ''true'' | Some v \<Rightarrow> v) f args
          else
            (case given of
               Some v \<Rightarrow> set_value st nm v f args
             | None \<Rightarrow> (case args of [] \<Rightarrow> Fail (NeedsArgument nm) | v # rest \<Rightarrow> set_value st nm v f rest)))"

definition take_flag :: "(string \<Rightarrow> other_flag option) \<Rightarrow> flags \<Rightarrow> string \<Rightarrow> string list \<Rightarrow> parsed" where
  "take_flag others f body args =
     give_flag others f (takeWhile (\<lambda>c. c \<noteq> CHR ''='') body)
       (case dropWhile (\<lambda>c. c \<noteq> CHR ''='') body of [] \<Rightarrow> None | _ # v \<Rightarrow> Some v) args"

definition parse_one :: "(string \<Rightarrow> other_flag option) \<Rightarrow> flags \<Rightarrow> string \<Rightarrow> string list \<Rightarrow> parsed" where
  "parse_one others f s args =
     (case s of
        d # c # cs \<Rightarrow>
          if d \<noteq> CHR ''-'' then Stop (s # args)
          else if c = CHR ''-'' \<and> cs = [] then Stop args
          else
            let body = (if c = CHR ''-'' then cs else c # cs) in
            if hd body = CHR ''-'' \<or> hd body = CHR ''='' then Fail (BadSyntax s)
            else take_flag others f body args
      | _ \<Rightarrow> Stop (s # args))"

lemma set_value_Next: "set_value st nm v f args = Next f' rest \<Longrightarrow> rest = args"
  by (auto simp: set_value_def split: option.splits)

lemma give_flag_Next: "give_flag others f nm given args = Next f' rest \<Longrightarrow> length rest \<le> length args"
  unfolding give_flag_def
  by (cases "find_flag others nm"; cases given; cases args)
    (auto dest!: set_value_Next split: prod.splits if_splits)

lemma parse_one_cases:
  obtains (stop) rest where "parse_one others f s args = Stop rest"
  | (fail) e where "parse_one others f s args = Fail e"
  | (flag) body where "parse_one others f s args = take_flag others f body args"
  unfolding parse_one_def Let_def
  by (cases s; cases "tl s"; simp split: if_splits) metis+

lemma parse_one_shorter: "parse_one others f s args = Next f' rest \<Longrightarrow> length rest < Suc (length args)"
proof (cases others f s args rule: parse_one_cases)
  case (flag body)
  assume "parse_one others f s args = Next f' rest"
  with flag have "take_flag others f body args = Next f' rest" by simp
  from give_flag_Next [OF this [unfolded take_flag_def]] show ?thesis by simp
qed simp_all

function flag_parse ::
  "(string \<Rightarrow> other_flag option) \<Rightarrow> flags \<Rightarrow> string list \<Rightarrow> flag_error + flags \<times> string list" where
  "flag_parse others f [] = Inr (f, [])"
| "flag_parse others f (s # args) =
     (case parse_one others f s args of
        Stop rest \<Rightarrow> Inr (f, rest)
      | Fail e \<Rightarrow> Inl e
      | Next f' rest \<Rightarrow> flag_parse others f' rest)"
  by pat_completeness auto
termination
  by (relation "measure (\<lambda>(others, f, args). length args)") (auto dest: parse_one_shorter)

section \<open>Writing a command line\<close>

definition show_bool :: "bool \<Rightarrow> string" where
  "show_bool b = (if b then ''true'' else ''false'')"

definition flag_arg :: "string \<Rightarrow> string \<Rightarrow> string" where
  "flag_arg nm v = ''--'' @ nm @ ''='' @ v"

definition command_line :: "flags \<Rightarrow> string list" where
  "command_line f =
     [flag_arg ''metrics-bind-address'' (metricsAddr f),
      flag_arg ''health-probe-bind-address'' (probeAddr f),
      flag_arg ''leader-elect'' (show_bool (enableLeaderElection f)),
      flag_arg ''metrics-secure'' (show_bool (secureMetrics f)),
      flag_arg ''webhook-cert-path'' (webhookCertPath f),
      flag_arg ''webhook-cert-name'' (webhookCertName f),
      flag_arg ''webhook-cert-key'' (webhookCertKey f),
      flag_arg ''metrics-cert-path'' (metricsCertPath f),
      flag_arg ''metrics-cert-name'' (metricsCertName f),
      flag_arg ''metrics-cert-key'' (metricsCertKey f),
      flag_arg ''enable-http2'' (show_bool (enableHTTP2 f))]"

lemma ParseBool_show [simp]: "ParseBool (show_bool b) = Some b"
  by (simp add: ParseBool_def show_bool_def)

lemma parse_one_arg:
  assumes "nm \<noteq> []" "CHR ''='' \<notin> set nm" "hd nm \<noteq> CHR ''-''"
  shows "parse_one others f (flag_arg nm v) args =
    give_flag others f nm (Some v) args"
proof -
  have "takeWhile (\<lambda>c. c \<noteq> CHR ''='') (nm @ CHR ''='' # v) = nm"
    "dropWhile (\<lambda>c. c \<noteq> CHR ''='') (nm @ CHR ''='' # v) = CHR ''='' # v"
    using assms(2) by (auto simp: takeWhile_append dropWhile_append)
  then have "take_flag others f (nm @ CHR ''='' # v) args = give_flag others f nm (Some v) args"
    unfolding take_flag_def by simp
  moreover obtain c cs where "nm = c # cs" "c \<noteq> CHR ''-''" "c \<noteq> CHR ''=''" using assms by (cases nm) auto
  then have "parse_one others f (flag_arg nm v) args = take_flag others f (nm @ CHR ''='' # v) args"
    by (simp add: parse_one_def flag_arg_def)
  ultimately show ?thesis by simp
qed

text \<open>
  C25. A command line says what it means. The arguments that spell out every flag, in the form
  \<open>--name=value\<close>, are parsed back to exactly those flags, whatever the values contain, with
  nothing left over and whatever flags other packages have registered.
\<close>

theorem command_line_round_trip: "flag_parse others default_flags (command_line f) = Inr (f, [])"
proof -
  have step: "flag_parse others g (flag_arg nm v # args) = flag_parse others (the (map_of string_flags nm) v g) args"
    if "nm \<in> fst ` set string_flags" for nm v g args
  proof -
    from that have "nm \<noteq> []" "CHR ''='' \<notin> set nm" "hd nm \<noteq> CHR ''-''" "map_of bool_flags nm = None"
      "map_of string_flags nm \<noteq> None"
      by (auto simp: string_flags_def bool_flags_def)
    then show ?thesis by (auto simp: parse_one_arg give_flag_def find_flag_def set_value_def)
  qed
  have bool_step: "flag_parse others g (flag_arg nm (show_bool b) # args) = flag_parse others (the (map_of bool_flags nm) b g) args"
    if "nm \<in> fst ` set bool_flags" for nm b g args
  proof -
    from that have "nm \<noteq> []" "CHR ''='' \<notin> set nm" "hd nm \<noteq> CHR ''-''" "map_of bool_flags nm \<noteq> None"
      by (auto simp: bool_flags_def)
    then show ?thesis by (auto simp: parse_one_arg give_flag_def find_flag_def set_value_def)
  qed
  show ?thesis
    unfolding command_line_def
    by (simp add: step bool_step string_flags_def bool_flags_def default_flags_def del: flag_parse.simps(2))
qed

section \<open>filepath.Join\<close>

text \<open>\<open>filepath.Clean\<close> on Unix, by its four rules, over the path's elements.\<close>

fun clean_elements :: "bool \<Rightarrow> string list \<Rightarrow> string list \<Rightarrow> string list" where
  "clean_elements rooted out [] = rev out"
| "clean_elements rooted out (e # es) =
     (if e = '''' \<or> e = ''.'' then clean_elements rooted out es
      else if e = ''..'' then
        (case out of
           [] \<Rightarrow> clean_elements rooted (if rooted then [] else [''..'']) es
         | d # rest \<Rightarrow> if d = ''..'' then clean_elements rooted (''..'' # out) es else clean_elements rooted rest es)
      else clean_elements rooted (e # out) es)"

definition filepath_Clean :: "string \<Rightarrow> string" where
  "filepath_Clean p =
     (let rooted = (p \<noteq> [] \<and> hd p = CHR ''/''); es = clean_elements rooted [] (go_split CHR ''/'' p) in
      if rooted then CHR ''/'' # go_join ''/'' es
      else if es = [] then ''.'' else go_join ''/'' es)"

fun filepath_Join :: "string list \<Rightarrow> string" where
  "filepath_Join [] = ''''"
| "filepath_Join (e # es) = (if e = '''' then filepath_Join es else filepath_Clean (go_join ''/'' (e # es)))"

end
