(* ===== verification/Metrics.thy ===== *)
theory Metrics
  imports OrderController
begin

text \<open>
  \<open>internal/metrics/metrics.go\<close>: the thirteen Prometheus vectors of the program, their
  registration, and the functions that record a sample. The registry of controller-runtime
  and the vectors are outside the repository: the registry is an interface with its
  documented behaviour, the samples go through the operations of the client record, and the
  theorems are that registration succeeds exactly once and that no sample can panic.
\<close>

section \<open>The vectors\<close>

datatype vec_kind = CounterVec | GaugeVec | HistogramVec

text \<open>\<open>DefBuckets\<close> stands for \<open>prometheus.DefBuckets\<close>.\<close>

datatype buckets = NoBuckets | DefBuckets

record metric_vec =
  VecKind :: vec_kind
  VecName :: string
  VecHelp :: string
  VecBuckets :: buckets
  VecLabels :: "string list"

definition OrdersTotal :: metric_vec where
  "OrdersTotal = \<lparr>VecKind = CounterVec, VecName = ''korder_orders_total'',
     VecHelp = ''Total number of orders created'', VecBuckets = NoBuckets,
     VecLabels = [''namespace'', ''strategy'']\<rparr>"

definition OrdersActive :: metric_vec where
  "OrdersActive = \<lparr>VecKind = GaugeVec, VecName = ''korder_orders_active'',
     VecHelp = ''Number of currently active orders'', VecBuckets = NoBuckets,
     VecLabels = [''namespace'', ''strategy'']\<rparr>"

definition TicketsTotal :: metric_vec where
  "TicketsTotal = \<lparr>VecKind = CounterVec, VecName = ''korder_tickets_total'',
     VecHelp = ''Total number of tickets created'', VecBuckets = NoBuckets,
     VecLabels = [''namespace'', ''phase'']\<rparr>"

definition TicketsActive :: metric_vec where
  "TicketsActive = \<lparr>VecKind = GaugeVec, VecName = ''korder_tickets_active'',
     VecHelp = ''Number of currently active tickets'', VecBuckets = NoBuckets,
     VecLabels = [''namespace'', ''phase'']\<rparr>"

definition GuardianPodsTotal :: metric_vec where
  "GuardianPodsTotal = \<lparr>VecKind = CounterVec, VecName = ''korder_guardian_pods_total'',
     VecHelp = ''Total number of guardian pods created'', VecBuckets = NoBuckets,
     VecLabels = [''namespace'']\<rparr>"

definition QuotaUsage :: metric_vec where
  "QuotaUsage = \<lparr>VecKind = GaugeVec, VecName = ''korder_quota_usage_ratio'',
     VecHelp = ''Current quota usage as a ratio (0-1)'', VecBuckets = NoBuckets,
     VecLabels = [''quota_name'', ''resource_type'']\<rparr>"

definition QuotaLimits :: metric_vec where
  "QuotaLimits = \<lparr>VecKind = GaugeVec, VecName = ''korder_quota_limits'',
     VecHelp = ''Current quota limits'', VecBuckets = NoBuckets,
     VecLabels = [''quota_name'', ''resource_type'']\<rparr>"

definition ReservedResources :: metric_vec where
  "ReservedResources = \<lparr>VecKind = GaugeVec, VecName = ''korder_reserved_resources'',
     VecHelp = ''Currently reserved resources'', VecBuckets = NoBuckets,
     VecLabels = [''namespace'', ''resource_type'', ''unit'']\<rparr>"

definition ClaimedResources :: metric_vec where
  "ClaimedResources = \<lparr>VecKind = GaugeVec, VecName = ''korder_claimed_resources'',
     VecHelp = ''Currently claimed resources'', VecBuckets = NoBuckets,
     VecLabels = [''namespace'', ''resource_type'', ''unit'']\<rparr>"

definition ReconciliationDuration :: metric_vec where
  "ReconciliationDuration = \<lparr>VecKind = HistogramVec, VecName = ''korder_reconciliation_duration_seconds'',
     VecHelp = ''Time spent reconciling resources'', VecBuckets = DefBuckets,
     VecLabels = [''controller'', ''result'']\<rparr>"

definition WebhookDuration :: metric_vec where
  "WebhookDuration = \<lparr>VecKind = HistogramVec, VecName = ''korder_webhook_duration_seconds'',
     VecHelp = ''Time spent processing webhook requests'', VecBuckets = DefBuckets,
     VecLabels = [''webhook'', ''operation'', ''result'']\<rparr>"

definition ReconciliationErrors :: metric_vec where
  "ReconciliationErrors = \<lparr>VecKind = CounterVec, VecName = ''korder_reconciliation_errors_total'',
     VecHelp = ''Total number of reconciliation errors'', VecBuckets = NoBuckets,
     VecLabels = [''controller'', ''error_type'']\<rparr>"

definition WebhookErrors :: metric_vec where
  "WebhookErrors = \<lparr>VecKind = CounterVec, VecName = ''korder_webhook_errors_total'',
     VecHelp = ''Total number of webhook errors'', VecBuckets = NoBuckets,
     VecLabels = [''webhook'', ''operation'', ''error_type'']\<rparr>"

lemmas vector_defs = OrdersTotal_def OrdersActive_def TicketsTotal_def TicketsActive_def GuardianPodsTotal_def
  QuotaUsage_def QuotaLimits_def ReservedResources_def ClaimedResources_def ReconciliationDuration_def
  WebhookDuration_def ReconciliationErrors_def WebhookErrors_def

section \<open>The code\<close>

text \<open>\<open>MustRegister\<close> of the registry is a parameter; an error stands for its panic.\<close>

type_synonym 'w registry = "metric_vec list \<Rightarrow> ('w, go_error + unit) state"

definition korder_vectors :: "metric_vec list" where
  "korder_vectors = [OrdersTotal, OrdersActive, TicketsTotal, TicketsActive, GuardianPodsTotal, QuotaUsage,
     QuotaLimits, ReservedResources, ClaimedResources, ReconciliationDuration, WebhookDuration,
     ReconciliationErrors, WebhookErrors]"

definition RegisterMetrics :: "'w registry \<Rightarrow> ('w, go_error + unit) state" where
  "RegisterMetrics MustRegister = MustRegister korder_vectors"

text \<open>The functions that record a sample and are not part of the client theory.\<close>

definition IncOrdersTotal :: "('q, 'w) client \<Rightarrow> string \<Rightarrow> string \<Rightarrow> ('w, unit) state" where
  "IncOrdersTotal C ns strategy = CounterInc C (VecName OrdersTotal) [ns, strategy]"

definition SetOrdersActive :: "('q, 'w) client \<Rightarrow> string \<Rightarrow> string \<Rightarrow> go_float \<Rightarrow> ('w, unit) state" where
  "SetOrdersActive C ns strategy amount = GaugeSet C (VecName OrdersActive) [ns, strategy] amount"

definition SetTicketsActive :: "('q, 'w) client \<Rightarrow> string \<Rightarrow> string \<Rightarrow> go_float \<Rightarrow> ('w, unit) state" where
  "SetTicketsActive C ns phase amount = GaugeSet C (VecName TicketsActive) [ns, phase] amount"

definition IncGuardianPodsTotal :: "('q, 'w) client \<Rightarrow> string \<Rightarrow> ('w, unit) state" where
  "IncGuardianPodsTotal C ns = CounterInc C (VecName GuardianPodsTotal) [ns]"

definition SetQuotaUsage :: "('q, 'w) client \<Rightarrow> string \<Rightarrow> string \<Rightarrow> go_float \<Rightarrow> ('w, unit) state" where
  "SetQuotaUsage C quotaName resourceType ratio = GaugeSet C (VecName QuotaUsage) [quotaName, resourceType] ratio"

definition SetQuotaLimits :: "('q, 'w) client \<Rightarrow> string \<Rightarrow> string \<Rightarrow> go_float \<Rightarrow> ('w, unit) state" where
  "SetQuotaLimits C quotaName resourceType limit = GaugeSet C (VecName QuotaLimits) [quotaName, resourceType] limit"

definition SetReservedResources ::
  "('q, 'w) client \<Rightarrow> string \<Rightarrow> string \<Rightarrow> string \<Rightarrow> go_float \<Rightarrow> ('w, unit) state" where
  "SetReservedResources C ns resourceType unt amount =
     GaugeSet C (VecName ReservedResources) [ns, resourceType, unt] amount"

definition SetClaimedResources ::
  "('q, 'w) client \<Rightarrow> string \<Rightarrow> string \<Rightarrow> string \<Rightarrow> go_float \<Rightarrow> ('w, unit) state" where
  "SetClaimedResources C ns resourceType unt amount =
     GaugeSet C (VecName ClaimedResources) [ns, resourceType, unt] amount"

definition ObserveWebhookDuration ::
  "('q, 'w) client \<Rightarrow> string \<Rightarrow> string \<Rightarrow> string \<Rightarrow> time \<Rightarrow> ('w, unit) state" where
  "ObserveWebhookDuration C wh operation result d =
     HistogramObserve C (VecName WebhookDuration) [wh, operation, result] d"

definition IncWebhookErrors :: "('q, 'w) client \<Rightarrow> string \<Rightarrow> string \<Rightarrow> string \<Rightarrow> ('w, unit) state" where
  "IncWebhookErrors C wh operation errorType = CounterInc C (VecName WebhookErrors) [wh, operation, errorType]"

lemmas sample_defs = IncOrdersTotal_def SetOrdersActive_def IncTicketsTotal_def SetTicketsActive_def
  IncGuardianPodsTotal_def SetQuotaUsage_def SetQuotaLimits_def SetReservedResources_def SetClaimedResources_def
  ObserveReconciliationDuration_def ObserveWebhookDuration_def IncReconciliationErrors_def IncWebhookErrors_def

section \<open>The registry\<close>

text \<open>
  A vector the registry takes: a metric name and label names of the Prometheus data model,
  no label twice and none reserved.
\<close>

definition name_char :: "char \<Rightarrow> bool" where
  "name_char c \<longleftrightarrow> c = CHR ''_'' \<or> is_digit c \<or>
     (let n = of_char c :: nat in 97 \<le> n \<and> n \<le> 122 \<or> 65 \<le> n \<and> n \<le> 90)"

fun valid_label :: "string \<Rightarrow> bool" where
  "valid_label [] = False"
| "valid_label (c # cs) \<longleftrightarrow> \<not> is_digit c \<and> list_all name_char (c # cs) \<and> take 2 (c # cs) \<noteq> ''__''"

fun valid_metric_name :: "string \<Rightarrow> bool" where
  "valid_metric_name [] = False"
| "valid_metric_name (c # cs) \<longleftrightarrow> \<not> is_digit c \<and> list_all (\<lambda>x. x = CHR '':'' \<or> name_char x) (c # cs)"

definition valid_vec :: "metric_vec \<Rightarrow> bool" where
  "valid_vec m \<longleftrightarrow> valid_metric_name (VecName m) \<and> list_all valid_label (VecLabels m) \<and> distinct (VecLabels m)"

text \<open>What the registry documents: it takes valid vectors of new names and panics on a name it has.\<close>

locale metric_registry =
  fixes MustRegister :: "'w registry" and names :: "'w \<Rightarrow> string set"
  assumes register_fresh: "list_all valid_vec ms \<Longrightarrow> distinct (map VecName ms) \<Longrightarrow>
        names w \<inter> VecName ` set ms = {} \<Longrightarrow>
        \<exists>w'. run_state (MustRegister ms) w = (Inr (), w') \<and> names w' = names w \<union> VecName ` set ms"
    and register_taken: "VecName m \<in> names w \<Longrightarrow> m \<in> set ms \<Longrightarrow>
        \<exists>e w'. run_state (MustRegister ms) w = (Inl e, w') \<and> is_panic e"
begin

lemma register_twice:
  assumes "list_all valid_vec ms" "distinct (map VecName ms)" "ms \<noteq> []" "names w \<inter> VecName ` set ms = {}"
  shows "\<exists>w'. run_state (MustRegister ms) w = (Inr (), w') \<and> names w' = names w \<union> VecName ` set ms \<and>
    (\<exists>e w''. run_state (MustRegister ms) w' = (Inl e, w'') \<and> is_panic e)"
proof -
  from register_fresh [OF assms(1,2,4)] obtain w' where
    w': "run_state (MustRegister ms) w = (Inr (), w')" "names w' = names w \<union> VecName ` set ms" by blast
  from assms(3) have "hd ms \<in> set ms" by simp
  with register_taken [of "hd ms" w' ms] w' show ?thesis by auto
qed

end

text \<open>A registry that keeps the list of its vectors.\<close>

fun list_register :: "metric_vec list \<Rightarrow> metric_vec list \<Rightarrow> (go_error + unit) \<times> metric_vec list" where
  "list_register [] have_vecs = (Inr (), have_vecs)"
| "list_register (m # ms) have_vecs =
     (if \<not> valid_vec m \<or> VecName m \<in> set (map VecName have_vecs)
      then (Inl (Panic ''duplicate metrics collector registration attempted''), have_vecs)
      else list_register ms (have_vecs @ [m]))"

definition list_registry :: "(metric_vec list) registry" where
  "list_registry ms = State (list_register ms)"

lemma list_register_fresh:
  "list_all valid_vec ms \<Longrightarrow> distinct (map VecName ms) \<Longrightarrow> VecName ` set vs \<inter> VecName ` set ms = {} \<Longrightarrow>
   list_register ms vs = (Inr (), vs @ ms)"
  by (induction ms arbitrary: vs) auto

lemma list_register_taken:
  "VecName m \<in> VecName ` set vs \<Longrightarrow> m \<in> set ms \<Longrightarrow> \<exists>e us. list_register ms vs = (Inl e, us) \<and> is_panic e"
proof (induction ms arbitrary: vs)
  case (Cons a ms)
  then show ?case by (cases "m = a") (auto simp: Cons.IH)
qed simp

interpretation lr: metric_registry list_registry "\<lambda>vs. VecName ` set vs"
proof unfold_locales
  fix m and ms w :: "metric_vec list"
  assume "VecName m \<in> VecName ` set w" "m \<in> set ms"
  from list_register_taken [OF this] show "\<exists>e w'. run_state (list_registry ms) w = (Inl e, w') \<and> is_panic e"
    by (auto simp: list_registry_def)
qed (auto simp: list_registry_def list_register_fresh)

section \<open>Properties\<close>

text \<open>Every call of \<open>WithLabelValues\<close>, with anything at all in the place of a mismatched one.\<close>

definition declared :: "vec_kind \<Rightarrow> string \<Rightarrow> string list \<Rightarrow> bool" where
  "declared kind nm ls \<longleftrightarrow>
     list_ex (\<lambda>m. VecKind m = kind \<and> VecName m = nm \<and> length (VecLabels m) = length ls) korder_vectors"

definition checked_vectors :: "('w, unit) state \<Rightarrow> ('q, 'w) client \<Rightarrow> ('q, 'w) client" where
  "checked_vectors bad C = C\<lparr>
     CounterInc := (\<lambda>nm ls. if declared CounterVec nm ls then CounterInc C nm ls else bad),
     GaugeSet := (\<lambda>nm ls x. if declared GaugeVec nm ls then GaugeSet C nm ls x else bad),
     HistogramObserve := (\<lambda>nm ls d. if declared HistogramVec nm ls then HistogramObserve C nm ls d else bad)\<rparr>"

lemma declared_vectors:
  "declared CounterVec (VecName OrdersTotal) [a, b]" "declared GaugeVec (VecName OrdersActive) [a, b]"
  "declared CounterVec ''korder_tickets_total'' [a, b]" "declared GaugeVec (VecName TicketsActive) [a, b]"
  "declared CounterVec (VecName GuardianPodsTotal) [a]" "declared GaugeVec (VecName QuotaUsage) [a, b]"
  "declared GaugeVec (VecName QuotaLimits) [a, b]" "declared GaugeVec (VecName ReservedResources) [a, b, c]"
  "declared GaugeVec (VecName ClaimedResources) [a, b, c]"
  "declared HistogramVec ''korder_reconciliation_duration_seconds'' [a, b]"
  "declared HistogramVec (VecName WebhookDuration) [a, b, c]"
  "declared CounterVec ''korder_reconciliation_errors_total'' [a, b]"
  "declared CounterVec (VecName WebhookErrors) [a, b, c]"
  by (simp_all add: declared_def korder_vectors_def vector_defs)

text \<open>
  Recording a sample cannot panic. \<open>WithLabelValues\<close> panics when the number of values is not that of the
  vector's labels; every recording function names a registered vector of its own kind and
  passes as many values as it declares, so that it does the same whatever happens on a
  mismatch, and so do the two places that record, ticket creation and the deferred timing.
\<close>

theorem samples_match_their_vectors:
  fixes C :: "('q, 'w) client" and bad :: "('w, unit) state"
  shows "let D = checked_vectors bad C in
     IncOrdersTotal D a b = IncOrdersTotal C a b \<and> SetOrdersActive D a b x = SetOrdersActive C a b x \<and>
     IncTicketsTotal D a b = IncTicketsTotal C a b \<and> SetTicketsActive D a b x = SetTicketsActive C a b x \<and>
     IncGuardianPodsTotal D a = IncGuardianPodsTotal C a \<and>
     SetQuotaUsage D a b x = SetQuotaUsage C a b x \<and> SetQuotaLimits D a b x = SetQuotaLimits C a b x \<and>
     SetReservedResources D a b c x = SetReservedResources C a b c x \<and>
     SetClaimedResources D a b c x = SetClaimedResources C a b c x \<and>
     ObserveReconciliationDuration D a b d = ObserveReconciliationDuration C a b d \<and>
     ObserveWebhookDuration D a b c d = ObserveWebhookDuration C a b c d \<and>
     IncReconciliationErrors D a b = IncReconciliationErrors C a b \<and>
     IncWebhookErrors D a b c = IncWebhookErrors C a b c \<and>
     timed D a body = timed C a body \<and> createTicket D ord i = createTicket C ord i"
  by (simp add: Let_def checked_vectors_def sample_defs declared_vectors timed_def createTicket_def split: sum.split)

text \<open>
  Registration succeeds exactly once. On a registry that has none of the names, \<open>RegisterMetrics\<close> puts
  all thirteen vectors in; a second call panics.
\<close>

theorem metrics_register_once:
  assumes "metric_registry MustRegister names" and "names w = {}"
  shows "\<exists>w'. run_state (RegisterMetrics MustRegister) w = (Inr (), w') \<and> card (names w') = 13 \<and>
    (\<exists>e w''. run_state (RegisterMetrics MustRegister) w' = (Inl e, w'') \<and> is_panic e)"
proof -
  have valid: "list_all valid_vec korder_vectors" and dist: "distinct (map VecName korder_vectors)"
    and len: "length korder_vectors = 13"
    by code_simp+
  then have ne: "korder_vectors \<noteq> []" by auto
  have "card (VecName ` set korder_vectors) = 13"
    using distinct_card [OF dist] len by simp
  moreover have "names w \<inter> VecName ` set korder_vectors = {}" using assms(2) by simp
  from metric_registry.register_twice [OF assms(1) valid dist ne this] obtain w' where
    "run_state (MustRegister korder_vectors) w = (Inr (), w')" "names w' = VecName ` set korder_vectors"
    "\<exists>e w''. run_state (MustRegister korder_vectors) w' = (Inl e, w'') \<and> is_panic e"
    using assms(2) by auto
  ultimately show ?thesis unfolding RegisterMetrics_def by metis
qed

theorem metrics_register_once_witness:
  "\<exists>w'. run_state (RegisterMetrics list_registry) [] = (Inr (), w') \<and> card (VecName ` set w') = 13"
  using metrics_register_once [OF lr.metric_registry_axioms, of "[]"] by auto

end
