(* ===== verification/Startup.thy ===== *)
theory Startup
  imports Flags Metrics
begin

text \<open>
  \<open>cmd/main.go\<close>: what the process does before the manager runs. Go slices are modelled with
  their backing arrays, because the two servers' TLS options start as one slice and are
  appended to apart. controller-runtime (the manager, its builders, the certificate watcher)
  is a record of operations; \<open>os.Exit(1)\<close> after a logged error is an error value. The theorems
  are that the setup is a fixed plan which stops at its first failure, with the start of the
  manager last, and which certificate each server gets.
\<close>

section \<open>Slices\<close>

text \<open>A backing array is a list of its elements, \<open>None\<close> where nothing was stored.\<close>

type_synonym 'a arrays = "'a option list list"

record slice =
  SliceArray :: nat
  SliceLen :: nat
  SliceCap :: nat

definition nil_slice :: slice where
  "nil_slice = \<lparr>SliceArray = 0, SliceLen = 0, SliceCap = 0\<rparr>"

text \<open>
  \<open>append(s, x)\<close>: in place while there is capacity; otherwise into a new array, whose capacity
  the language leaves to the implementation (\<open>grow\<close>).
\<close>

definition go_append :: "(nat \<Rightarrow> nat \<Rightarrow> nat) \<Rightarrow> 'a arrays \<Rightarrow> slice \<Rightarrow> 'a \<Rightarrow> 'a arrays \<times> slice" where
  "go_append grow h s x =
     (if SliceLen s < SliceCap s then
        (h[SliceArray s := (h ! SliceArray s)[SliceLen s := Some x]], s\<lparr>SliceLen := SliceLen s + 1\<rparr>)
      else
        let c = grow (SliceCap s) (SliceLen s + 1);
            elems = (if SliceLen s = 0 then [] else take (SliceLen s) (h ! SliceArray s)) in
        (h @ [elems @ [Some x] @ replicate (c - SliceLen s - 1) None],
         \<lparr>SliceArray = length h, SliceLen = SliceLen s + 1, SliceCap = c\<rparr>))"

definition elements :: "'a arrays \<Rightarrow> slice \<Rightarrow> 'a list" where
  "elements h s = (if SliceLen s = 0 then [] else List.map_filter id (take (SliceLen s) (h ! SliceArray s)))"

section \<open>TLS options, the manager and its parts\<close>

text \<open>The functions that change a \<open>tls.Config\<close>; \<open>'h\<close> is a certificate watcher.\<close>

datatype 'h tls_option = DisableHTTP2 | GetCertificateOf 'h

record 'h tls_config =
  NextProtos :: "string list"
  GetCertificate :: "'h option"

fun apply_tls :: "'h tls_option \<Rightarrow> 'h tls_config \<Rightarrow> 'h tls_config" where
  "apply_tls DisableHTTP2 c = c\<lparr>NextProtos := [''http/1.1'']\<rparr>"
| "apply_tls (GetCertificateOf h) c = c\<lparr>GetCertificate := Some h\<rparr>"

record 'h metrics_options =
  BindAddress :: string
  SecureServing :: bool
  TLSOpts :: "'h tls_option list"
  FilterProvider :: "string option"

record 'h manager_options =
  ManagerScheme :: string
  ManagerMetrics :: "'h metrics_options"
  WebhookServer :: "'h tls_option list"
  HealthProbeBindAddress :: string
  LeaderElection :: bool
  LeaderElectionID :: string

text \<open>The builders of the \<open>SetupWithManager\<close> functions, by the names of the types they are given.\<close>

record controller_builder =
  ControllerFor :: string
  ControllerOwns :: "string list"
  ControllerNamed :: string
  ControllerReconciler :: string

record webhook_builder =
  WebhookFor :: string
  WithValidator :: string
  WithDefaulter :: string

definition Order_SetupWithManager :: controller_builder where
  "Order_SetupWithManager = \<lparr>ControllerFor = ''Order'', ControllerOwns = [''Ticket''],
     ControllerNamed = ''order'', ControllerReconciler = ''OrderReconciler''\<rparr>"

definition Ticket_SetupWithManager :: controller_builder where
  "Ticket_SetupWithManager = \<lparr>ControllerFor = ''Ticket'', ControllerOwns = [''Pod''],
     ControllerNamed = ''ticket'', ControllerReconciler = ''TicketReconciler''\<rparr>"

definition Quota_SetupWithManager :: controller_builder where
  "Quota_SetupWithManager = \<lparr>ControllerFor = ''Quota'', ControllerOwns = [],
     ControllerNamed = ''quota'', ControllerReconciler = ''QuotaReconciler''\<rparr>"

definition SetupOrderWebhookWithManager :: webhook_builder where
  "SetupOrderWebhookWithManager =
     \<lparr>WebhookFor = ''Order'', WithValidator = ''OrderCustomValidator'', WithDefaulter = ''OrderCustomDefaulter''\<rparr>"

definition SetupTicketWebhookWithManager :: webhook_builder where
  "SetupTicketWebhookWithManager =
     \<lparr>WebhookFor = ''Ticket'', WithValidator = ''TicketCustomValidator'', WithDefaulter = ''TicketCustomDefaulter''\<rparr>"

definition SetupQuotaWebhookWithManager :: webhook_builder where
  "SetupQuotaWebhookWithManager =
     \<lparr>WebhookFor = ''Quota'', WithValidator = ''QuotaCustomValidator'', WithDefaulter = ''QuotaCustomDefaulter''\<rparr>"

definition SetupPodWebhookWithManager :: webhook_builder where
  "SetupPodWebhookWithManager =
     \<lparr>WebhookFor = ''Pod'', WithValidator = ''PodCustomValidator'', WithDefaulter = ''PodCustomDefaulter''\<rparr>"

text \<open>The API group of the program and the types its scheme builder registers.\<close>

record group_version =
  Group :: string
  Version :: string

definition GroupVersion :: group_version where
  "GroupVersion = \<lparr>Group = ''core.korder.dev'', Version = ''v1alpha1''\<rparr>"

definition SchemeBuilder :: "string list" where
  "SchemeBuilder = [''Order'', ''OrderList''] @ [''Quota'', ''QuotaList''] @ [''Ticket'', ''TicketList'']"

text \<open>What \<open>main\<close> calls outside the repository.\<close>

record ('h, 'w) platform =
  AddClientgoScheme :: "('w, go_error + unit) state"
  AddToScheme :: "group_version \<Rightarrow> string list \<Rightarrow> ('w, go_error + unit) state"
  MustRegister :: "'w registry"
  NewCertWatcher :: "string \<Rightarrow> string \<Rightarrow> ('w, go_error + 'h) state"
  GetConfigOrDie :: "('w, go_error + unit) state"
  NewManager :: "'h manager_options \<Rightarrow> ('w, go_error + unit) state"
  CompleteController :: "controller_builder \<Rightarrow> ('w, go_error + unit) state"
  CompleteWebhook :: "webhook_builder \<Rightarrow> ('w, go_error + unit) state"
  AddRunnable :: "'h \<Rightarrow> ('w, go_error + unit) state"
  AddHealthzCheck :: "string \<Rightarrow> ('w, go_error + unit) state"
  AddReadyzCheck :: "string \<Rightarrow> ('w, go_error + unit) state"
  StartManager :: "('w, go_error + unit) state"

section \<open>The code\<close>

text \<open>\<open>utilruntime.Must\<close>\<close>

definition must :: "('w, go_error + unit) state \<Rightarrow> ('w, go_error + unit) state" where
  "must m = do {
     r \<leftarrow> m;
     case r of Inl e \<Rightarrow> State_Monad.return (Inl (Panic (error_text e))) | Inr _ \<Rightarrow> State_Monad.return (Inr ())
   }"

definition startup_init :: "('h, 'w) platform \<Rightarrow> ('w, go_error + unit) state" where
  "startup_init P =
     on_ok (must (AddClientgoScheme P)) (\<lambda>_.
     on_ok (must (AddToScheme P GroupVersion SchemeBuilder)) (\<lambda>_.
     RegisterMetrics (MustRegister P)))"

text \<open>\<open>if err != nil { setupLog.Error(err, msg); os.Exit(1) }\<close>\<close>

definition or_exit :: "string \<Rightarrow> ('w, go_error + 'a) state \<Rightarrow> ('w, go_error + 'a) state" where
  "or_exit msg m = do {
     r \<leftarrow> m;
     case r of Inl e \<Rightarrow> State_Monad.return (Inl (Wrapped msg e)) | Inr x \<Rightarrow> State_Monad.return (Inr x)
   }"

text \<open>A certificate watcher, when its directory is given.\<close>

definition cert_watcher ::
  "('h, 'w) platform \<Rightarrow> string \<Rightarrow> string \<Rightarrow> string \<Rightarrow> string \<Rightarrow> ('w, go_error + 'h option) state" where
  "cert_watcher P msg path nm key =
     (if path \<noteq> '''' then do {
        r \<leftarrow> or_exit msg (NewCertWatcher P (filepath_Join [path, nm]) (filepath_Join [path, key]));
        case r of Inl e \<Rightarrow> State_Monad.return (Inl e) | Inr h \<Rightarrow> State_Monad.return (Inr (Some h))
      }
      else State_Monad.return (Inr None))"

definition add_certificate ::
  "(nat \<Rightarrow> nat \<Rightarrow> nat) \<Rightarrow> 'h option \<Rightarrow> 'h tls_option arrays \<Rightarrow> slice \<Rightarrow> 'h tls_option arrays \<times> slice" where
  "add_certificate grow watcher arrays opts =
     (case watcher of None \<Rightarrow> (arrays, opts) | Some h \<Rightarrow> go_append grow arrays opts (GetCertificateOf h))"

definition initial_tls :: "(nat \<Rightarrow> nat \<Rightarrow> nat) \<Rightarrow> flags \<Rightarrow> 'h tls_option arrays \<times> slice" where
  "initial_tls grow f =
     (if \<not> enableHTTP2 f then go_append grow [] nil_slice DisableHTTP2 else ([], nil_slice))"

text \<open>
  The options the manager is made with. The webhook server keeps its slice and reads it when
  the manager starts, after both appends.
\<close>

definition manager_options_of ::
  "(nat \<Rightarrow> nat \<Rightarrow> nat) \<Rightarrow> flags \<Rightarrow> 'h option \<Rightarrow> 'h option \<Rightarrow> 'h manager_options" where
  "manager_options_of grow f webhookCertWatcher metricsCertWatcher =
     (case initial_tls grow f of (a0, tlsOpts) \<Rightarrow>
      case add_certificate grow webhookCertWatcher a0 tlsOpts of (a1, webhookTLSOpts) \<Rightarrow>
      case add_certificate grow metricsCertWatcher a1 tlsOpts of (a2, metricsTLSOpts) \<Rightarrow>
        \<lparr>ManagerScheme = ''scheme'',
         ManagerMetrics = \<lparr>BindAddress = metricsAddr f, SecureServing = secureMetrics f,
           TLSOpts = elements a2 metricsTLSOpts,
           FilterProvider = (if secureMetrics f then Some ''WithAuthenticationAndAuthorization'' else None)\<rparr>,
         WebhookServer = elements a2 webhookTLSOpts,
         HealthProbeBindAddress = probeAddr f,
         LeaderElection = enableLeaderElection f,
         LeaderElectionID = ''c7c87803.korder.dev''\<rparr>)"

definition webhooks_enabled :: "(string \<Rightarrow> string) \<Rightarrow> bool" where
  "webhooks_enabled Getenv \<longleftrightarrow> Getenv ''ENABLE_WEBHOOKS'' \<noteq> ''false''"

definition setup_webhook ::
  "('h, 'w) platform \<Rightarrow> (string \<Rightarrow> string) \<Rightarrow> webhook_builder \<Rightarrow> ('w, go_error + unit) state" where
  "setup_webhook P Getenv b =
     (if webhooks_enabled Getenv then or_exit ''unable to create webhook'' (CompleteWebhook P b)
      else State_Monad.return (Inr ()))"

definition add_watcher ::
  "('h, 'w) platform \<Rightarrow> string \<Rightarrow> 'h option \<Rightarrow> ('w, go_error + unit) state" where
  "add_watcher P msg watcher =
     (case watcher of None \<Rightarrow> State_Monad.return (Inr ()) | Some h \<Rightarrow> or_exit msg (AddRunnable P h))"

definition main :: "('h, 'w) platform \<Rightarrow> (nat \<Rightarrow> nat \<Rightarrow> nat) \<Rightarrow> (string \<Rightarrow> string) \<Rightarrow> flags \<Rightarrow> ('w, go_error + unit) state" where
  "main P grow Getenv f =
     on_ok (cert_watcher P ''Failed to initialize webhook certificate watcher''
       (webhookCertPath f) (webhookCertName f) (webhookCertKey f)) (\<lambda>webhookCertWatcher.
     on_ok (cert_watcher P ''to initialize metrics certificate watcher''
       (metricsCertPath f) (metricsCertName f) (metricsCertKey f)) (\<lambda>metricsCertWatcher.
     on_ok (GetConfigOrDie P) (\<lambda>_.
     on_ok (or_exit ''unable to start manager''
       (NewManager P (manager_options_of grow f webhookCertWatcher metricsCertWatcher))) (\<lambda>_.
     on_ok (or_exit ''unable to create controller'' (CompleteController P Order_SetupWithManager)) (\<lambda>_.
     on_ok (or_exit ''unable to create controller'' (CompleteController P Ticket_SetupWithManager)) (\<lambda>_.
     on_ok (setup_webhook P Getenv SetupTicketWebhookWithManager) (\<lambda>_.
     on_ok (setup_webhook P Getenv SetupOrderWebhookWithManager) (\<lambda>_.
     on_ok (setup_webhook P Getenv SetupPodWebhookWithManager) (\<lambda>_.
     on_ok (or_exit ''unable to create controller'' (CompleteController P Quota_SetupWithManager)) (\<lambda>_.
     on_ok (setup_webhook P Getenv SetupQuotaWebhookWithManager) (\<lambda>_.
     on_ok (add_watcher P ''unable to add metrics certificate watcher to manager'' metricsCertWatcher) (\<lambda>_.
     on_ok (add_watcher P ''unable to add webhook certificate watcher to manager'' webhookCertWatcher) (\<lambda>_.
     on_ok (or_exit ''unable to set up health check'' (AddHealthzCheck P ''healthz'')) (\<lambda>_.
     on_ok (or_exit ''unable to set up ready check'' (AddReadyzCheck P ''readyz'')) (\<lambda>_.
     or_exit ''problem running manager'' (StartManager P))))))))))))))))"

text \<open>
  The exit status of the process: 2 for a panic in \<open>init\<close> and for a flag error, 0 for a call for
  help, and for \<open>main\<close> 1 after a logged error, 0 when the manager has stopped.
\<close>

definition process ::
  "('h, 'w) platform \<Rightarrow> (nat \<Rightarrow> nat \<Rightarrow> nat) \<Rightarrow> (string \<Rightarrow> string) \<Rightarrow> (string \<Rightarrow> other_flag option) \<Rightarrow> string list \<Rightarrow>
   ('w, int) state" where
  "process P grow Getenv others args = do {
     i \<leftarrow> startup_init P;
     case i of
       Inl _ \<Rightarrow> State_Monad.return 2
     | Inr _ \<Rightarrow>
         (case flag_parse others default_flags args of
            Inl HelpRequested \<Rightarrow> State_Monad.return 0
          | Inl _ \<Rightarrow> State_Monad.return 2
          | Inr (f, _) \<Rightarrow> do {
              r \<leftarrow> main P grow Getenv f;
              State_Monad.return (case r of Inl _ \<Rightarrow> 1 | Inr _ \<Rightarrow> 0)
            })
   }"

text \<open>The options, by the capacity the first append gives.\<close>

lemmas tls_defs = manager_options_of_def initial_tls_def add_certificate_def go_append_def nil_slice_def
  elements_def List.map_filter_def Let_def

lemma options_http2:
  assumes "enableHTTP2 f"
  shows "WebhookServer (manager_options_of grow f wh mh) = (case wh of None \<Rightarrow> [] | Some h \<Rightarrow> [GetCertificateOf h])"
    "TLSOpts (ManagerMetrics (manager_options_of grow f wh mh)) = (case mh of None \<Rightarrow> [] | Some h \<Rightarrow> [GetCertificateOf h])"
  using assms by (cases wh; cases mh; simp add: tls_defs)+

lemma options_exact:
  assumes "\<not> enableHTTP2 f" "grow 0 1 = 1"
  shows "WebhookServer (manager_options_of grow f wh mh) =
      DisableHTTP2 # (case wh of None \<Rightarrow> [] | Some h \<Rightarrow> [GetCertificateOf h])"
    "TLSOpts (ManagerMetrics (manager_options_of grow f wh mh)) =
      DisableHTTP2 # (case mh of None \<Rightarrow> [] | Some h \<Rightarrow> [GetCertificateOf h])"
  using assms by (cases wh; cases mh; simp add: tls_defs)+

lemma options_spare:
  assumes "\<not> enableHTTP2 f" "grow 0 1 = Suc (Suc k)"
  shows "WebhookServer (manager_options_of grow f wh mh) =
      DisableHTTP2 # (case wh of None \<Rightarrow> [] | Some h \<Rightarrow> [GetCertificateOf (case mh of None \<Rightarrow> h | Some g \<Rightarrow> g)])"
    "TLSOpts (ManagerMetrics (manager_options_of grow f wh mh)) =
      DisableHTTP2 # (case mh of None \<Rightarrow> [] | Some h \<Rightarrow> [GetCertificateOf h])"
  using assms by (cases wh; cases mh; simp add: tls_defs)+

section \<open>The plan\<close>

datatype 'h setup_step =
    LoadConfig
  | MakeManager "'h manager_options"
  | SetupController controller_builder
  | SetupWebhook webhook_builder
  | AddWatcher 'h
  | AddHealthz string
  | AddReadyz string
  | RunManager

fun perform :: "('h, 'w) platform \<Rightarrow> 'h setup_step \<Rightarrow> ('w, go_error + unit) state" where
  "perform P LoadConfig = GetConfigOrDie P"
| "perform P (MakeManager opts) = NewManager P opts"
| "perform P (SetupController b) = CompleteController P b"
| "perform P (SetupWebhook b) = CompleteWebhook P b"
| "perform P (AddWatcher h) = AddRunnable P h"
| "perform P (AddHealthz nm) = AddHealthzCheck P nm"
| "perform P (AddReadyz nm) = AddReadyzCheck P nm"
| "perform P RunManager = StartManager P"

text \<open>The steps after the certificate watchers, each with the message its failure is logged under.\<close>

definition webhook_step :: "(string \<Rightarrow> string) \<Rightarrow> webhook_builder \<Rightarrow> (string \<times> 'h setup_step) list" where
  "webhook_step Getenv b = (if webhooks_enabled Getenv then [(''unable to create webhook'', SetupWebhook b)] else [])"

definition watcher_step :: "string \<Rightarrow> 'h option \<Rightarrow> (string \<times> 'h setup_step) list" where
  "watcher_step msg watcher = (case watcher of None \<Rightarrow> [] | Some h \<Rightarrow> [(msg, AddWatcher h)])"

definition preparation ::
  "(nat \<Rightarrow> nat \<Rightarrow> nat) \<Rightarrow> (string \<Rightarrow> string) \<Rightarrow> flags \<Rightarrow> 'h option \<Rightarrow> 'h option \<Rightarrow> (string \<times> 'h setup_step) list" where
  "preparation grow Getenv f wh mh =
     [(''unable to start manager'', MakeManager (manager_options_of grow f wh mh)),
      (''unable to create controller'', SetupController Order_SetupWithManager),
      (''unable to create controller'', SetupController Ticket_SetupWithManager)] @
     webhook_step Getenv SetupTicketWebhookWithManager @
     webhook_step Getenv SetupOrderWebhookWithManager @
     webhook_step Getenv SetupPodWebhookWithManager @
     [(''unable to create controller'', SetupController Quota_SetupWithManager)] @
     webhook_step Getenv SetupQuotaWebhookWithManager @
     watcher_step ''unable to add metrics certificate watcher to manager'' mh @
     watcher_step ''unable to add webhook certificate watcher to manager'' wh @
     [(''unable to set up health check'', AddHealthz ''healthz''),
      (''unable to set up ready check'', AddReadyz ''readyz'')]"

definition run_step :: "('h, 'w) platform \<Rightarrow> string \<times> 'h setup_step \<Rightarrow> ('w, go_error + unit) state" where
  "run_step P ms = or_exit (fst ms) (perform P (snd ms))"

lemma on_ok_return [simp]: "on_ok (State_Monad.return (Inr x)) f = f x"
  by (rule state_ext) (simp add: run_on_ok)

lemma for_each_webhook: "for_each (run_step P) (webhook_step Getenv b) = setup_webhook P Getenv b"
  by (rule state_ext)
    (auto simp: webhook_step_def setup_webhook_def run_step_def or_exit_def run_on_ok split: prod.splits sum.splits)

lemma for_each_watcher: "for_each (run_step P) (watcher_step msg watcher) = add_watcher P msg watcher"
  by (rule state_ext)
    (auto simp: watcher_step_def add_watcher_def run_step_def or_exit_def run_on_ok split: option.splits prod.splits sum.splits)

lemma on_ok_assoc: "on_ok (on_ok m f) g = on_ok m (\<lambda>x. on_ok (f x) g)"
  by (rule state_ext) (simp add: run_on_ok split: prod.split sum.split)

lemma on_ok_unit: "on_ok m (\<lambda>u. State_Monad.return (Inr ())) = m"
  for m :: "('w, 'e + unit) state"
  by (rule state_ext) (auto simp: run_on_ok split: prod.split sum.split)

lemma main_is_the_plan:
  "main P grow Getenv f =
     on_ok (cert_watcher P ''Failed to initialize webhook certificate watcher''
       (webhookCertPath f) (webhookCertName f) (webhookCertKey f)) (\<lambda>wh.
     on_ok (cert_watcher P ''to initialize metrics certificate watcher''
       (metricsCertPath f) (metricsCertName f) (metricsCertKey f)) (\<lambda>mh.
     on_ok (GetConfigOrDie P) (\<lambda>_.
       for_each (run_step P) (preparation grow Getenv f wh mh @ [(''problem running manager'', RunManager)]))))"
  by (simp add: main_def preparation_def for_each_append for_each_webhook for_each_watcher on_ok_assoc on_ok_unit run_step_def)

text \<open>
  What is observed of a run: each certificate watcher asked for, by its two files, with the
  watcher returned or nothing when that failed, and each setup step with its success.
\<close>

datatype 'h entry = Watcher string string "'h option" | Step "'h setup_step" bool

fun failed :: "'h entry \<Rightarrow> 'h entry" where
  "failed (Watcher cert key _) = Watcher cert key None"
| "failed (Step st _) = Step st False"

definition watcher_entries :: "string \<Rightarrow> string \<Rightarrow> string \<Rightarrow> 'h option \<Rightarrow> 'h entry list" where
  "watcher_entries path nm key watcher =
     (case watcher of None \<Rightarrow> [] | Some h \<Rightarrow> [Watcher (filepath_Join [path, nm]) (filepath_Join [path, key]) (Some h)])"

text \<open>The whole of a run in which nothing fails, by the watchers that were made.\<close>

definition startup_plan ::
  "(nat \<Rightarrow> nat \<Rightarrow> nat) \<Rightarrow> (string \<Rightarrow> string) \<Rightarrow> flags \<Rightarrow> 'h option \<Rightarrow> 'h option \<Rightarrow> 'h entry list" where
  "startup_plan grow Getenv f wh mh =
     watcher_entries (webhookCertPath f) (webhookCertName f) (webhookCertKey f) wh @
     watcher_entries (metricsCertPath f) (metricsCertName f) (metricsCertKey f) mh @
     map (\<lambda>st. Step st True) (LoadConfig # map snd (preparation grow Getenv f wh mh) @ [RunManager])"

text \<open>A run follows a plan: to its end, or up to one step of it that fails, which is the last one made.\<close>

definition follows :: "'h entry list \<Rightarrow> 'h entry list \<Rightarrow> bool \<Rightarrow> bool" where
  "follows plan seen ok \<longleftrightarrow>
     (if ok then seen = plan else (\<exists>k < length plan. seen = take k plan @ [failed (plan ! k)]))"

lemma follows_then: "follows p seen True \<Longrightarrow> follows q rest ok \<Longrightarrow> follows (p @ q) (seen @ rest) ok"
proof (cases ok)
  case False
  assume "follows p seen True" "follows q rest ok"
  with False obtain k where "seen = p" "k < length q" "rest = take k q @ [failed (q ! k)]" by (auto simp: follows_def)
  with False show ?thesis by (auto simp: follows_def nth_append intro!: exI [of _ "length p + k"])
qed (simp add: follows_def)

lemma follows_stop: "follows p seen False \<Longrightarrow> follows (p @ q) seen False"
  by (auto simp: follows_def nth_append)

text \<open>A platform whose world keeps a log of what is asked of it and whether it succeeded.\<close>

locale startup_log =
  fixes P :: "('h, 'w) platform" and log :: "'w \<Rightarrow> 'h entry list"
  assumes step_logged: "run_state (perform P st) w = (r, w') \<Longrightarrow> log w' = log w @ [Step st (\<not> isl r)]"
    and watcher_logged: "run_state (NewCertWatcher P a b) w = (rc, w') \<Longrightarrow>
      log w' = log w @ [Watcher a b (case rc of Inl e \<Rightarrow> None | Inr h \<Rightarrow> Some h)]"
    and init_silent: "run_state (startup_init P) w = (ru, w') \<Longrightarrow> log w' = log w"
begin

lemma run_step_logged: "run_state (run_step P ms) w = (r, w') \<Longrightarrow> log w' = log w @ [Step (snd ms) (\<not> isl r)]"
  by (auto simp: run_step_def or_exit_def split: prod.splits sum.splits dest: step_logged)

lemma steps_logged:
  "run_state (for_each (run_step P) ms) w = (r, w') \<Longrightarrow>
   \<exists>seen. log w' = log w @ seen \<and> follows (map (\<lambda>st. Step st True) (map snd ms)) seen (\<not> isl r)"
proof (induction ms arbitrary: w)
  case (Cons m ms)
  obtain q v where q: "run_state (run_step P m) w = (q, v)" by fastforce
  note v = run_step_logged [OF q]
  show ?case
  proof (cases q)
    case (Inl e)
    with Cons.prems q v show ?thesis by (auto simp: run_on_ok follows_def)
  next
    case (Inr u)
    with Cons.prems q have "run_state (for_each (run_step P) ms) v = (r, w')" by (simp add: run_on_ok)
    from Cons.IH [OF this] obtain seen where seen: "log w' = log v @ seen"
      "follows (map (\<lambda>st. Step st True) (map snd ms)) seen (\<not> isl r)" by blast
    have "follows [Step (snd m) True] [Step (snd m) True] True" by (simp add: follows_def)
    from follows_then [OF this seen(2)] seen(1) v Inr show ?thesis by auto
  qed
qed (auto simp: follows_def)

lemma cert_watcher_run:
  assumes "run_state (cert_watcher P msg path nm key) w = (r, w')"
  shows "\<exists>h seen. (h = None \<longleftrightarrow> path = '''') \<and> (\<forall>x. r = Inr x \<longrightarrow> x = h) \<and> log w' = log w @ seen \<and>
    follows (watcher_entries path nm key h) seen (\<not> isl r)"
proof (cases "path = ''''")
  case True
  with assms show ?thesis
    by (intro exI [of _ None] exI [of _ "[]"]) (auto simp: cert_watcher_def watcher_entries_def follows_def)
next
  case False
  let ?cert = "filepath_Join [path, nm]" and ?key = "filepath_Join [path, key]"
  obtain rc v where rc: "run_state (NewCertWatcher P ?cert ?key) w = (rc, v)" by fastforce
  note watcher_logged [OF rc]
  with assms rc False show ?thesis
    by (cases rc) (auto simp: cert_watcher_def or_exit_def watcher_entries_def follows_def)
qed

lemma main_follows:
  assumes "run_state (main P grow Getenv f) w = (r, w')"
  shows "\<exists>wh mh seen. (wh = None \<longleftrightarrow> webhookCertPath f = '''') \<and> (mh = None \<longleftrightarrow> metricsCertPath f = '''') \<and>
    log w' = log w @ seen \<and> follows (startup_plan grow Getenv f wh mh) seen (\<not> isl r)"
proof -
  obtain a u where a: "run_state (cert_watcher P ''Failed to initialize webhook certificate watcher''
      (webhookCertPath f) (webhookCertName f) (webhookCertKey f)) w = (a, u)" by fastforce
  obtain b v where b: "run_state (cert_watcher P ''to initialize metrics certificate watcher''
      (metricsCertPath f) (metricsCertName f) (metricsCertKey f)) u = (b, v)" by fastforce
  obtain c x where c: "run_state (GetConfigOrDie P) v = (c, x)" by fastforce
  let ?web = "watcher_entries (webhookCertPath f) (webhookCertName f) (webhookCertKey f)"
  let ?met = "watcher_entries (metricsCertPath f) (metricsCertName f) (metricsCertKey f)"
  from cert_watcher_run [OF a] obtain wh sa where wh: "wh = None \<longleftrightarrow> webhookCertPath f = ''''"
    "\<And>x. a = Inr x \<Longrightarrow> x = wh" "log u = log w @ sa" "follows (?web wh) sa (\<not> isl a)" by blast
  from cert_watcher_run [OF b] obtain mh sb where mh: "mh = None \<longleftrightarrow> metricsCertPath f = ''''"
    "\<And>x. b = Inr x \<Longrightarrow> x = mh" "log v = log u @ sb" "follows (?met mh) sb (\<not> isl b)" by blast
  have sc: "log x = log v @ [Step LoadConfig (\<not> isl c)]" "follows [Step LoadConfig True] [Step LoadConfig (\<not> isl c)] (\<not> isl c)"
    using step_logged [of LoadConfig v c x] c by (simp_all add: follows_def)
  let ?rest = "map (\<lambda>st. Step st True) (map snd (preparation grow Getenv f wh mh @ [(''problem running manager'', RunManager)]))"
  have plan: "startup_plan grow Getenv f wh mh = ?web wh @ ?met mh @ [Step LoadConfig True] @ ?rest"
    by (simp add: startup_plan_def)
  have "\<exists>seen. log w' = log w @ seen \<and> follows (?web wh @ ?met mh @ [Step LoadConfig True] @ ?rest) seen (\<not> isl r)"
  proof (cases a)
    case (Inl e)
    then have "w' = u" "isl r" using assms a unfolding main_is_the_plan by (auto simp: run_on_ok)
    with wh(3,4) Inl follows_stop show ?thesis by auto
  next
    case (Inr h)
    note made = this
    with wh(2) have h: "h = wh" by simp
    from wh(4) made have fa: "follows (?web wh) sa True" by simp
    show ?thesis
    proof (cases b)
      case (Inl e)
      then have "w' = v" "isl r" using assms a b made unfolding main_is_the_plan by (auto simp: run_on_ok)
      moreover from Inl mh(4) have "follows (?met mh) sb False" by simp
      note follows_then [OF fa follows_stop [OF this]]
      ultimately show ?thesis using wh(3) mh(3) by auto
    next
      case (Inr m)
      note made' = this
      with mh(2) have m: "m = mh" by simp
      from mh(4) made' have fb: "follows (?met mh) sb True" by simp
      show ?thesis
      proof (cases c)
        case (Inl e)
        then have "w' = x" "isl r" using assms a b c made made' unfolding main_is_the_plan by (auto simp: run_on_ok)
        moreover from Inl sc(2) have "follows [Step LoadConfig True] [Step LoadConfig False] False" by simp
        note follows_then [OF fa follows_then [OF fb follows_stop [OF this]]]
        ultimately show ?thesis using wh(3) mh(3) sc(1) Inl by auto
      next
        case (Inr y)
        then have "run_state (for_each (run_step P) (preparation grow Getenv f wh mh @ [(''problem running manager'', RunManager)])) x = (r, w')"
          using assms a b c made made' h m unfolding main_is_the_plan by (simp add: run_on_ok)
        from steps_logged [OF this] obtain sd where sd: "log w' = log x @ sd" "follows ?rest sd (\<not> isl r)" by blast
        from Inr sc(2) have fc: "follows [Step LoadConfig True] [Step LoadConfig True] True" by simp
        show ?thesis
        proof (rule exI [of _ "sa @ sb @ [Step LoadConfig True] @ sd"], rule conjI)
          show "log w' = log w @ sa @ sb @ [Step LoadConfig True] @ sd" using wh(3) mh(3) sc(1) sd(1) Inr by simp
          show "follows (?web wh @ ?met mh @ [Step LoadConfig True] @ ?rest) (sa @ sb @ [Step LoadConfig True] @ sd) (\<not> isl r)"
            by (rule follows_then [OF fa follows_then [OF fb follows_then [OF fc sd(2)]]])
        qed
      qed
    qed
  qed
  then obtain seen where "log w' = log w @ seen"
    "follows (?web wh @ ?met mh @ [Step LoadConfig True] @ ?rest) seen (\<not> isl r)" by (elim exE conjE)
  with wh(1) mh(1) show ?thesis
    by (intro exI [of _ wh] exI [of _ mh] exI [of _ seen] conjI) (assumption | simp only: plan)+
qed

end

subsection \<open>A platform that records\<close>

text \<open>
  A platform for the witnesses: its certificate watchers are their file names, its world is
  the log and the vectors registered, and it fails at the step of a given number.
\<close>

definition log_step :: "nat option \<Rightarrow> (string \<times> string) setup_step \<Rightarrow>
    ((string \<times> string) entry list \<times> metric_vec list, go_error + unit) state" where
  "log_step bad st = State (\<lambda>(l, vs).
     if bad = Some (length l) then (Inl (Errorf ''failed''), (l @ [Step st False], vs)) else (Inr (), (l @ [Step st True], vs)))"

definition log_watcher :: "nat option \<Rightarrow> string \<Rightarrow> string \<Rightarrow>
    ((string \<times> string) entry list \<times> metric_vec list, go_error + string \<times> string) state" where
  "log_watcher bad cert key = State (\<lambda>(l, vs).
     if bad = Some (length l) then (Inl (Errorf ''failed''), (l @ [Watcher cert key None], vs))
     else (Inr (cert, key), (l @ [Watcher cert key (Some (cert, key))], vs)))"

definition log_platform ::
  "nat option \<Rightarrow> (string \<times> string, (string \<times> string) entry list \<times> metric_vec list) platform" where
  "log_platform bad = \<lparr>
     AddClientgoScheme = State_Monad.return (Inr ()),
     AddToScheme = (\<lambda>gv ts. State_Monad.return (Inr ())),
     MustRegister = (\<lambda>ms. State (\<lambda>(l, vs). case list_register ms vs of (r, vs') \<Rightarrow> (r, (l, vs')))),
     NewCertWatcher = log_watcher bad,
     GetConfigOrDie = log_step bad LoadConfig,
     NewManager = (\<lambda>opts. log_step bad (MakeManager opts)),
     CompleteController = (\<lambda>b. log_step bad (SetupController b)),
     CompleteWebhook = (\<lambda>b. log_step bad (SetupWebhook b)),
     AddRunnable = (\<lambda>h. log_step bad (AddWatcher h)),
     AddHealthzCheck = (\<lambda>nm. log_step bad (AddHealthz nm)),
     AddReadyzCheck = (\<lambda>nm. log_step bad (AddReadyz nm)),
     StartManager = log_step bad RunManager\<rparr>"

lemma perform_log_platform: "perform (log_platform bad) st = log_step bad st"
  by (cases st) (simp_all add: log_platform_def)

interpretation lp: startup_log "log_platform bad" fst
proof unfold_locales
  show "run_state (perform (log_platform bad) st) w = (r, w') \<Longrightarrow> fst w' = fst w @ [Step st (\<not> isl r)]" for st w r w'
    by (auto simp: perform_log_platform log_step_def split: prod.splits if_splits)
  show "run_state (NewCertWatcher (log_platform bad) a b) w = (rc, w') \<Longrightarrow>
      fst w' = fst w @ [Watcher a b (case rc of Inl e \<Rightarrow> None | Inr h \<Rightarrow> Some h)]" for a b w rc w'
    by (auto simp: log_platform_def log_watcher_def split: prod.splits if_splits)
qed (auto simp: log_platform_def startup_init_def must_def RegisterMetrics_def run_on_ok split: prod.splits sum.splits)

section \<open>Properties\<close>

text \<open>
  C22. Startup is a fixed plan that ends at its first failure. The plan of the flags and the
  environment is: a certificate watcher from the named files for each path given (webhook, then
  metrics), the configuration, the manager with the options made of these watchers, the
  controllers and (unless they are switched off) the webhooks, the watchers, the two checks, and
  last the manager's run. Either every step of the plan succeeded, in this order, and \<open>main\<close>
  returns; or the process ends with an error, the step that failed is the last one made, and all
  before it succeeded. In particular the manager runs only when every other step succeeded.
\<close>

theorem startup_follows_the_plan:
  fixes P :: "('h, 'w) platform"
  assumes "startup_log P log" and "run_state (main P grow Getenv f) w = (r, w')"
  shows "\<exists>wh mh. (wh = None \<longleftrightarrow> webhookCertPath f = '''') \<and> (mh = None \<longleftrightarrow> metricsCertPath f = '''') \<and>
    (case r of
       Inr _ \<Rightarrow> log w' = log w @ startup_plan grow Getenv f wh mh
     | Inl e \<Rightarrow> \<exists>k < length (startup_plan grow Getenv f wh mh).
         log w' = log w @ take k (startup_plan grow Getenv f wh mh) @ [failed (startup_plan grow Getenv f wh mh ! k)])"
proof -
  from startup_log.main_follows [OF assms] obtain wh mh seen where paths:
    "wh = None \<longleftrightarrow> webhookCertPath f = ''''" "mh = None \<longleftrightarrow> metricsCertPath f = ''''"
    and seen: "log w' = log w @ seen" "follows (startup_plan grow Getenv f wh mh) seen (\<not> isl r)" by blast
  show ?thesis
  proof (rule exI [of _ wh], rule exI [of _ mh], intro conjI paths)
    show "case r of
       Inr _ \<Rightarrow> log w' = log w @ startup_plan grow Getenv f wh mh
     | Inl e \<Rightarrow> \<exists>k < length (startup_plan grow Getenv f wh mh).
         log w' = log w @ take k (startup_plan grow Getenv f wh mh) @ [failed (startup_plan grow Getenv f wh mh ! k)]"
      using seen by (cases r) (auto simp: follows_def)
  qed
qed

definition all_paths :: flags where
  "all_paths = default_flags\<lparr>webhookCertPath := ''/certs/webhook'', metricsCertPath := ''/certs/metrics/''\<rparr>"

abbreviation "exact_growth \<equiv> (\<lambda>(c :: nat) (n :: nat). n)"

text \<open>The setup of the ticket webhook, the seventh step, fails: nothing comes after it.\<close>

theorem startup_follows_the_plan_witness:
  "\<exists>wh mh. fst (snd (run_state (main (log_platform (Some 6)) exact_growth (\<lambda>_. '''') all_paths) ([], []))) =
     take 6 (startup_plan exact_growth (\<lambda>_. '''') all_paths wh mh) @ [Step (SetupWebhook SetupTicketWebhookWithManager) False]"
proof -
  define run where "run = run_state (main (log_platform (Some 6)) exact_growth (\<lambda>_. '''') all_paths) ([], [])"
  have len: "length (fst (snd run)) = 7" and bad: "isl (fst run)" unfolding run_def by code_simp+
  from bad obtain e where e: "fst run = Inl e" by (cases "fst run") simp_all
  have given: "webhookCertPath all_paths \<noteq> ''''" "metricsCertPath all_paths \<noteq> ''''" by code_simp+
  have "run_state (main (log_platform (Some 6)) exact_growth (\<lambda>_. '''') all_paths) ([], []) = (fst run, snd run)"
    by (simp add: run_def)
  from startup_follows_the_plan [OF lp.startup_log_axioms this] obtain wh mh k where
    paths: "wh \<noteq> None" "mh \<noteq> None" and k: "k < length (startup_plan exact_growth (\<lambda>_. '''') all_paths wh mh)"
    "fst (snd run) = take k (startup_plan exact_growth (\<lambda>_. '''') all_paths wh mh) @
       [failed (startup_plan exact_growth (\<lambda>_. '''') all_paths wh mh ! k)]"
    unfolding e sum.case fst_conv append_Nil using given by blast
  from k len have "k = 6" by simp
  moreover from paths have "startup_plan exact_growth (\<lambda>_. '''') all_paths wh mh ! 6 =
      Step (SetupWebhook SetupTicketWebhookWithManager) True"
    by (auto simp: startup_plan_def watcher_entries_def preparation_def webhook_step_def webhooks_enabled_def)
  ultimately show ?thesis using k(2) unfolding run_def by auto
qed

text \<open>
  C32. Each server gets its own certificate, if \<open>append\<close> is exact. The metrics server's TLS options
  always select its own certificate when it has one. The webhook server's do too, except that
  when HTTP/2 is disabled, both certificates are given and the first \<open>append\<close> to the nil slice
  leaves spare capacity, the second append of the metrics certificate overwrites that of the
  webhook in the array they share. HTTP/2 is switched off for both servers exactly by its flag.
\<close>

theorem each_server_gets_its_certificate:
  assumes "1 \<le> grow 0 1"
  shows "let m = manager_options_of grow f wh mh; served = (\<lambda>opts. fold apply_tls opts c) in
     GetCertificate (served (TLSOpts (ManagerMetrics m))) = (if mh = None then GetCertificate c else mh) \<and>
     GetCertificate (served (WebhookServer m)) =
       (if wh = None then GetCertificate c
        else if \<not> enableHTTP2 f \<and> 1 < grow 0 1 \<and> mh \<noteq> None then mh else wh) \<and>
     NextProtos (served (TLSOpts (ManagerMetrics m))) = (if enableHTTP2 f then NextProtos c else [''http/1.1'']) \<and>
     NextProtos (served (WebhookServer m)) = (if enableHTTP2 f then NextProtos c else [''http/1.1''])"
proof -
  consider "enableHTTP2 f" | "\<not> enableHTTP2 f" "grow 0 1 = 1" | k where "\<not> enableHTTP2 f" "grow 0 1 = Suc (Suc k)"
    using assms by (metis One_nat_def le_Suc_ex add_Suc_shift plus_1_eq_Suc old.nat.exhaust)
  then show ?thesis
  proof cases
    case 1
    then show ?thesis unfolding Let_def options_http2 [where grow = grow, OF 1] by (cases wh; cases mh) simp_all
  next
    case 2
    then show ?thesis unfolding Let_def options_exact [where grow = grow, OF 2] by (cases wh; cases mh) simp_all
  next
    case (3 k)
    then show ?thesis unfolding Let_def options_spare [where grow = grow, OF 3] by (cases wh; cases mh) simp_all
  qed
qed

abbreviation served :: "(nat \<Rightarrow> nat \<Rightarrow> nat) \<Rightarrow> string tls_config" where
  "served grow \<equiv> fold apply_tls (WebhookServer (manager_options_of grow default_flags (Some ''w'') (Some ''m'')))
     \<lparr>NextProtos = [''h2''], GetCertificate = None\<rparr>"

theorem each_server_gets_its_certificate_witness:
  "GetCertificate (served exact_growth) = Some ''w'' \<and> GetCertificate (served (\<lambda>_ n. 2 * n)) = Some ''m''"
  using each_server_gets_its_certificate [of exact_growth default_flags "Some ''w''" "Some ''m''" "\<lparr>NextProtos = [''h2''], GetCertificate = None\<rparr>"]
    each_server_gets_its_certificate [of "\<lambda>_ n. 2 * n" default_flags "Some ''w''" "Some ''m''" "\<lparr>NextProtos = [''h2''], GetCertificate = None\<rparr>"]
  by (simp add: Let_def default_flags_def)

text \<open>
  Exit statuses. A run ends with 0 only when help was asked for or the whole plan of the parsed
  flags was performed, the manager included; a flag error ends it with 2 before anything is set
  up, and so does a panic of \<open>init\<close>.
\<close>

theorem exit_status_zero_means_the_manager_ran:
  fixes P :: "('h, 'w) platform"
  assumes "startup_log P log" and "run_state (process P grow Getenv others args) w = (code, w')"
  shows "(code = 0 \<longrightarrow> flag_parse others default_flags args = Inl HelpRequested \<or>
      (\<exists>f rest wh mh. flag_parse others default_flags args = Inr (f, rest) \<and>
         log w' = log w @ startup_plan grow Getenv f wh mh)) \<and>
    (code = 2 \<longrightarrow> log w' = log w) \<and> code \<in> {0, 1, 2}"
proof -
  obtain i u where i: "run_state (startup_init P) w = (i, u)" by fastforce
  have u: "log u = log w" by (rule startup_log.init_silent [OF assms(1) i])
  show ?thesis
  proof (cases i)
    case (Inl e)
    with assms(2) i u show ?thesis by (auto simp: process_def)
  next
    case (Inr x)
    note started = this
    show ?thesis
    proof (cases "flag_parse others default_flags args")
      case (Inl e)
      with assms(2) i u started show ?thesis by (cases e) (auto simp: process_def)
    next
      case (Inr p)
      obtain f rest where p: "p = (f, rest)" by (cases p)
      obtain r v where m: "run_state (main P grow Getenv f) u = (r, v)" by fastforce
      have out: "w' = v" "code = (case r of Inl _ \<Rightarrow> 1 | Inr _ \<Rightarrow> 0)"
        using assms(2) i m p Inr started by (auto simp: process_def)
      from startup_log.main_follows [OF assms(1) m] have "r = Inr () \<Longrightarrow>
          \<exists>wh mh. log v = log u @ startup_plan grow Getenv f wh mh" by (auto simp: follows_def)
      with out u p Inr show ?thesis by (cases r) auto
    qed
  qed
qed

end
