(* ===== verification/GoHeap.thy ===== *)
theory GoHeap
  imports Prelude
begin

text \<open>
  Go values with their pointers: a store of cells, values that may refer to cells, the types
  that say where references are, and the operations that copy a value. \<open>copies t f\<close> states that
  \<open>f\<close> is a deep copy at type \<open>t\<close>: it leaves the store alone but for new cells, and its result
  is the same value, cell by cell, all of whose references lead to new cells. There is one rule
  per copying operation, so that a function made of them is a deep copy because its parts are.
\<close>

section \<open>Values, cells and types\<close>

text \<open>
  A reference is a pointer, or a slice or map by its contents; \<open>None\<close> is nil. \<open>'a\<close> are the
  values without parts: strings, numbers, booleans.
\<close>

type_synonym addr = nat

datatype 'a gval = Atom 'a | Struct "(string \<times> 'a gval) list" | Ref "addr option"

datatype 'a cell = PtrCell "'a gval" | ArrayCell "'a gval list" | MapCell "(string \<times> 'a gval) list"

type_synonym 'a heap = "'a cell list"

datatype go_type = AtomType | StructType "(string \<times> go_type) list" | PtrType go_type | SliceType go_type | MapType go_type

definition cell_at :: "'a heap \<Rightarrow> addr \<Rightarrow> 'a cell option" where
  "cell_at h a = (if a < length h then Some (h ! a) else None)"

definition grows :: "'a heap \<Rightarrow> 'a heap \<Rightarrow> bool" where
  "grows h g \<longleftrightarrow> (\<exists>new_cells. g = h @ new_cells)"

text \<open>The same value of a type in two stores, cell by cell.\<close>

inductive same :: "'a heap \<Rightarrow> 'a heap \<Rightarrow> go_type \<Rightarrow> 'a gval \<Rightarrow> 'a gval \<Rightarrow> bool" for h g where
  atom: "same h g AtomType (Atom x) (Atom x)"
| struct: "map fst xs = map fst fs \<Longrightarrow> map fst ys = map fst fs \<Longrightarrow>
    (\<And>n t. (n, t) \<in> set fs \<Longrightarrow> \<exists>x y. map_of xs n = Some x \<and> map_of ys n = Some y \<and> same h g t x y) \<Longrightarrow>
    same h g (StructType fs) (Struct xs) (Struct ys)"
| nil_ptr: "same h g (PtrType t) (Ref None) (Ref None)"
| ptr: "cell_at h a = Some (PtrCell x) \<Longrightarrow> cell_at g b = Some (PtrCell y) \<Longrightarrow> same h g t x y \<Longrightarrow>
    same h g (PtrType t) (Ref (Some a)) (Ref (Some b))"
| nil_slice: "same h g (SliceType t) (Ref None) (Ref None)"
| slice: "cell_at h a = Some (ArrayCell xs) \<Longrightarrow> cell_at g b = Some (ArrayCell ys) \<Longrightarrow> list_all2 (same h g t) xs ys \<Longrightarrow>
    same h g (SliceType t) (Ref (Some a)) (Ref (Some b))"
| nil_map: "same h g (MapType t) (Ref None) (Ref None)"
| map_cell: "cell_at h a = Some (MapCell xs) \<Longrightarrow> cell_at g b = Some (MapCell ys) \<Longrightarrow> map fst xs = map fst ys \<Longrightarrow>
    list_all2 (same h g t) (map snd xs) (map snd ys) \<Longrightarrow> same h g (MapType t) (Ref (Some a)) (Ref (Some b))"
monos list.rel_mono_strong

text \<open>A value of a type is one that is the same as itself.\<close>

abbreviation fits :: "'a heap \<Rightarrow> go_type \<Rightarrow> 'a gval \<Rightarrow> bool" where
  "fits h t v \<equiv> same h h t v v"

text \<open>The cells a value refers to, directly or not.\<close>

inductive reach :: "'a heap \<Rightarrow> go_type \<Rightarrow> 'a gval \<Rightarrow> addr \<Rightarrow> bool" for h where
  field: "(n, t) \<in> set fs \<Longrightarrow> map_of xs n = Some x \<Longrightarrow> reach h t x a \<Longrightarrow> reach h (StructType fs) (Struct xs) a"
| ptr: "reach h (PtrType t) (Ref (Some a)) a"
| target: "cell_at h a = Some (PtrCell x) \<Longrightarrow> reach h t x b \<Longrightarrow> reach h (PtrType t) (Ref (Some a)) b"
| slice: "reach h (SliceType t) (Ref (Some a)) a"
| elem: "cell_at h a = Some (ArrayCell xs) \<Longrightarrow> x \<in> set xs \<Longrightarrow> reach h t x b \<Longrightarrow> reach h (SliceType t) (Ref (Some a)) b"
| map_ref: "reach h (MapType t) (Ref (Some a)) a"
| map_elem: "cell_at h a = Some (MapCell xs) \<Longrightarrow> x \<in> snd ` set xs \<Longrightarrow> reach h t x b \<Longrightarrow> reach h (MapType t) (Ref (Some a)) b"

inductive_cases same_atomE: "same h g AtomType v w"
inductive_cases same_structE: "same h g (StructType fs) v w"
inductive_cases same_ptrE: "same h g (PtrType t) v w"
inductive_cases same_sliceE: "same h g (SliceType t) v w"
inductive_cases same_mapE: "same h g (MapType t) v w"
inductive_cases reach_structE: "reach h (StructType fs) v a"
inductive_cases reach_ptrE: "reach h (PtrType t) v a"
inductive_cases reach_sliceE: "reach h (SliceType t) v a"
inductive_cases reach_mapE: "reach h (MapType t) v a"
inductive_simps reach_atom [simp]: "reach h AtomType v a"
inductive_simps reach_nil [simp]: "reach h (PtrType t) (Ref None) a" "reach h (SliceType t) (Ref None) a" "reach h (MapType t) (Ref None) a"

lemma fits_field:
  assumes "fits h (StructType fs) (Struct xs)" "(n, t) \<in> set fs"
  shows "\<exists>x. map_of xs n = Some x \<and> fits h t x"
  using assms by (metis same_structE gval.inject(2) option.inject)

text \<open>A type without references.\<close>

fun refless :: "go_type \<Rightarrow> bool" where
  "refless AtomType = True"
| "refless (StructType fs) \<longleftrightarrow> list_all refless (map snd fs)"
| "refless _ = False"

text \<open>The values of a reference type: nil, or a reference to a cell that fits.\<close>

lemma fits_ptrE:
  assumes "fits h (PtrType t) v"
  obtains (none) "v = Ref None" | (ref) a x where "v = Ref (Some a)" "cell_at h a = Some (PtrCell x)" "fits h t x"
  using assms by (auto elim: same_ptrE)

lemma fits_sliceE:
  assumes "fits h (SliceType t) v"
  obtains (none) "v = Ref None" | (ref) a xs where "v = Ref (Some a)" "cell_at h a = Some (ArrayCell xs)"
    "\<forall>x \<in> set xs. fits h t x"
  using assms by (auto elim!: same_sliceE simp: list_all2_same)

lemma fits_mapE:
  assumes "fits h (MapType t) v"
  obtains (none) "v = Ref None" | (ref) a xs where "v = Ref (Some a)" "cell_at h a = Some (MapCell xs)"
    "\<forall>x \<in> set (map snd xs). fits h t x"
  using assms by (auto elim!: same_mapE simp: list_all2_same)

section \<open>Larger stores\<close>

lemma grows_refl [simp]: "grows h h" and grows_trans: "grows h g \<Longrightarrow> grows g k \<Longrightarrow> grows h k"
  and grows_length: "grows h g \<Longrightarrow> length h \<le> length g"
  and grows_cell: "grows h g \<Longrightarrow> cell_at h a = Some c \<Longrightarrow> cell_at g a = Some c"
  by (auto simp: grows_def cell_at_def nth_append split: if_splits)

lemma same_grows: "same h g t v w \<Longrightarrow> grows h h' \<Longrightarrow> grows g g' \<Longrightarrow> same h' g' t v w"
proof (induction rule: same.induct)
  case (struct xs fs ys)
  then show ?case by (intro same.struct) blast+
next
  case (slice a xs b ys t)
  then show ?case by (intro same.slice) (auto dest: grows_cell elim: list_all2_mono)
next
  case (map_cell a xs b ys t)
  then have "list_all2 (same h' g' t) (map snd xs) (map snd ys)" by (auto elim: list_all2_mono)
  with map_cell same.map_cell [of h' a xs g' b ys t] grows_cell show ?case by blast
qed (auto intro: same.intros dest: grows_cell)

lemma same_right: "same h g t v w \<Longrightarrow> fits g t w"
proof (induction rule: same.induct)
  case (slice a xs b ys t)
  then show ?case by (intro same.slice) (auto simp: list_all2_conv_all_nth)
next
  case (map_cell a xs b ys t)
  then show ?case by (intro same.map_cell) (auto simp: list_all2_conv_all_nth)
next
  case (struct xs fs ys)
  then show ?case by (intro same.struct) fastforce+
qed (auto intro: same.intros)

lemma same_sym: "same h g t v w \<Longrightarrow> same g h t w v"
proof (induction rule: same.induct)
  case (slice a xs b ys t)
  then show ?case by (intro same.slice [of g b ys h a xs]) (auto simp: list_all2_conv_all_nth)
next
  case (map_cell a xs b ys t)
  then show ?case by (intro same.map_cell [of g b ys h a xs]) (auto simp: list_all2_conv_all_nth)
next
  case (struct xs fs ys)
  then show ?case by (intro same.struct) fastforce+
qed (auto intro: same.intros)

text \<open>What a value is in a store it fits does not depend on the cells added to that store.\<close>

lemma same_earlier: "same h' g t v w \<Longrightarrow> fits h t v \<Longrightarrow> grows h h' \<Longrightarrow> same h g t v w"
proof (induction rule: same.induct)
  case (struct xs fs ys)
  show ?case
  proof (rule same.struct)
    fix n t assume nt: "(n, t) \<in> set fs"
    from fits_field [OF struct.prems(1) nt] obtain x where "map_of xs n = Some x" "fits h t x" by blast
    with struct.IH [OF nt] struct.prems(2) show "\<exists>x y. map_of xs n = Some x \<and> map_of ys n = Some y \<and> same h g t x y" by auto
  qed (use struct in auto)
next
  case (ptr a x b y t)
  from ptr.prems(1) obtain z where "cell_at h a = Some (PtrCell z)" "fits h t z" by (auto elim!: same_ptrE)
  with ptr show ?case by (auto dest!: grows_cell intro!: same.ptr)
next
  case (slice a xs b ys t)
  from slice.prems(1) obtain zs where "cell_at h a = Some (ArrayCell zs)" "list_all2 (same h h t) zs zs" by (auto elim!: same_sliceE)
  with slice show ?case by (auto dest!: grows_cell intro!: same.slice simp: list_all2_conv_all_nth)
next
  case (map_cell a xs b ys t)
  from map_cell.prems(1) obtain zs where "cell_at h a = Some (MapCell zs)" "list_all2 (same h h t) (map snd zs) (map snd zs)"
    by (auto elim!: same_mapE)
  with map_cell show ?case by (auto dest!: grows_cell intro!: same.map_cell simp: list_all2_conv_all_nth)
qed (auto intro: same.intros)

lemma cell_at_bound: "cell_at h a = Some c \<Longrightarrow> a < length h"
  by (simp add: cell_at_def split: if_splits)

lemma reach_earlier: "reach h' t v a \<Longrightarrow> fits h t v \<Longrightarrow> grows h h' \<Longrightarrow> reach h t v a \<and> a < length h"
proof (induction rule: reach.induct)
  case (field n t fs xs x a)
  with fits_field [OF field.prems(1) field.hyps(1)] have "fits h t x" by auto
  with field show ?case by (blast intro: reach.field)
next
  case (target a x t b)
  from target.prems(1) obtain z where z: "cell_at h a = Some (PtrCell z)" "fits h t z" by (auto elim: fits_ptrE)
  with target.hyps(1) target.prems(2) have "z = x" by (auto dest: grows_cell)
  with z target.IH target.prems(2) show ?case by (blast intro: reach.target)
next
  case (elem a xs x t b)
  from elem.prems(1) obtain zs where z: "cell_at h a = Some (ArrayCell zs)" "\<forall>x \<in> set zs. fits h t x" by (auto elim: fits_sliceE)
  with elem.hyps(1) elem.prems(2) have "zs = xs" by (auto dest: grows_cell)
  with z elem.hyps elem.IH elem.prems(2) show ?case by (blast intro: reach.elem)
next
  case (map_elem a xs x t b)
  from map_elem.prems(1) obtain zs where z: "cell_at h a = Some (MapCell zs)" "\<forall>x \<in> snd ` set zs. fits h t x" by (auto elim: fits_mapE)
  with map_elem.hyps(1) map_elem.prems(2) have "zs = xs" by (auto dest: grows_cell)
  with z map_elem.hyps map_elem.IH map_elem.prems(2) show ?case by (blast intro: reach.map_elem)
next
  case (ptr t a)
  then show ?case by (auto elim: fits_ptrE dest: cell_at_bound intro: reach.ptr)
next
  case (slice t a)
  then show ?case by (auto elim: fits_sliceE dest: cell_at_bound intro: reach.slice)
next
  case (map_ref t a)
  then show ?case by (auto elim: fits_mapE dest: cell_at_bound intro: reach.map_ref)
qed

text \<open>A write to a cell that a value does not reach leaves the value as it is.\<close>

lemma same_update:
  "same h g t v w \<Longrightarrow> (\<And>a. reach h t v a \<Longrightarrow> a \<noteq> b) \<Longrightarrow> same (h[b := c]) g t v w"
proof (induction rule: same.induct)
  case (struct xs fs ys)
  show ?case
  proof (rule same.struct)
    fix n t assume nt: "(n, t) \<in> set fs"
    with struct.IH struct.prems show "\<exists>x y. map_of xs n = Some x \<and> map_of ys n = Some y \<and> same (h[b := c]) g t x y"
      by (meson reach.field)
  qed (use struct in auto)
next
  case (ptr a x b' y t)
  have "cell_at (h[b := c]) a = Some (PtrCell x)"
    using ptr.prems [OF reach.ptr] ptr.hyps(1) by (auto simp: cell_at_def split: if_splits)
  moreover have "same (h[b := c]) g t x y"
    using ptr.IH ptr.prems reach.target [OF ptr.hyps(1)] by blast
  ultimately show ?case using ptr.hyps(2) by (intro same.ptr)
next
  case (slice a xs b' ys t)
  from slice.prems [OF reach.slice] have "cell_at (h[b := c]) a = Some (ArrayCell xs)"
    using slice.hyps(1) by (auto simp: cell_at_def split: if_splits)
  moreover have "list_all2 (same (h[b := c]) g t) xs ys"
  proof (rule list_all2_all_nthI)
    show "length xs = length ys" using slice.IH by (rule list_all2_lengthD)
    fix i assume i: "i < length xs"
    from list_all2_nthD [OF slice.IH i] slice.prems reach.elem [OF slice.hyps(1) nth_mem [OF i]]
    show "same (h[b := c]) g t (xs ! i) (ys ! i)" by blast
  qed
  ultimately show ?case using slice.hyps(2) by (intro same.slice)
next
  case (map_cell a xs b' ys t)
  from map_cell.prems [OF reach.map_ref] have "cell_at (h[b := c]) a = Some (MapCell xs)"
    using map_cell.hyps(1) by (auto simp: cell_at_def split: if_splits)
  moreover have "list_all2 (same (h[b := c]) g t) (map snd xs) (map snd ys)"
  proof (rule list_all2_all_nthI)
    show "length (map snd xs) = length (map snd ys)" using map_cell.IH by (rule list_all2_lengthD)
    fix i assume i: "i < length (map snd xs)"
    have "map snd xs ! i \<in> snd ` set xs" using nth_mem [OF i] by simp
    from list_all2_nthD [OF map_cell.IH i] map_cell.prems reach.map_elem [OF map_cell.hyps(1) this]
    show "same (h[b := c]) g t (map snd xs ! i) (map snd ys ! i)" by blast
  qed
  ultimately show ?case using map_cell.hyps(2,3) by (intro same.map_cell)
qed (auto intro: same.intros)

lemma refless_reach: "reach h t v a \<Longrightarrow> \<not> refless t"
  by (induction rule: reach.induct) (force simp: list_all_iff)+

lemma refless_same: "same h g t v w \<Longrightarrow> refless t \<Longrightarrow> same h' g' t v v"
proof (induction rule: same.induct)
  case (struct xs fs ys)
  show ?case
  proof (rule same.struct)
    fix n t assume nt: "(n, t) \<in> set fs"
    with struct.prems have "refless t" by (force simp: list_all_iff)
    with struct.IH [OF nt] show "\<exists>x y. map_of xs n = Some x \<and> map_of xs n = Some y \<and> same h' g' t x y" by blast
  qed (use struct in auto)
qed (auto intro: same.atom)

section \<open>Copying\<close>

text \<open>
  A copier takes the value to copy and the store, and returns the copy and the store with the
  cells it made.
\<close>

type_synonym 'a copier = "'a gval \<Rightarrow> 'a heap \<Rightarrow> 'a gval \<times> 'a heap"

text \<open>\<open>*out = *in\<close>: the references of a value are shared.\<close>

definition assign :: "'a copier" where
  "assign v h = (v, h)"

text \<open>\<open>*out = new(T)\<close>, filled by \<open>f\<close>, when the pointer is not nil.\<close>

definition new_copy :: "'a copier \<Rightarrow> 'a copier" where
  "new_copy f v h = (case v of
     Ref (Some a) \<Rightarrow> (case cell_at h a of
       Some (PtrCell x) \<Rightarrow> (let (y, g) = f x h in (Ref (Some (length g)), g @ [PtrCell y]))
     | _ \<Rightarrow> (v, h))
   | _ \<Rightarrow> (v, h))"

text \<open>\<open>for i := range *in { ... (*in)[i] ... (*out)[i] }\<close>.\<close>

fun copy_elems :: "'a copier \<Rightarrow> 'a gval list \<Rightarrow> 'a heap \<Rightarrow> 'a gval list \<times> 'a heap" where
  "copy_elems f [] h = ([], h)"
| "copy_elems f (x # xs) h = (let (y, g) = f x h; (ys, k) = copy_elems f xs g in (y # ys, k))"

text \<open>\<open>*out = make([]T, len(*in))\<close>, filled by \<open>f\<close>, when the slice is not nil.\<close>

definition slice_copy :: "'a copier \<Rightarrow> 'a copier" where
  "slice_copy f v h = (case v of
     Ref (Some a) \<Rightarrow> (case cell_at h a of
       Some (ArrayCell xs) \<Rightarrow> (let (ys, g) = copy_elems f xs h in (Ref (Some (length g)), g @ [ArrayCell ys]))
     | _ \<Rightarrow> (v, h))
   | _ \<Rightarrow> (v, h))"

text \<open>\<open>*out = make(map[K]T, len(*in))\<close>, filled by \<open>f\<close> key by key, when the map is not nil.\<close>

definition map_copy :: "'a copier \<Rightarrow> 'a copier" where
  "map_copy f v h = (case v of
     Ref (Some a) \<Rightarrow> (case cell_at h a of
       Some (MapCell xs) \<Rightarrow> (let (ys, g) = copy_elems f (map snd xs) h
         in (Ref (Some (length g)), g @ [MapCell (zip (map fst xs) ys)]))
     | _ \<Rightarrow> (v, h))
   | _ \<Rightarrow> (v, h))"

text \<open>
  A struct: \<open>*out = *in\<close>, then for each of the fields listed, \<open>out.N\<close> becomes the copy of
  \<open>in.N\<close>.
\<close>

fun copy_fields :: "(string \<times> 'a copier) list \<Rightarrow> (string \<times> 'a gval) list \<Rightarrow> (string \<times> 'a gval) list \<Rightarrow>
    'a heap \<Rightarrow> (string \<times> 'a gval) list \<times> 'a heap" where
  "copy_fields [] xs ys h = (ys, h)"
| "copy_fields ((n, f) # fs) xs ys h = (case map_of xs n of
     None \<Rightarrow> copy_fields fs xs ys h
   | Some x \<Rightarrow> (let (y, g) = f x h in copy_fields fs xs (AList.update n y ys) g))"

definition struct_copy :: "(string \<times> 'a copier) list \<Rightarrow> 'a copier" where
  "struct_copy fs v h = (case v of
     Struct xs \<Rightarrow> (let (ys, g) = copy_fields fs xs xs h in (Struct ys, g))
   | _ \<Rightarrow> (v, h))"

section \<open>Deep copies\<close>

text \<open>
  A deep copy of one value: the store has only grown, the result is the same value, and every
  cell it leads to is new.
\<close>

definition copied :: "'a heap \<Rightarrow> go_type \<Rightarrow> 'a gval \<Rightarrow> 'a gval \<Rightarrow> 'a heap \<Rightarrow> bool" where
  "copied h t v w g \<longleftrightarrow> grows h g \<and> same h g t v w \<and> (\<forall>a. reach g t w a \<longrightarrow> length h \<le> a)"

definition copies :: "go_type \<Rightarrow> 'a copier \<Rightarrow> bool" where
  "copies t f \<longleftrightarrow> (\<forall>h v. fits h t v \<longrightarrow> copied h t v (fst (f v h)) (snd (f v h)))"

lemma copiesD: "copies t f \<Longrightarrow> fits h t v \<Longrightarrow> f v h = (w, g) \<Longrightarrow> copied h t v w g"
  unfolding copies_def by (metis fst_conv snd_conv)

lemma copiesI: "(\<And>h v w g. fits h t v \<Longrightarrow> f v h = (w, g) \<Longrightarrow> copied h t v w g) \<Longrightarrow> copies t f"
  unfolding copies_def by (metis prod.collapse)

text \<open>What was copied stays copied while the store grows, and a copy made later is one of the original.\<close>

lemma copied_grows: "copied h t v w g \<Longrightarrow> grows g k \<Longrightarrow> copied h t v w k"
  unfolding copied_def by (meson grows_trans same_grows same_right reach_earlier grows_refl)

lemma copied_later: "copied k t v w g \<Longrightarrow> fits h t v \<Longrightarrow> grows h k \<Longrightarrow> copied h t v w g"
  unfolding copied_def by (meson grows_trans same_earlier grows_length le_trans)

lemma copy_later:
  assumes "copies t f" "fits h t v" "grows h k" "f v k = (w, g)"
  shows "copied h t v w g" and "grows k g"
proof -
  have "copied k t v w g" using assms same_grows [OF assms(2) assms(3) assms(3)] by (blast intro: copiesD)
  with assms show "copied h t v w g" by (blast intro: copied_later)
  from \<open>copied k t v w g\<close> show "grows k g" by (simp add: copied_def)
qed

lemma copies_refless: "refless t \<Longrightarrow> copies t assign"
  unfolding copies_def copied_def assign_def by (auto dest: refless_reach)

lemma copiedD: "copied h t v w g \<Longrightarrow> same h g t v w" "copied h t v w g \<Longrightarrow> grows h g"
    "copied h t v w g \<Longrightarrow> reach g t w a \<Longrightarrow> length h \<le> a"
  by (simp_all add: copied_def)

lemma copied_nil: "copied h (PtrType t) (Ref None) (Ref None) h" "copied h (SliceType t) (Ref None) (Ref None) h"
  "copied h (MapType t) (Ref None) (Ref None) h"
  by (auto simp: copied_def intro: same.intros)

lemma cell_at_new [simp]: "cell_at (g @ [c]) (length g) = Some c"
  by (simp add: cell_at_def)

lemma grows_new: "grows h g \<Longrightarrow> grows h (g @ [c])"
  by (auto simp: grows_def)

lemma copies_new:
  assumes "copies t f"
  shows "copies (PtrType t) (new_copy f)"
proof (rule copiesI)
  fix h v w g assume v: "fits h (PtrType t) v" and run: "new_copy f v h = (w, g)"
  from v show "copied h (PtrType t) v w g"
  proof (cases rule: fits_ptrE)
    case none
    with run show ?thesis by (auto simp: new_copy_def copied_nil)
  next
    case (ref a x)
    obtain z k where z: "f x h = (z, k)" by fastforce
    with ref run have w: "w = Ref (Some (length k))" "g = k @ [PtrCell z]" by (simp_all add: new_copy_def)
    from assms ref(3) z have "copied h t x z k" by (blast intro: copiesD)
    then have "copied h t x z g" by (simp add: w copied_grows grows_new)
    with ref w \<open>copied h t x z k\<close> show ?thesis
      by (auto simp: copied_def intro!: same.ptr elim!: reach_ptrE dest: grows_length)
  qed
qed

lemma copy_elems_copied:
  assumes "copies t f"
  shows "\<forall>x \<in> set xs. fits h t x \<Longrightarrow> grows h k \<Longrightarrow> copy_elems f xs k = (ys, g) \<Longrightarrow>
    grows k g \<and> list_all2 (\<lambda>x y. copied h t x y g) xs ys"
proof (induction xs arbitrary: k ys)
  case (Cons x xs)
  obtain y k' where y: "f x k = (y, k')" by fastforce
  obtain zs g' where zs: "copy_elems f xs k' = (zs, g')" by fastforce
  from y zs Cons.prems have r: "ys = y # zs" "g' = g" by simp_all
  from Cons.prems have x: "fits h t x" by simp
  note now = copy_later [OF assms x Cons.prems(2) y]
  from Cons.prems now have "grows h k'" by (blast intro: grows_trans)
  with Cons.IH [of k' zs] Cons.prems zs r have rest: "grows k' g" "list_all2 (\<lambda>x y. copied h t x y g) xs zs" by simp_all
  with now r show ?case by (auto intro: grows_trans copied_grows)
qed simp

lemma copied_elems_reach:
  "list_all2 (\<lambda>x y. copied h t x y g) xs ys \<Longrightarrow> grows g k \<Longrightarrow> y \<in> set ys \<Longrightarrow> reach k t y a \<Longrightarrow> length h \<le> a"
  unfolding list_all2_conv_all_nth in_set_conv_nth using copied_grows unfolding copied_def by metis

lemma copied_elems_same:
  "list_all2 (\<lambda>x y. copied h t x y g) xs ys \<Longrightarrow> grows g k \<Longrightarrow> list_all2 (same h k t) xs ys"
  by (erule list_all2_mono) (blast dest: copied_grows copiedD)

lemma copies_slice:
  assumes "copies t f"
  shows "copies (SliceType t) (slice_copy f)"
proof (rule copiesI)
  fix h v w g assume v: "fits h (SliceType t) v" and run: "slice_copy f v h = (w, g)"
  from v show "copied h (SliceType t) v w g"
  proof (cases rule: fits_sliceE)
    case none
    with run show ?thesis by (auto simp: slice_copy_def copied_nil)
  next
    case (ref a xs)
    obtain zs k where z: "copy_elems f xs h = (zs, k)" by fastforce
    with ref run have w: "w = Ref (Some (length k))" "g = k @ [ArrayCell zs]" by (simp_all add: slice_copy_def)
    from copy_elems_copied [OF assms ref(3) _ z] have el: "grows h k" "list_all2 (\<lambda>x y. copied h t x y k) xs zs" by simp_all
    from w have kg: "grows k g" by (simp add: grows_new)
    from copied_elems_reach [OF el(2) kg] copied_elems_same [OF el(2) kg] el(1) kg ref w show ?thesis
      by (auto simp: copied_def intro!: same.slice elim!: reach_sliceE dest: grows_length intro: grows_trans)
  qed
qed

lemma copies_map:
  assumes "copies t f"
  shows "copies (MapType t) (map_copy f)"
proof (rule copiesI)
  fix h v w g assume v: "fits h (MapType t) v" and run: "map_copy f v h = (w, g)"
  from v show "copied h (MapType t) v w g"
  proof (cases rule: fits_mapE)
    case none
    with run show ?thesis by (auto simp: map_copy_def copied_nil)
  next
    case (ref a xs)
    obtain zs k where z: "copy_elems f (map snd xs) h = (zs, k)" by fastforce
    with ref run have w: "w = Ref (Some (length k))" "g = k @ [MapCell (zip (map fst xs) zs)]" by (simp_all add: map_copy_def)
    from copy_elems_copied [OF assms ref(3) _ z] have el: "grows h k" "list_all2 (\<lambda>x y. copied h t x y k) (map snd xs) zs" by simp_all
    then have len: "length xs = length zs" by (auto dest: list_all2_lengthD)
    from w have kg: "grows k g" by (simp add: grows_new)
    have reached: "length h \<le> b" if "reach g (MapType t) w b" for b
    proof -
      from that w have "b = length k \<or> (\<exists>y \<in> set zs. reach g t y b)"
        by (auto elim!: reach_mapE dest!: set_zip_rightD)
      with copied_elems_reach [OF el(2) kg] grows_length [OF el(1)] show ?thesis by blast
    qed
    from copied_elems_same [OF el(2) kg] ref w len have "same h g (MapType t) v w"
      by (auto intro!: same.map_cell)
    with reached el(1) kg show ?thesis by (auto simp: copied_def intro: grows_trans)
  qed
qed

lemma copy_fields_copied:
  assumes xs: "fits h (StructType ts) (Struct xs)"
  shows "grows h k \<Longrightarrow> distinct (map fst fs) \<Longrightarrow> map fst ys = map fst ts \<Longrightarrow>
    \<forall>(n, f) \<in> set fs. \<exists>t. (n, t) \<in> set ts \<and> copies t f \<Longrightarrow> copy_fields fs xs ys k = (zs, g) \<Longrightarrow>
    grows k g \<and> map fst zs = map fst ts \<and> (\<forall>n. n \<notin> fst ` set fs \<longrightarrow> map_of zs n = map_of ys n) \<and>
    (\<forall>(n, f) \<in> set fs. \<exists>t x z. (n, t) \<in> set ts \<and> map_of xs n = Some x \<and> map_of zs n = Some z \<and> copied h t x z g)"
proof (induction fs arbitrary: k ys)
  case (Cons nf fs)
  obtain n f where nf: "nf = (n, f)" by fastforce
  with Cons.prems(4) obtain t where t: "(n, t) \<in> set ts" "copies t f" by auto
  from fits_field [OF xs t(1)] obtain x where x: "map_of xs n = Some x" "fits h t x" by blast
  obtain y k' where y: "f x k = (y, k')" by fastforce
  note now = copy_later [OF t(2) x(2) Cons.prems(1) y]
  from Cons.prems(5) nf x y have rest: "copy_fields fs xs (AList.update n y ys) k' = (zs, g)" by simp
  have keys: "map fst (AList.update n y ys) = map fst ts"
    using Cons.prems(3) t(1) by (force simp: update_keys)
  from Cons.prems(1) now(2) have "grows h k'" by (rule grows_trans)
  from Cons.IH [OF this _ keys _ rest] Cons.prems nf
  have ih: "grows k' g" "map fst zs = map fst ts"
      "\<forall>m. m \<notin> fst ` set fs \<longrightarrow> map_of zs m = map_of (AList.update n y ys) m"
      "\<forall>(n, f) \<in> set fs. \<exists>t x z. (n, t) \<in> set ts \<and> map_of xs n = Some x \<and> map_of zs n = Some z \<and> copied h t x z g"
    by auto
  from Cons.prems(2) nf have "n \<notin> fst ` set fs" by simp
  with ih(3) have z: "map_of zs n = Some y" by (simp add: update_conv')
  from copied_grows [OF now(1) ih(1)] have "copied h t x y g" .
  with z t(1) x(1) have first: "\<exists>t x z. (n, t) \<in> set ts \<and> map_of xs n = Some x \<and> map_of zs n = Some z \<and> copied h t x z g"
    by blast
  from now(2) ih(1) have "grows k g" by (rule grows_trans)
  with first ih(2-) nf show ?case by (simp add: update_conv')
qed simp

text \<open>
  The rule for a struct: every field copied is a field of the type and its copier a deep copy;
  a field left to \<open>*out = *in\<close> has a type without references.
\<close>

lemma copies_struct:
  assumes "distinct (map fst fs)" "distinct (map fst ts)"
    and fields: "\<forall>(n, f) \<in> set fs. \<exists>t. map_of ts n = Some t \<and> copies t f"
    and others: "\<forall>(n, t) \<in> set ts. n \<notin> fst ` set fs \<longrightarrow> refless t"
  shows "copies (StructType ts) (struct_copy fs)"
proof (rule copiesI)
  fix h v w g assume v: "fits h (StructType ts) v" and run: "struct_copy fs v h = (w, g)"
  from v obtain xs where xs: "v = Struct xs" "map fst xs = map fst ts" by (auto elim: same_structE)
  obtain zs k where zs: "copy_fields fs xs xs h = (zs, k)" by fastforce
  with run xs have w: "w = Struct zs" "g = k" by (simp_all add: struct_copy_def)
  from fields have fields': "\<forall>(n, f) \<in> set fs. \<exists>t. (n, t) \<in> set ts \<and> copies t f" by (fastforce dest: map_of_SomeD)
  note final = copy_fields_copied [OF v [unfolded xs] grows_refl assms(1) xs(2) fields' zs]
  have each: "\<exists>x z. map_of xs n = Some x \<and> map_of zs n = Some z \<and> copied h t x z k" if nt: "(n, t) \<in> set ts" for n t
  proof (cases "n \<in> fst ` set fs")
    case True
    with final obtain t' x z where "(n, t') \<in> set ts" "map_of xs n = Some x" "map_of zs n = Some z" "copied h t' x z k"
      by fastforce
    moreover from this(1) nt assms(2) have "t' = t" by (metis map_of_is_SomeI option.inject)
    ultimately show ?thesis by blast
  next
    case False
    from fits_field [OF v [unfolded xs] nt] obtain x where x: "map_of xs n = Some x" "fits h t x" by blast
    from False nt others have "refless t" by blast
    with copiesD [OF copies_refless x(2)] have "copied h t x x h" by (simp add: assign_def)
    with final have "copied h t x x k" by (blast intro: copied_grows)
    with False final x show ?thesis by simp
  qed
  have "same h k (StructType ts) (Struct xs) (Struct zs)"
  proof (rule same.struct)
    fix n t assume "(n, t) \<in> set ts"
    from each [OF this] show "\<exists>x y. map_of xs n = Some x \<and> map_of zs n = Some y \<and> same h k t x y"
      by (blast dest: copiedD(1))
  qed (use xs(2) final in auto)
  moreover have "length h \<le> a" if "reach k (StructType ts) (Struct zs) a" for a
    using that each by (auto elim!: reach_structE) (metis copiedD(3) option.inject)
  ultimately show "copied h (StructType ts) v w g" using final by (simp add: copied_def xs(1) w)
qed

section \<open>What a deep copy is good for\<close>

text \<open>
  Whatever is written over a cell of the copy, the original stays what it was, and whatever is
  written over a cell of the original's store, the copy stays what the original was.
\<close>

lemma copied_original_unaffected:
  assumes "copied h t v w g" "fits h t v" "length h \<le> b"
  shows "same h (g[b := c]) t v v"
proof -
  from assms have "grows h (g[b := c])" by (auto simp: copied_def grows_def list_update_append)
  with assms(2) show ?thesis by (auto intro: same_grows)
qed

lemma copied_copy_unaffected:
  assumes "copied h t v w g" "b < length h"
  shows "same h (g[b := c]) t v w"
proof -
  from assms(1) have "same g h t w v" by (auto simp: copied_def intro: same_sym)
  moreover have "a \<noteq> b" if "reach g t w a" for a using that assms by (auto simp: copied_def)
  ultimately have "same (g[b := c]) h t w v" by (rule same_update)
  then show ?thesis by (rule same_sym)
qed

end
