(* ===== verification/DeepCopy.thy ===== *)
theory DeepCopy
  imports GoHeap
begin

text \<open>
  The copies of the API types (\<open>api/v1alpha1/zz_generated.deepcopy.go\<close>) over the store of
  \<open>GoHeap\<close>. The other theories pass the API objects as values, so that the object a handler
  changes and the one the cache holds cannot be confused; this theory shows of the code's own
  copies that they entitle it to that. The types and the copying functions of the Kubernetes
  libraries are parameters: a type \<open>E n\<close> and a function \<open>K n\<close> per name of \<open>imported\<close>.
\<close>

named_theorems deep_copy_simps \<open>which copiers are deep copies\<close>

datatype imported = metav1_TypeMeta | metav1_ObjectMeta | metav1_ListMeta | metav1_LabelSelector | metav1_Time
  | resource_Quantity | v1_ResourceRequirements | v1_Affinity | v1_Toleration | v1_TopologySpreadConstraint

type_synonym 'a library = "imported \<Rightarrow> 'a copier"

section \<open>The types\<close>

text \<open>
  Per struct of \<open>order_types.go\<close>, \<open>ticket_types.go\<close> and \<open>quota_types.go\<close>, its fields and
  where they hold references. Strings, numbers and booleans, and the types declared as them,
  are atoms.
\<close>

definition TicketLifecycle_type :: "(imported \<Rightarrow> go_type) \<Rightarrow> go_type" where
  "TicketLifecycle_type E = StructType [
    (''TTLSecondsAfterFinished'', PtrType AtomType),
    (''CleanupPolicy'', AtomType)]"

definition WindowSpec_type :: "(imported \<Rightarrow> go_type) \<Rightarrow> go_type" where
  "WindowSpec_type E = StructType [
    (''StartTime'', PtrType AtomType),
    (''TimeZone'', PtrType AtomType),
    (''Duration'', AtomType)]"

definition TicketTemplateSpec_type :: "(imported \<Rightarrow> go_type) \<Rightarrow> go_type" where
  "TicketTemplateSpec_type E = StructType [
    (''Lifecycle'', PtrType (TicketLifecycle_type E)),
    (''Window'', PtrType (WindowSpec_type E)),
    (''SchedulerName'', PtrType AtomType),
    (''PriorityClassName'', PtrType AtomType),
    (''Resources'', PtrType (E v1_ResourceRequirements)),
    (''NodeName'', PtrType AtomType),
    (''NodeSelector'', MapType AtomType),
    (''Affinity'', PtrType (E v1_Affinity)),
    (''Tolerations'', SliceType (E v1_Toleration)),
    (''TopologySpreadConstraints'', SliceType (E v1_TopologySpreadConstraint))]"

definition TicketTemplate_type :: "(imported \<Rightarrow> go_type) \<Rightarrow> go_type" where
  "TicketTemplate_type E = StructType [
    (''ObjectMeta'', E metav1_ObjectMeta),
    (''Spec'', TicketTemplateSpec_type E)]"

definition OrderSpec_type :: "(imported \<Rightarrow> go_type) \<Rightarrow> go_type" where
  "OrderSpec_type E = StructType [
    (''Paused'', PtrType AtomType),
    (''Replicas'', PtrType AtomType),
    (''RefreshPolicy'', AtomType),
    (''MinReadySeconds'', PtrType AtomType),
    (''Selector'', PtrType (E metav1_LabelSelector)),
    (''Template'', TicketTemplate_type E)]"

definition OrderCondition_type :: "(imported \<Rightarrow> go_type) \<Rightarrow> go_type" where
  "OrderCondition_type E = StructType [
    (''Type'', AtomType),
    (''Status'', AtomType),
    (''LastTransitionTime'', PtrType (E metav1_Time)),
    (''Reason'', PtrType AtomType),
    (''Message'', PtrType AtomType)]"

definition OrderStatus_type :: "(imported \<Rightarrow> go_type) \<Rightarrow> go_type" where
  "OrderStatus_type E = StructType [
    (''Replicas'', PtrType AtomType),
    (''AvailableReplicas'', PtrType AtomType),
    (''UnavailableReplicas'', PtrType AtomType),
    (''TerminalReplicas'', PtrType AtomType),
    (''UpdatedReplicas'', PtrType AtomType),
    (''ObservedGeneration'', PtrType AtomType),
    (''CollisionCount'', PtrType AtomType),
    (''Conditions'', SliceType (OrderCondition_type E))]"

definition Order_type :: "(imported \<Rightarrow> go_type) \<Rightarrow> go_type" where
  "Order_type E = StructType [
    (''TypeMeta'', E metav1_TypeMeta),
    (''ObjectMeta'', E metav1_ObjectMeta),
    (''Spec'', OrderSpec_type E),
    (''Status'', OrderStatus_type E)]"

definition OrderList_type :: "(imported \<Rightarrow> go_type) \<Rightarrow> go_type" where
  "OrderList_type E = StructType [
    (''TypeMeta'', E metav1_TypeMeta),
    (''ListMeta'', E metav1_ListMeta),
    (''Items'', SliceType (Order_type E))]"

definition TicketSpec_type :: "(imported \<Rightarrow> go_type) \<Rightarrow> go_type" where
  "TicketSpec_type E = StructType [
    (''Lifecycle'', PtrType (TicketLifecycle_type E)),
    (''Window'', PtrType (WindowSpec_type E)),
    (''SchedulerName'', PtrType AtomType),
    (''PriorityClassName'', PtrType AtomType),
    (''Resources'', PtrType (E v1_ResourceRequirements)),
    (''NodeName'', PtrType AtomType),
    (''NodeSelector'', MapType AtomType),
    (''Affinity'', PtrType (E v1_Affinity)),
    (''Tolerations'', SliceType (E v1_Toleration)),
    (''TopologySpreadConstraints'', SliceType (E v1_TopologySpreadConstraint))]"

definition TicketCondition_type :: "(imported \<Rightarrow> go_type) \<Rightarrow> go_type" where
  "TicketCondition_type E = StructType [
    (''Type'', AtomType),
    (''Status'', AtomType),
    (''LastTransitionTime'', PtrType (E metav1_Time)),
    (''Reason'', PtrType AtomType),
    (''Message'', PtrType AtomType)]"

definition TicketStatus_type :: "(imported \<Rightarrow> go_type) \<Rightarrow> go_type" where
  "TicketStatus_type E = StructType [
    (''Phase'', AtomType),
    (''ActivationTime'', PtrType (E metav1_Time)),
    (''ExpirationTime'', PtrType (E metav1_Time)),
    (''ClaimedTime'', PtrType (E metav1_Time)),
    (''UtilizationRate'', PtrType AtomType),
    (''NodeName'', PtrType AtomType),
    (''GuardianPod'', PtrType AtomType),
    (''ClaimedPod'', PtrType AtomType),
    (''Message'', PtrType AtomType),
    (''Reason'', PtrType AtomType),
    (''ObservedGeneration'', PtrType AtomType),
    (''Conditions'', SliceType (TicketCondition_type E))]"

definition Ticket_type :: "(imported \<Rightarrow> go_type) \<Rightarrow> go_type" where
  "Ticket_type E = StructType [
    (''TypeMeta'', E metav1_TypeMeta),
    (''ObjectMeta'', E metav1_ObjectMeta),
    (''Spec'', TicketSpec_type E),
    (''Status'', TicketStatus_type E)]"

definition TicketList_type :: "(imported \<Rightarrow> go_type) \<Rightarrow> go_type" where
  "TicketList_type E = StructType [
    (''TypeMeta'', E metav1_TypeMeta),
    (''ListMeta'', E metav1_ListMeta),
    (''Items'', SliceType (Ticket_type E))]"

definition QuotaScope_type :: "(imported \<Rightarrow> go_type) \<Rightarrow> go_type" where
  "QuotaScope_type E = StructType [
    (''Type'', AtomType),
    (''NamespaceSelector'', PtrType (E metav1_LabelSelector)),
    (''Namespaces'', SliceType AtomType),
    (''ObjectSelector'', PtrType (E metav1_LabelSelector))]"

definition TimeWindow_type :: "(imported \<Rightarrow> go_type) \<Rightarrow> go_type" where
  "TimeWindow_type E = StructType [
    (''Name'', AtomType),
    (''Schedule'', AtomType),
    (''Multiplier'', AtomType)]"

definition QuotaAllocation_type :: "(imported \<Rightarrow> go_type) \<Rightarrow> go_type" where
  "QuotaAllocation_type E = StructType [
    (''Namespace'', AtomType),
    (''Limits'', MapType (E resource_Quantity))]"

definition QuotaSpec_type :: "(imported \<Rightarrow> go_type) \<Rightarrow> go_type" where
  "QuotaSpec_type E = StructType [
    (''Scope'', QuotaScope_type E),
    (''Hard'', MapType (E resource_Quantity)),
    (''TimeWindows'', SliceType (TimeWindow_type E)),
    (''Allocation'', SliceType (QuotaAllocation_type E))]"

definition QuotaCondition_type :: "(imported \<Rightarrow> go_type) \<Rightarrow> go_type" where
  "QuotaCondition_type E = StructType [
    (''Type'', AtomType),
    (''Status'', AtomType),
    (''LastTransitionTime'', PtrType (E metav1_Time)),
    (''Reason'', PtrType AtomType),
    (''Message'', PtrType AtomType)]"

definition QuotaStatus_type :: "(imported \<Rightarrow> go_type) \<Rightarrow> go_type" where
  "QuotaStatus_type E = StructType [
    (''Hard'', MapType (E resource_Quantity)),
    (''Used'', MapType (E resource_Quantity)),
    (''ActiveTimeWindow'', PtrType AtomType),
    (''ObservedGeneration'', PtrType AtomType),
    (''Conditions'', SliceType (QuotaCondition_type E))]"

definition Quota_type :: "(imported \<Rightarrow> go_type) \<Rightarrow> go_type" where
  "Quota_type E = StructType [
    (''TypeMeta'', E metav1_TypeMeta),
    (''ObjectMeta'', E metav1_ObjectMeta),
    (''Spec'', QuotaSpec_type E),
    (''Status'', QuotaStatus_type E)]"

definition QuotaList_type :: "(imported \<Rightarrow> go_type) \<Rightarrow> go_type" where
  "QuotaList_type E = StructType [
    (''TypeMeta'', E metav1_TypeMeta),
    (''ListMeta'', E metav1_ListMeta),
    (''Items'', SliceType (Quota_type E))]"

section \<open>DeepCopyInto\<close>

text \<open>
  Per struct, the fields its \<open>DeepCopyInto\<close> writes after \<open>*out = *in\<close>, in the order of the
  code, and how it writes them.
\<close>

definition TicketLifecycle_DeepCopyInto :: "'a library \<Rightarrow> 'a copier" where
  "TicketLifecycle_DeepCopyInto K = struct_copy [
    (''TTLSecondsAfterFinished'', new_copy assign)]"

definition WindowSpec_DeepCopyInto :: "'a library \<Rightarrow> 'a copier" where
  "WindowSpec_DeepCopyInto K = struct_copy [
    (''StartTime'', new_copy assign),
    (''TimeZone'', new_copy assign)]"

definition TicketTemplateSpec_DeepCopyInto :: "'a library \<Rightarrow> 'a copier" where
  "TicketTemplateSpec_DeepCopyInto K = struct_copy [
    (''Lifecycle'', new_copy (TicketLifecycle_DeepCopyInto K)),
    (''Window'', new_copy (WindowSpec_DeepCopyInto K)),
    (''SchedulerName'', new_copy assign),
    (''PriorityClassName'', new_copy assign),
    (''Resources'', new_copy (K v1_ResourceRequirements)),
    (''NodeName'', new_copy assign),
    (''NodeSelector'', map_copy assign),
    (''Affinity'', new_copy (K v1_Affinity)),
    (''Tolerations'', slice_copy (K v1_Toleration)),
    (''TopologySpreadConstraints'', slice_copy (K v1_TopologySpreadConstraint))]"

definition TicketTemplate_DeepCopyInto :: "'a library \<Rightarrow> 'a copier" where
  "TicketTemplate_DeepCopyInto K = struct_copy [
    (''ObjectMeta'', K metav1_ObjectMeta),
    (''Spec'', TicketTemplateSpec_DeepCopyInto K)]"

definition OrderSpec_DeepCopyInto :: "'a library \<Rightarrow> 'a copier" where
  "OrderSpec_DeepCopyInto K = struct_copy [
    (''Paused'', new_copy assign),
    (''Replicas'', new_copy assign),
    (''MinReadySeconds'', new_copy assign),
    (''Selector'', new_copy (K metav1_LabelSelector)),
    (''Template'', TicketTemplate_DeepCopyInto K)]"

definition OrderCondition_DeepCopyInto :: "'a library \<Rightarrow> 'a copier" where
  "OrderCondition_DeepCopyInto K = struct_copy [
    (''LastTransitionTime'', K metav1_Time),
    (''Reason'', new_copy assign),
    (''Message'', new_copy assign)]"

definition OrderStatus_DeepCopyInto :: "'a library \<Rightarrow> 'a copier" where
  "OrderStatus_DeepCopyInto K = struct_copy [
    (''Replicas'', new_copy assign),
    (''AvailableReplicas'', new_copy assign),
    (''UnavailableReplicas'', new_copy assign),
    (''TerminalReplicas'', new_copy assign),
    (''UpdatedReplicas'', new_copy assign),
    (''ObservedGeneration'', new_copy assign),
    (''CollisionCount'', new_copy assign),
    (''Conditions'', slice_copy (OrderCondition_DeepCopyInto K))]"

definition Order_DeepCopyInto :: "'a library \<Rightarrow> 'a copier" where
  "Order_DeepCopyInto K = struct_copy [
    (''TypeMeta'', assign),
    (''ObjectMeta'', K metav1_ObjectMeta),
    (''Spec'', OrderSpec_DeepCopyInto K),
    (''Status'', OrderStatus_DeepCopyInto K)]"

definition OrderList_DeepCopyInto :: "'a library \<Rightarrow> 'a copier" where
  "OrderList_DeepCopyInto K = struct_copy [
    (''TypeMeta'', assign),
    (''ListMeta'', K metav1_ListMeta),
    (''Items'', slice_copy (Order_DeepCopyInto K))]"

definition TicketSpec_DeepCopyInto :: "'a library \<Rightarrow> 'a copier" where
  "TicketSpec_DeepCopyInto K = struct_copy [
    (''Lifecycle'', new_copy (TicketLifecycle_DeepCopyInto K)),
    (''Window'', new_copy (WindowSpec_DeepCopyInto K)),
    (''SchedulerName'', new_copy assign),
    (''PriorityClassName'', new_copy assign),
    (''Resources'', new_copy (K v1_ResourceRequirements)),
    (''NodeName'', new_copy assign),
    (''NodeSelector'', map_copy assign),
    (''Affinity'', new_copy (K v1_Affinity)),
    (''Tolerations'', slice_copy (K v1_Toleration)),
    (''TopologySpreadConstraints'', slice_copy (K v1_TopologySpreadConstraint))]"

definition TicketCondition_DeepCopyInto :: "'a library \<Rightarrow> 'a copier" where
  "TicketCondition_DeepCopyInto K = struct_copy [
    (''LastTransitionTime'', K metav1_Time),
    (''Reason'', new_copy assign),
    (''Message'', new_copy assign)]"

definition TicketStatus_DeepCopyInto :: "'a library \<Rightarrow> 'a copier" where
  "TicketStatus_DeepCopyInto K = struct_copy [
    (''ActivationTime'', K metav1_Time),
    (''ExpirationTime'', K metav1_Time),
    (''ClaimedTime'', K metav1_Time),
    (''UtilizationRate'', new_copy assign),
    (''NodeName'', new_copy assign),
    (''GuardianPod'', new_copy assign),
    (''ClaimedPod'', new_copy assign),
    (''Message'', new_copy assign),
    (''Reason'', new_copy assign),
    (''ObservedGeneration'', new_copy assign),
    (''Conditions'', slice_copy (TicketCondition_DeepCopyInto K))]"

definition Ticket_DeepCopyInto :: "'a library \<Rightarrow> 'a copier" where
  "Ticket_DeepCopyInto K = struct_copy [
    (''TypeMeta'', assign),
    (''ObjectMeta'', K metav1_ObjectMeta),
    (''Spec'', TicketSpec_DeepCopyInto K),
    (''Status'', TicketStatus_DeepCopyInto K)]"

definition TicketList_DeepCopyInto :: "'a library \<Rightarrow> 'a copier" where
  "TicketList_DeepCopyInto K = struct_copy [
    (''TypeMeta'', assign),
    (''ListMeta'', K metav1_ListMeta),
    (''Items'', slice_copy (Ticket_DeepCopyInto K))]"

definition QuotaScope_DeepCopyInto :: "'a library \<Rightarrow> 'a copier" where
  "QuotaScope_DeepCopyInto K = struct_copy [
    (''NamespaceSelector'', new_copy (K metav1_LabelSelector)),
    (''Namespaces'', slice_copy assign),
    (''ObjectSelector'', new_copy (K metav1_LabelSelector))]"

definition TimeWindow_DeepCopyInto :: "'a library \<Rightarrow> 'a copier" where
  "TimeWindow_DeepCopyInto K = struct_copy []"

definition QuotaAllocation_DeepCopyInto :: "'a library \<Rightarrow> 'a copier" where
  "QuotaAllocation_DeepCopyInto K = struct_copy [
    (''Limits'', map_copy (K resource_Quantity))]"

definition QuotaSpec_DeepCopyInto :: "'a library \<Rightarrow> 'a copier" where
  "QuotaSpec_DeepCopyInto K = struct_copy [
    (''Scope'', QuotaScope_DeepCopyInto K),
    (''Hard'', map_copy (K resource_Quantity)),
    (''TimeWindows'', slice_copy assign),
    (''Allocation'', slice_copy (QuotaAllocation_DeepCopyInto K))]"

definition QuotaCondition_DeepCopyInto :: "'a library \<Rightarrow> 'a copier" where
  "QuotaCondition_DeepCopyInto K = struct_copy [
    (''LastTransitionTime'', K metav1_Time),
    (''Reason'', new_copy assign),
    (''Message'', new_copy assign)]"

definition QuotaStatus_DeepCopyInto :: "'a library \<Rightarrow> 'a copier" where
  "QuotaStatus_DeepCopyInto K = struct_copy [
    (''Hard'', map_copy (K resource_Quantity)),
    (''Used'', map_copy (K resource_Quantity)),
    (''ActiveTimeWindow'', new_copy assign),
    (''ObservedGeneration'', new_copy assign),
    (''Conditions'', slice_copy (QuotaCondition_DeepCopyInto K))]"

definition Quota_DeepCopyInto :: "'a library \<Rightarrow> 'a copier" where
  "Quota_DeepCopyInto K = struct_copy [
    (''TypeMeta'', assign),
    (''ObjectMeta'', K metav1_ObjectMeta),
    (''Spec'', QuotaSpec_DeepCopyInto K),
    (''Status'', QuotaStatus_DeepCopyInto K)]"

definition QuotaList_DeepCopyInto :: "'a library \<Rightarrow> 'a copier" where
  "QuotaList_DeepCopyInto K = struct_copy [
    (''TypeMeta'', assign),
    (''ListMeta'', K metav1_ListMeta),
    (''Items'', slice_copy (Quota_DeepCopyInto K))]"

section \<open>DeepCopy and DeepCopyObject\<close>

text \<open>
  \<open>DeepCopy\<close> returns nil for nil and otherwise a new struct that \<open>DeepCopyInto\<close> fills, which is
  \<open>new_copy\<close>. \<open>DeepCopyObject\<close> puts the pointer into a \<open>runtime.Object\<close>: an interface value is
  nil or a dynamic type with a value, and the code takes care not to return a nil pointer in a
  non-nil interface.
\<close>

definition as_object :: "string \<Rightarrow> 'a copier \<Rightarrow> 'a gval \<Rightarrow> 'a heap \<Rightarrow> (string \<times> 'a gval) option \<times> 'a heap" where
  "as_object n f p h = (let (c, g) = f p h in (case c of Ref None \<Rightarrow> (None, g) | _ \<Rightarrow> (Some (n, c), g)))"

definition TicketLifecycle_DeepCopy :: "'a library \<Rightarrow> 'a copier" where
  "TicketLifecycle_DeepCopy K = new_copy (TicketLifecycle_DeepCopyInto K)"

definition WindowSpec_DeepCopy :: "'a library \<Rightarrow> 'a copier" where
  "WindowSpec_DeepCopy K = new_copy (WindowSpec_DeepCopyInto K)"

definition TicketTemplateSpec_DeepCopy :: "'a library \<Rightarrow> 'a copier" where
  "TicketTemplateSpec_DeepCopy K = new_copy (TicketTemplateSpec_DeepCopyInto K)"

definition TicketTemplate_DeepCopy :: "'a library \<Rightarrow> 'a copier" where
  "TicketTemplate_DeepCopy K = new_copy (TicketTemplate_DeepCopyInto K)"

definition OrderSpec_DeepCopy :: "'a library \<Rightarrow> 'a copier" where
  "OrderSpec_DeepCopy K = new_copy (OrderSpec_DeepCopyInto K)"

definition OrderCondition_DeepCopy :: "'a library \<Rightarrow> 'a copier" where
  "OrderCondition_DeepCopy K = new_copy (OrderCondition_DeepCopyInto K)"

definition OrderStatus_DeepCopy :: "'a library \<Rightarrow> 'a copier" where
  "OrderStatus_DeepCopy K = new_copy (OrderStatus_DeepCopyInto K)"

definition Order_DeepCopy :: "'a library \<Rightarrow> 'a copier" where
  "Order_DeepCopy K = new_copy (Order_DeepCopyInto K)"

definition OrderList_DeepCopy :: "'a library \<Rightarrow> 'a copier" where
  "OrderList_DeepCopy K = new_copy (OrderList_DeepCopyInto K)"

definition TicketSpec_DeepCopy :: "'a library \<Rightarrow> 'a copier" where
  "TicketSpec_DeepCopy K = new_copy (TicketSpec_DeepCopyInto K)"

definition TicketCondition_DeepCopy :: "'a library \<Rightarrow> 'a copier" where
  "TicketCondition_DeepCopy K = new_copy (TicketCondition_DeepCopyInto K)"

definition TicketStatus_DeepCopy :: "'a library \<Rightarrow> 'a copier" where
  "TicketStatus_DeepCopy K = new_copy (TicketStatus_DeepCopyInto K)"

definition Ticket_DeepCopy :: "'a library \<Rightarrow> 'a copier" where
  "Ticket_DeepCopy K = new_copy (Ticket_DeepCopyInto K)"

definition TicketList_DeepCopy :: "'a library \<Rightarrow> 'a copier" where
  "TicketList_DeepCopy K = new_copy (TicketList_DeepCopyInto K)"

definition QuotaScope_DeepCopy :: "'a library \<Rightarrow> 'a copier" where
  "QuotaScope_DeepCopy K = new_copy (QuotaScope_DeepCopyInto K)"

definition TimeWindow_DeepCopy :: "'a library \<Rightarrow> 'a copier" where
  "TimeWindow_DeepCopy K = new_copy (TimeWindow_DeepCopyInto K)"

definition QuotaAllocation_DeepCopy :: "'a library \<Rightarrow> 'a copier" where
  "QuotaAllocation_DeepCopy K = new_copy (QuotaAllocation_DeepCopyInto K)"

definition QuotaSpec_DeepCopy :: "'a library \<Rightarrow> 'a copier" where
  "QuotaSpec_DeepCopy K = new_copy (QuotaSpec_DeepCopyInto K)"

definition QuotaCondition_DeepCopy :: "'a library \<Rightarrow> 'a copier" where
  "QuotaCondition_DeepCopy K = new_copy (QuotaCondition_DeepCopyInto K)"

definition QuotaStatus_DeepCopy :: "'a library \<Rightarrow> 'a copier" where
  "QuotaStatus_DeepCopy K = new_copy (QuotaStatus_DeepCopyInto K)"

definition Quota_DeepCopy :: "'a library \<Rightarrow> 'a copier" where
  "Quota_DeepCopy K = new_copy (Quota_DeepCopyInto K)"

definition QuotaList_DeepCopy :: "'a library \<Rightarrow> 'a copier" where
  "QuotaList_DeepCopy K = new_copy (QuotaList_DeepCopyInto K)"

definition Order_DeepCopyObject :: "'a library \<Rightarrow> 'a gval \<Rightarrow> 'a heap \<Rightarrow> (string \<times> 'a gval) option \<times> 'a heap" where
  "Order_DeepCopyObject K = as_object ''Order'' (Order_DeepCopy K)"

definition OrderList_DeepCopyObject :: "'a library \<Rightarrow> 'a gval \<Rightarrow> 'a heap \<Rightarrow> (string \<times> 'a gval) option \<times> 'a heap" where
  "OrderList_DeepCopyObject K = as_object ''OrderList'' (OrderList_DeepCopy K)"

definition Ticket_DeepCopyObject :: "'a library \<Rightarrow> 'a gval \<Rightarrow> 'a heap \<Rightarrow> (string \<times> 'a gval) option \<times> 'a heap" where
  "Ticket_DeepCopyObject K = as_object ''Ticket'' (Ticket_DeepCopy K)"

definition TicketList_DeepCopyObject :: "'a library \<Rightarrow> 'a gval \<Rightarrow> 'a heap \<Rightarrow> (string \<times> 'a gval) option \<times> 'a heap" where
  "TicketList_DeepCopyObject K = as_object ''TicketList'' (TicketList_DeepCopy K)"

definition Quota_DeepCopyObject :: "'a library \<Rightarrow> 'a gval \<Rightarrow> 'a heap \<Rightarrow> (string \<times> 'a gval) option \<times> 'a heap" where
  "Quota_DeepCopyObject K = as_object ''Quota'' (Quota_DeepCopy K)"

definition QuotaList_DeepCopyObject :: "'a library \<Rightarrow> 'a gval \<Rightarrow> 'a heap \<Rightarrow> (string \<times> 'a gval) option \<times> 'a heap" where
  "QuotaList_DeepCopyObject K = as_object ''QuotaList'' (QuotaList_DeepCopy K)"

definition generated_copies :: "(imported \<Rightarrow> go_type) \<Rightarrow> 'a library \<Rightarrow> (string \<times> go_type \<times> 'a copier) list" where
  "generated_copies E K = [
    (''TicketLifecycle'', TicketLifecycle_type E, TicketLifecycle_DeepCopy K),
    (''WindowSpec'', WindowSpec_type E, WindowSpec_DeepCopy K),
    (''TicketTemplateSpec'', TicketTemplateSpec_type E, TicketTemplateSpec_DeepCopy K),
    (''TicketTemplate'', TicketTemplate_type E, TicketTemplate_DeepCopy K),
    (''OrderSpec'', OrderSpec_type E, OrderSpec_DeepCopy K),
    (''OrderCondition'', OrderCondition_type E, OrderCondition_DeepCopy K),
    (''OrderStatus'', OrderStatus_type E, OrderStatus_DeepCopy K),
    (''Order'', Order_type E, Order_DeepCopy K),
    (''OrderList'', OrderList_type E, OrderList_DeepCopy K),
    (''TicketSpec'', TicketSpec_type E, TicketSpec_DeepCopy K),
    (''TicketCondition'', TicketCondition_type E, TicketCondition_DeepCopy K),
    (''TicketStatus'', TicketStatus_type E, TicketStatus_DeepCopy K),
    (''Ticket'', Ticket_type E, Ticket_DeepCopy K),
    (''TicketList'', TicketList_type E, TicketList_DeepCopy K),
    (''QuotaScope'', QuotaScope_type E, QuotaScope_DeepCopy K),
    (''TimeWindow'', TimeWindow_type E, TimeWindow_DeepCopy K),
    (''QuotaAllocation'', QuotaAllocation_type E, QuotaAllocation_DeepCopy K),
    (''QuotaSpec'', QuotaSpec_type E, QuotaSpec_DeepCopy K),
    (''QuotaCondition'', QuotaCondition_type E, QuotaCondition_DeepCopy K),
    (''QuotaStatus'', QuotaStatus_type E, QuotaStatus_DeepCopy K),
    (''Quota'', Quota_type E, Quota_DeepCopy K),
    (''QuotaList'', QuotaList_type E, QuotaList_DeepCopy K)]"

section \<open>Every generated copy is deep\<close>

text \<open>
  What the code relies on: the \<open>DeepCopyInto\<close> of the libraries' types, \<open>Time.DeepCopy\<close> (from
  pointer to pointer) and \<open>Quantity.DeepCopy\<close> (from value to value) are deep copies, and
  \<open>TypeMeta\<close>, which the code assigns, has no references.
\<close>

definition library_copies :: "(imported \<Rightarrow> go_type) \<Rightarrow> 'a library \<Rightarrow> bool" where
  "library_copies E K \<longleftrightarrow> refless (E metav1_TypeMeta) \<and> copies (E metav1_ObjectMeta) (K metav1_ObjectMeta) \<and>
    copies (E metav1_ListMeta) (K metav1_ListMeta) \<and> copies (E metav1_LabelSelector) (K metav1_LabelSelector) \<and>
    copies (PtrType (E metav1_Time)) (K metav1_Time) \<and> copies (E resource_Quantity) (K resource_Quantity) \<and>
    copies (E v1_ResourceRequirements) (K v1_ResourceRequirements) \<and> copies (E v1_Affinity) (K v1_Affinity) \<and>
    copies (E v1_Toleration) (K v1_Toleration) \<and> copies (E v1_TopologySpreadConstraint) (K v1_TopologySpreadConstraint)"

lemma library_copiesD [deep_copy_simps]:
  assumes "library_copies E K"
  shows "refless (E metav1_TypeMeta)" "copies (E metav1_ObjectMeta) (K metav1_ObjectMeta)"
    "copies (E metav1_ListMeta) (K metav1_ListMeta)" "copies (E metav1_LabelSelector) (K metav1_LabelSelector)"
    "copies (PtrType (E metav1_Time)) (K metav1_Time)" "copies (E resource_Quantity) (K resource_Quantity)"
    "copies (E v1_ResourceRequirements) (K v1_ResourceRequirements)" "copies (E v1_Affinity) (K v1_Affinity)"
    "copies (E v1_Toleration) (K v1_Toleration)" "copies (E v1_TopologySpreadConstraint) (K v1_TopologySpreadConstraint)"
  using assms by (simp_all add: library_copies_def)

lemma refless_TimeWindow [deep_copy_simps]: "refless (TimeWindow_type E)"
  by (simp add: TimeWindow_type_def)

lemmas [deep_copy_simps] = copies_new copies_slice copies_map copies_refless

lemma TicketLifecycle_copies [deep_copy_simps]: "library_copies E K \<Longrightarrow> copies (TicketLifecycle_type E) (TicketLifecycle_DeepCopyInto K)"
  unfolding TicketLifecycle_type_def TicketLifecycle_DeepCopyInto_def by (rule copies_struct) (simp_all add: deep_copy_simps)

lemma WindowSpec_copies [deep_copy_simps]: "library_copies E K \<Longrightarrow> copies (WindowSpec_type E) (WindowSpec_DeepCopyInto K)"
  unfolding WindowSpec_type_def WindowSpec_DeepCopyInto_def by (rule copies_struct) (simp_all add: deep_copy_simps)

lemma TicketTemplateSpec_copies [deep_copy_simps]: "library_copies E K \<Longrightarrow> copies (TicketTemplateSpec_type E) (TicketTemplateSpec_DeepCopyInto K)"
  unfolding TicketTemplateSpec_type_def TicketTemplateSpec_DeepCopyInto_def by (rule copies_struct) (simp_all add: deep_copy_simps)

lemma TicketTemplate_copies [deep_copy_simps]: "library_copies E K \<Longrightarrow> copies (TicketTemplate_type E) (TicketTemplate_DeepCopyInto K)"
  unfolding TicketTemplate_type_def TicketTemplate_DeepCopyInto_def by (rule copies_struct) (simp_all add: deep_copy_simps)

lemma OrderSpec_copies [deep_copy_simps]: "library_copies E K \<Longrightarrow> copies (OrderSpec_type E) (OrderSpec_DeepCopyInto K)"
  unfolding OrderSpec_type_def OrderSpec_DeepCopyInto_def by (rule copies_struct) (simp_all add: deep_copy_simps)

lemma OrderCondition_copies [deep_copy_simps]: "library_copies E K \<Longrightarrow> copies (OrderCondition_type E) (OrderCondition_DeepCopyInto K)"
  unfolding OrderCondition_type_def OrderCondition_DeepCopyInto_def by (rule copies_struct) (simp_all add: deep_copy_simps)

lemma OrderStatus_copies [deep_copy_simps]: "library_copies E K \<Longrightarrow> copies (OrderStatus_type E) (OrderStatus_DeepCopyInto K)"
  unfolding OrderStatus_type_def OrderStatus_DeepCopyInto_def by (rule copies_struct) (simp_all add: deep_copy_simps)

lemma Order_copies [deep_copy_simps]: "library_copies E K \<Longrightarrow> copies (Order_type E) (Order_DeepCopyInto K)"
  unfolding Order_type_def Order_DeepCopyInto_def by (rule copies_struct) (simp_all add: deep_copy_simps)

lemma OrderList_copies [deep_copy_simps]: "library_copies E K \<Longrightarrow> copies (OrderList_type E) (OrderList_DeepCopyInto K)"
  unfolding OrderList_type_def OrderList_DeepCopyInto_def by (rule copies_struct) (simp_all add: deep_copy_simps)

lemma TicketSpec_copies [deep_copy_simps]: "library_copies E K \<Longrightarrow> copies (TicketSpec_type E) (TicketSpec_DeepCopyInto K)"
  unfolding TicketSpec_type_def TicketSpec_DeepCopyInto_def by (rule copies_struct) (simp_all add: deep_copy_simps)

lemma TicketCondition_copies [deep_copy_simps]: "library_copies E K \<Longrightarrow> copies (TicketCondition_type E) (TicketCondition_DeepCopyInto K)"
  unfolding TicketCondition_type_def TicketCondition_DeepCopyInto_def by (rule copies_struct) (simp_all add: deep_copy_simps)

lemma TicketStatus_copies [deep_copy_simps]: "library_copies E K \<Longrightarrow> copies (TicketStatus_type E) (TicketStatus_DeepCopyInto K)"
  unfolding TicketStatus_type_def TicketStatus_DeepCopyInto_def by (rule copies_struct) (simp_all add: deep_copy_simps)

lemma Ticket_copies [deep_copy_simps]: "library_copies E K \<Longrightarrow> copies (Ticket_type E) (Ticket_DeepCopyInto K)"
  unfolding Ticket_type_def Ticket_DeepCopyInto_def by (rule copies_struct) (simp_all add: deep_copy_simps)

lemma TicketList_copies [deep_copy_simps]: "library_copies E K \<Longrightarrow> copies (TicketList_type E) (TicketList_DeepCopyInto K)"
  unfolding TicketList_type_def TicketList_DeepCopyInto_def by (rule copies_struct) (simp_all add: deep_copy_simps)

lemma QuotaScope_copies [deep_copy_simps]: "library_copies E K \<Longrightarrow> copies (QuotaScope_type E) (QuotaScope_DeepCopyInto K)"
  unfolding QuotaScope_type_def QuotaScope_DeepCopyInto_def by (rule copies_struct) (simp_all add: deep_copy_simps)

lemma TimeWindow_copies [deep_copy_simps]: "library_copies E K \<Longrightarrow> copies (TimeWindow_type E) (TimeWindow_DeepCopyInto K)"
  unfolding TimeWindow_type_def TimeWindow_DeepCopyInto_def by (rule copies_struct) (simp_all add: deep_copy_simps)

lemma QuotaAllocation_copies [deep_copy_simps]: "library_copies E K \<Longrightarrow> copies (QuotaAllocation_type E) (QuotaAllocation_DeepCopyInto K)"
  unfolding QuotaAllocation_type_def QuotaAllocation_DeepCopyInto_def by (rule copies_struct) (simp_all add: deep_copy_simps)

lemma QuotaSpec_copies [deep_copy_simps]: "library_copies E K \<Longrightarrow> copies (QuotaSpec_type E) (QuotaSpec_DeepCopyInto K)"
  unfolding QuotaSpec_type_def QuotaSpec_DeepCopyInto_def by (rule copies_struct) (simp_all add: deep_copy_simps)

lemma QuotaCondition_copies [deep_copy_simps]: "library_copies E K \<Longrightarrow> copies (QuotaCondition_type E) (QuotaCondition_DeepCopyInto K)"
  unfolding QuotaCondition_type_def QuotaCondition_DeepCopyInto_def by (rule copies_struct) (simp_all add: deep_copy_simps)

lemma QuotaStatus_copies [deep_copy_simps]: "library_copies E K \<Longrightarrow> copies (QuotaStatus_type E) (QuotaStatus_DeepCopyInto K)"
  unfolding QuotaStatus_type_def QuotaStatus_DeepCopyInto_def by (rule copies_struct) (simp_all add: deep_copy_simps)

lemma Quota_copies [deep_copy_simps]: "library_copies E K \<Longrightarrow> copies (Quota_type E) (Quota_DeepCopyInto K)"
  unfolding Quota_type_def Quota_DeepCopyInto_def by (rule copies_struct) (simp_all add: deep_copy_simps)

lemma QuotaList_copies [deep_copy_simps]: "library_copies E K \<Longrightarrow> copies (QuotaList_type E) (QuotaList_DeepCopyInto K)"
  unfolding QuotaList_type_def QuotaList_DeepCopyInto_def by (rule copies_struct) (simp_all add: deep_copy_simps)

lemma generated_copies_copy:
  assumes "library_copies E K" "(n, t, f) \<in> set (generated_copies E K)"
  shows "copies (PtrType t) f"
  using assms by (auto simp: generated_copies_def deep_copy_simps TicketLifecycle_DeepCopy_def WindowSpec_DeepCopy_def TicketTemplateSpec_DeepCopy_def TicketTemplate_DeepCopy_def OrderSpec_DeepCopy_def OrderCondition_DeepCopy_def OrderStatus_DeepCopy_def Order_DeepCopy_def OrderList_DeepCopy_def TicketSpec_DeepCopy_def TicketCondition_DeepCopy_def TicketStatus_DeepCopy_def Ticket_DeepCopy_def TicketList_DeepCopy_def QuotaScope_DeepCopy_def TimeWindow_DeepCopy_def QuotaAllocation_DeepCopy_def QuotaSpec_DeepCopy_def QuotaCondition_DeepCopy_def QuotaStatus_DeepCopy_def Quota_DeepCopy_def QuotaList_DeepCopy_def)

lemma DeepCopyObject_copies:
  assumes "copies (PtrType t) f" "fits h (PtrType t) p" "as_object n f p h = (ob, g)"
  shows "grows h g \<and> (p = Ref None \<and> ob = None \<or> (\<exists>q. p \<noteq> Ref None \<and> ob = Some (n, q) \<and> copied h (PtrType t) p q g))"
proof -
  obtain q k where q: "f p h = (q, k)" by fastforce
  with assms have c: "copied h (PtrType t) p q k" by (blast intro: copiesD)
  from copiedD(1) [OF c] have "p = Ref None \<and> q = Ref None \<or> (\<exists>a b. p = Ref (Some a) \<and> q = Ref (Some b))"
    by (auto elim: same_ptrE)
  with c q assms(3) copiedD(2) [OF c] show ?thesis by (auto simp: as_object_def)
qed

text \<open>
  C23. Every generated \<open>DeepCopy\<close> returns the value it was given, cell by cell, and the copy and
  the original are independent: a write to any cell the copy leads to leaves the original as it
  was, a write to any cell the original leads to leaves the copy as the original was.
\<close>

theorem copies_are_independent:
  assumes "library_copies E K" "(n, t, f) \<in> set (generated_copies E K)"
    and "fits h (PtrType t) p" "f p h = (q, g)"
  shows "same h g (PtrType t) p q \<and>
    (\<forall>b c. reach g (PtrType t) q b \<longrightarrow> same h (g[b := c]) (PtrType t) p p) \<and>
    (\<forall>b c. reach h (PtrType t) p b \<longrightarrow> same h (g[b := c]) (PtrType t) p q)"
proof -
  from generated_copies_copy [OF assms(1,2)] assms(3,4) have q: "copied h (PtrType t) p q g" by (rule copiesD)
  moreover have "same h (g[b := c]) (PtrType t) p p" if "reach g (PtrType t) q b" for b c
    using q assms(3) copiedD(3) [OF q that] by (rule copied_original_unaffected)
  moreover have "same h (g[b := c]) (PtrType t) p q" if "reach h (PtrType t) p b" for b c
    using reach_earlier [OF that assms(3) grows_refl] q by (blast intro: copied_copy_unaffected)
  ultimately show ?thesis by (blast dest: copiedD(1))
qed

text \<open>A condition with a reason, and what its copy is.\<close>

definition atoms_only :: "imported \<Rightarrow> go_type" where
  "atoms_only n = AtomType"

definition atom_library :: "'a library" where
  "atom_library n = (if n = metav1_Time then new_copy assign else assign)"

definition condition_at :: "addr \<Rightarrow> string cell" where
  "condition_at r = PtrCell (Struct [(''Type'', Atom ''Ready''), (''Status'', Atom ''True''),
     (''LastTransitionTime'', Ref None), (''Reason'', Ref (Some r)), (''Message'', Ref None)])"

lemma atom_library_copies: "library_copies atoms_only atom_library"
  by (simp add: library_copies_def atoms_only_def atom_library_def deep_copy_simps)

lemma condition_fits: "fits [PtrCell (Atom ''AllReady''), condition_at 0] (PtrType (OrderCondition_type atoms_only)) (Ref (Some 1))"
  unfolding condition_at_def OrderCondition_type_def
  by (rule same.ptr, simp add: cell_at_def, simp add: cell_at_def, rule same.struct)
     (auto simp: cell_at_def atoms_only_def intro!: same.intros)

lemma condition_copy: "OrderCondition_DeepCopy atom_library (Ref (Some 1)) [PtrCell (Atom ''AllReady''), condition_at 0] =
    (Ref (Some 3), [PtrCell (Atom ''AllReady''), condition_at 0, PtrCell (Atom ''AllReady''), condition_at 2])"
  by (simp add: OrderCondition_DeepCopy_def OrderCondition_DeepCopyInto_def atom_library_def condition_at_def new_copy_def
    struct_copy_def assign_def cell_at_def)

theorem copies_are_independent_witness:
  "same [PtrCell (Atom ''AllReady''), condition_at 0]
     [PtrCell (Atom ''Other''), condition_at 0, PtrCell (Atom ''AllReady''), condition_at 2]
     (PtrType (OrderCondition_type atoms_only)) (Ref (Some 1)) (Ref (Some 3))"
proof -
  let ?h = "[PtrCell (Atom ''AllReady''), condition_at 0]"
  let ?t = "PtrType (OrderCondition_type atoms_only)"
  have "(''OrderCondition'', OrderCondition_type atoms_only, OrderCondition_DeepCopy atom_library) \<in>
      set (generated_copies atoms_only (atom_library :: string library))"
    by (simp add: generated_copies_def)
  note deep = copies_are_independent [OF atom_library_copies this condition_fits condition_copy]
  have "reach ?h ?t (Ref (Some 1)) 0" unfolding OrderCondition_type_def condition_at_def
    by (rule reach.target, simp add: cell_at_def,
      rule reach.field [where n = "''Reason''" and t = "PtrType AtomType" and x = "Ref (Some 0)"])
      (simp_all add: reach.ptr)
  with deep have "same ?h ([PtrCell (Atom ''AllReady''), condition_at 0, PtrCell (Atom ''AllReady''), condition_at 2]
      [0 := PtrCell (Atom ''Other'')]) ?t (Ref (Some 1)) (Ref (Some 3))" by blast
  then show ?thesis by simp
qed

end
