(* ===== verification/Spec2Isabelle.thy ===== *)
theory Spec2Isabelle
  imports Cron OrderController TicketLifecycle PodWebhook Claims QuotaController OrderWebhook TicketWebhook Admission QuotaWebhook Startup DeepCopy
begin

text \<open>
  Korder is a Kubernetes operator for capacity reservations. An \<^emph>\<open>order\<close> asks for a number of
  \<^emph>\<open>tickets\<close>; a ticket holds its place on a node with a low-value \<^emph>\<open>guardian\<close> pod; a workload pod
  \<^emph>\<open>claims\<close> a ticket by an annotation, takes over its node, and the guardian goes away; \<^emph>\<open>quotas\<close>
  limit what may be reserved. This development models the controllers and admission webhooks
  that make this work, function by function, and proves what they guarantee and where they fail.

  \<^bold>\<open>The parts and how they interact.\<close> All state is Kubernetes objects in the API server; the parts
  share nothing else. They meet there as follows.

  \<^item> \<open>OrderController\<close> (\<open>internal/controller/order_controller.go\<close>) lists the tickets of an order,
    creates missing ones from the template, deletes excess ones by the refresh policy, and writes
    the order's counts and conditions.
  \<^item> \<open>TicketController\<close>, \<open>TicketLifecycle\<close> (\<open>internal/controller/ticket_controller.go\<close>) takes a ticket
    through Pending, Ready, Claimed and Expired, with its guardian pod and its time window.
  \<^item> \<open>PodWebhook\<close> (\<open>internal/webhook/v1/pod_webhook.go\<close>) finds the tickets a pod asks for, chooses one,
    marks it Claimed and binds the pod; then validates the result.
  \<^item> \<open>Claims\<close> puts these two at work together: pods and the ticket controller, interleaved and
    acting on what they read earlier.
  \<^item> \<open>QuotaController\<close> (\<open>internal/controller/quota_controller.go\<close>) measures the objects in a quota's
    scope, scales the limits by a time window, writes the status, and decides on requests.
  \<^item> \<open>OrderWebhook\<close>, \<open>TicketWebhook\<close>, \<open>QuotaWebhook\<close> (\<open>internal/webhook/v1alpha1\<close>) fill in defaults and
    admit or reject orders, tickets and quotas. \<open>Admission\<close> puts the ticket webhook in front of the
    server the order controller talks to.
  \<^item> \<open>Cron\<close> (\<open>internal/scheduler/cron.go\<close>) validates and matches cron schedules.
  \<^item> \<open>Metrics\<close> (\<open>internal/metrics/metrics.go\<close>) has the Prometheus vectors, their registration and the
    functions that record samples.
  \<^item> \<open>Flags\<close>, \<open>Startup\<close> (\<open>cmd/main.go\<close>, \<open>api/v1alpha1/groupversion_info.go\<close> and the \<open>SetupWithManager\<close>
    functions) parse the command line and set up the manager with the controllers and webhooks.
  \<^item> \<open>DeepCopy\<close> (\<open>api/v1alpha1/zz_generated.deepcopy.go\<close>, over the store of \<open>GoHeap\<close>) copies the API types
    for the clients and caches of the controller runtime.

  \<^bold>\<open>The libraries below them.\<close> \<open>Prelude\<close> has Go's maps and integers and the effectful computations
  (\<open>State_Monad\<close>; \<open>on_ok\<close> is the early return on an error). \<open>GoStd\<close>, \<open>GoTime\<close>, \<open>GoFloat\<close> and \<open>GoDate\<close>
  model what the program uses of Go's standard library (with \<open>flag.Parse\<close> and \<open>filepath.Join\<close> in \<open>Flags\<close>): strings
  and \<open>Atoi\<close>, \<open>ParseDuration\<close>,
  \<open>ParseFloat\<close> with the conversions of \<open>float64\<close>, and RFC 3339 text over a civil calendar.
  \<open>ApiTypes\<close> has the objects (\<open>api/v1alpha1\<close> and the fields used of pods and namespaces). \<open>Client\<close> has
  the operations the program calls outside the repository, one record that is a parameter of
  every definition; \<open>Resources\<close> has the laws on quantities and on listing a cluster.

  \<^bold>\<open>How code becomes definitions.\<close> A function of the code is a definition of the same name; where
  two components use a name, a prefix tells them apart (\<open>Order_Default\<close>, \<open>Ticket_Default\<close>). Loop bodies
  and long branches are definitions of their own. A pointer field is an \<open>option\<close>, a Go map an
  association list or nil, an \<open>int32\<close> or \<open>int64\<close> a word that wraps around, a metav1 time an instant in
  nanoseconds. An error is a value (\<open>go_error\<close>); nil dereferences and bad indices are the error
  \<open>Panic\<close>. Maps are iterated in the order of their list; which error is reported first may depend
  on it, no theorem does. Log calls are left out.

  \<^bold>\<open>What is assumed of code outside the repository.\<close> It is stated as locales; those of the
  API server are interpreted on \<open>MemApi\<close>, an in-memory API server with resource versions, finalizers, a status
  subresource and label selection, in which the witnesses run.

  \<^item> \<open>ticket_store\<close>, \<open>pod_store\<close>, \<open>ticket_server\<close> (\<open>Client\<close>): what a successful or failed read, create,
    update or delete does to the stored tickets and pods. \<open>available_ticket_store\<close> and
    \<open>available_ticket_server\<close> add that the server is up; a create under an unused name succeeds when
    the server lets the object in, which is a parameter of \<open>available_ticket_store\<close>.
  \<^item> \<open>admission_server\<close> (\<open>Admission\<close>): a server that is up and has quotas, before the ticket webhook is put
    in front of it. With the webhook it is an \<open>available_ticket_store\<close> again (a sublocale), which
    lets in what \<open>Default\<close> and \<open>ValidateCreate\<close> accept.
  \<^item> \<open>quota_server\<close>, \<open>available_quota_server\<close> (\<open>Resources\<close>): a list holds exactly the selected objects,
    in any order, and reading changes nothing.
  \<^item> \<open>quantity_laws\<close>: quantities are numbers of \<open>10^-9\<close> units with the documented operations; the
    instance \<open>exact_ops\<close> computes.
  \<^item> \<open>quota_control\<close>, \<open>available_quota_control\<close>: these contracts together.
  \<^item> \<open>versioned_server\<close> (\<open>Claims\<close>): optimistic locking. Every write of a ticket uses up a resource version
    that was not given out before, and a status write based on another version fails.
  \<^item> \<open>metric_registry\<close> (\<open>Metrics\<close>) and \<open>startup_log\<close> (\<open>Startup\<close>): what the Prometheus registry does with
    new and taken names, and a platform that keeps a log of the setup steps and of how each ended;
    they have instances of their own, a list of vectors and a platform that fails at a given step.

  \<open>DeepCopy\<close> has a named hypothesis, \<open>library_copies\<close>: the copy functions of the libraries' types are deep.

  \<^bold>\<open>What the theorems show.\<close>

  \<^item> Orders: a successful pass from below ends with exactly the wanted number of active tickets,
    and, behind the ticket webhook, with the server up and the names free, it succeeds exactly when the
    template passes that webhook; what each refresh policy deletes;
    the published counts; the deletion of an order clears its tickets. A taken name stops an order
    for good.
  \<^item> Tickets: the phases as a step relation over any sequence of reconciliations; a ready ticket
    has its guardian pod and a claimed one has given it up; the activation sets the window; expiry
    comes before cleanup. The TTL is never reached, and two situations make no progress.
  \<^item> Pods: a claim takes at most one free ticket, the first of the best score; the verdict of the
    validation after a claim; claims by name are refused, and a lost race still binds the pod.
  \<^item> Pods and tickets together: under any interleaving of look-ups, bindings, and reconciliations based
    on reads of any age, with other clients writing in between, a ticket is never claimed twice; a
    claim and the reconciliation after it put the pod in the place of the guardian.
  \<^item> Quotas: the measured usage refines the multiset specification of the scope; admission decides
    the limits; what a reconciliation records; whole multipliers scale exactly.
  \<^item> Webhooks: for each kind of object the admission decision in declarative form, and that the
    defaults are stable and keep that decision; the amounts an order reserves, with the rounding;
    what the order webhook accepts and the ticket webhook then refuses, through the controller
    between them; the set of admitted quotas as a step relation whose reachable states are
    well-formed, with at most one cluster quota.
  \<^item> Startup and metrics: setup makes the steps of one plan, each after the ones before it succeeded, and ends
    at the first failure; the manager is the last step;
    the certificate each server gets from the slice of options they share; a command line parses
    back to its flags; no sample can panic, and registration succeeds exactly once.
  \<^item> Deep copies: every generated copy is equal to its original and shares no cell with it, so that
    a write through one of them is never seen through the other.
  \<^item> Schedules: a grammar of the fields says which texts are valid and what they denote; validation
    accepts exactly these texts, a schedule runs exactly at the times its text denotes, and printing a
    schedule and validating it is a round trip.

  \<^bold>\<open>Fuel and bounds.\<close> \<open>handlePendingTicket\<close> and \<open>handleReadyTicket\<close> call each other without a bound, so they
  take fuel, a unit per call, and return \<open>None\<close> when it is used up. Three units are enough for a
  ticket whose guardian reference is one the controller writes, and for dangling references no
  fuel is; both are theorems of \<open>TicketLifecycle\<close>. All other loops are structural. Theorems on counters state the ranges in which \<open>int32\<close> and \<open>int64\<close> do not wrap. The value
  of a float conversion that does not fit an \<open>int64\<close>, which the language leaves open, is the parameter
  \<open>ovf\<close> of the quota code; the local time zone is the parameter \<open>zone\<close> of the ticket defaults.

  \<^bold>\<open>Not modelled.\<close> Pointers and cells exist in \<open>DeepCopy\<close> only; the other theories pass objects
  as values, and what the copies entitle the code to is a theorem there. Its slices are their elements,
  without spare capacity. The helpers of the end-to-end
  tests, logging and the options of the logger are left out. The kinds \<open>DaemonOrder\<close> and \<open>CronOrder\<close> are
  used by the quota controller but defined nowhere in the repository: they are their metadata.
  Reconcilers are modelled one call at a time; other clients act between two operations of a call
  only as far as the locales leave it open. In \<open>Claims\<close> the steps that interleave are a look-up, a
  binding, a read of the controller and the reconciliation of what it read, each of which makes at
  most one successful write of a ticket's status; the step relation on quotas takes admission
  requests one at a time. The type assertions on \<open>runtime.Object\<close> at the head of each webhook are left out.
\<close>

end
